theory Spec2Isabelle
  imports Main
begin

section \<open>Versioned entities of \<^verbatim>\<open>versions/models.py\<close>\<close>

text \<open>
  A shallow embedding of the versioning core of \<^verbatim>\<open>versions/models.py\<close>.

  \<^item> A point in time (\<^verbatim>\<open>datetime.datetime\<close>) is an integer number of microseconds, the
    resolution of Python's datetimes. Every \<^verbatim>\<open>datetime\<close> object is true in a Python
    condition, so \<^verbatim>\<open>if querytime:\<close> and \<^verbatim>\<open>if forced_version_date:\<close> test for
    \<^verbatim>\<open>None\<close> only; an optional timestamp is a \<open>datetime option\<close>.
  \<^item> A key (\<^verbatim>\<open>CharField(max_length=36)\<close>) is a string. The key of an instance that has
    none is the empty string (the default of a \<^verbatim>\<open>CharField\<close>), which is false in a
    Python condition.
\<close>

type_synonym datetime = int
type_synonym uuid = string

datatype error =
    ObjectDoesNotExist
  | MultipleObjectsReturned
  | ValueError
  | SuspiciousOperation
  | AttributeError
  | IntegrityError
  | Exception

text \<open>
  Class \<^verbatim>\<open>Versionable\<close>: the five columns, and the attribute \<^verbatim>\<open>as_of\<close> which is not
  a column. The field \<open>pk\<close> is the column \<^verbatim>\<open>id\<close> (the primary key, which the source
  reads both as \<^verbatim>\<open>self.id\<close> and as \<^verbatim>\<open>self.pk\<close>). The columns of a subclass are the
  extension of the record.
\<close>

record versionable =
  pk :: uuid
  identity :: uuid
  version_start_date :: datetime
  version_end_date :: "datetime option"
  version_birth_date :: datetime
  as_of :: "datetime option"

definition is_current :: "'a versionable_scheme \<Rightarrow> bool" where
  "is_current self = (version_end_date self = None)"

subsection \<open>The clock and the generator of keys\<close>

text \<open>
  \<^verbatim>\<open>get_utc_now()\<close> and \<^verbatim>\<open>uuid.uuid4()\<close> read the outside world. The environment
  holds what the successive calls return (\<open>utcnow n\<close> is the reading of call number
  \<open>n\<close>) and how many calls were made.
\<close>

record env =
  utcnow :: "nat \<Rightarrow> datetime"
  now_calls :: nat
  uuid4 :: "nat \<Rightarrow> uuid"
  uuid_calls :: nat

definition get_utc_now :: "'e env_scheme \<Rightarrow> datetime \<times> 'e env_scheme" where
  "get_utc_now w = (utcnow w (now_calls w), w\<lparr>now_calls := Suc (now_calls w)\<rparr>)"

definition uuid4_str :: "'e env_scheme \<Rightarrow> uuid \<times> 'e env_scheme" where
  "uuid4_str w = (uuid4 w (uuid_calls w), w\<lparr>uuid_calls := Suc (uuid_calls w)\<rparr>)"

subsection \<open>Query sets\<close>

text \<open>
  A \<^verbatim>\<open>VersionedQuerySet\<close> is the list of the rows of its table that pass the filters
  added so far, in table order, and its \<^verbatim>\<open>query_time\<close>. A table is the list of its
  rows.
\<close>

record 'a VersionedQuerySet =
  rows :: "'a versionable_scheme list"
  query_time :: "datetime option"

definition get_queryset :: "'a versionable_scheme list \<Rightarrow> 'a VersionedQuerySet" where
  "get_queryset table = \<lparr>rows = table, query_time = None\<rparr>"

definition filter_qs ::
  "('a versionable_scheme \<Rightarrow> bool) \<Rightarrow> 'a VersionedQuerySet \<Rightarrow> 'a VersionedQuerySet" where
  "filter_qs q qs = qs\<lparr>rows := filter q (rows qs)\<rparr>"

text \<open>
  The two \<^verbatim>\<open>Q\<close> objects of \<^verbatim>\<open>add_as_of_filter\<close>. In SQL a comparison with
  \<^verbatim>\<open>NULL\<close> is not true, so \<^verbatim>\<open>version_end_date__gt\<close> fails on a row without an end.
\<close>

definition version_end_date_gt :: "datetime \<Rightarrow> 'a versionable_scheme \<Rightarrow> bool" where
  "version_end_date_gt t v = (case version_end_date v of None \<Rightarrow> False | Some e \<Rightarrow> e > t)"

definition as_of_Q :: "datetime option \<Rightarrow> 'a versionable_scheme \<Rightarrow> bool" where
  "as_of_Q querytime v =
     (case querytime of
        Some t \<Rightarrow> (version_end_date_gt t v \<or> version_end_date v = None)
                  \<and> version_start_date v \<le> t
      | None \<Rightarrow> version_end_date v = None)"

definition add_as_of_filter ::
  "datetime option \<Rightarrow> 'a VersionedQuerySet \<Rightarrow> 'a VersionedQuerySet" where
  "add_as_of_filter querytime self =
     (case querytime of
        Some t \<Rightarrow> filter_qs (as_of_Q (Some t)) (self\<lparr>query_time := Some t\<rparr>)
      | None \<Rightarrow> filter_qs (as_of_Q None) self)"

text \<open>
  \<^verbatim>\<open>VersionedQuerySet.as_of\<close>. Its call of \<^verbatim>\<open>query.set_as_of(qtime, True)\<close> acts on
  the joins of the query only, through \<open>get_extra_restriction\<close> below.
\<close>

definition qs_as_of ::
  "datetime option \<Rightarrow> 'a VersionedQuerySet \<Rightarrow> 'a VersionedQuerySet" where
  "qs_as_of qtime self = add_as_of_filter qtime self"

definition set_query_time ::
  "'a VersionedQuerySet \<Rightarrow> 'a versionable_scheme \<Rightarrow> 'a versionable_scheme" where
  "set_query_time self item = item\<lparr>as_of := query_time self\<rparr>"

definition fetch_all :: "'a VersionedQuerySet \<Rightarrow> 'a versionable_scheme list" where
  "fetch_all self = map (set_query_time self) (rows self)"


text \<open>
  \<^verbatim>\<open>VersionedForeignKey\<close> keeps the time of the query that joins through it;
  \<^verbatim>\<open>get_extra_restriction\<close> gives the condition added to the \<^verbatim>\<open>JOIN ... ON\<close>, as a
  predicate on the joined row, or nothing.
\<close>

record VersionedForeignKey =
  as_of_time :: "datetime option"
  apply_as_of_time :: bool

definition set_as_of ::
  "datetime option \<Rightarrow> bool \<Rightarrow> VersionedForeignKey \<Rightarrow> VersionedForeignKey" where
  "set_as_of t apply self = self\<lparr>as_of_time := t, apply_as_of_time := apply\<rparr>"



subsection \<open>The manager: looking versions up\<close>

text \<open>
  Django's \<^verbatim>\<open>QuerySet.get\<close>: the one row that passes the filter, or an error when there
  is none or more than one. The rows it returns went through \<^verbatim>\<open>_fetch_all\<close>.
\<close>

definition qs_get ::
  "('a versionable_scheme \<Rightarrow> bool) \<Rightarrow> 'a VersionedQuerySet \<Rightarrow> error + 'a versionable_scheme" where
  "qs_get q self =
     (case fetch_all (filter_qs q self) of
        [] \<Rightarrow> Inl ObjectDoesNotExist
      | [x] \<Rightarrow> Inr x
      | _ \<Rightarrow> Inl MultipleObjectsReturned)"

text \<open>
  \<^verbatim>\<open>VersionManager.next_version\<close> and \<^verbatim>\<open>previous_version\<close>, on the table of the
  manager's model. The two \<^verbatim>\<open>except\<close> clauses raise the exception they caught, with a
  longer message.
\<close>

definition next_version ::
  "'a versionable_scheme list \<Rightarrow> 'a versionable_scheme \<Rightarrow> error + 'a versionable_scheme" where
  "next_version table object =
     (if version_end_date object = None then Inr object
      else
        (case qs_get (\<lambda>v. identity v = identity object
                          \<and> Some (version_start_date v) = version_end_date object)
                (get_queryset table) of
           Inl MultipleObjectsReturned \<Rightarrow> Inl MultipleObjectsReturned
         | Inl ObjectDoesNotExist \<Rightarrow> Inl ObjectDoesNotExist
         | Inl e \<Rightarrow> Inl e
         | Inr next \<Rightarrow> Inr next))"

definition previous_version ::
  "'a versionable_scheme list \<Rightarrow> 'a versionable_scheme \<Rightarrow> error + 'a versionable_scheme" where
  "previous_version table object =
     (if version_birth_date object = version_start_date object then Inr object
      else
        (case qs_get (\<lambda>v. identity v = identity object
                          \<and> version_end_date v = Some (version_start_date object))
                (get_queryset table) of
           Inl MultipleObjectsReturned \<Rightarrow> Inl MultipleObjectsReturned
         | Inl ObjectDoesNotExist \<Rightarrow> Inl ObjectDoesNotExist
         | Inl e \<Rightarrow> Inl e
         | Inr previous \<Rightarrow> Inr previous))"

subsection \<open>The store\<close>

text \<open>
  Django's \<^verbatim>\<open>Model.save\<close>: an \<^verbatim>\<open>UPDATE\<close> of the row with the primary key of the
  instance, and an \<^verbatim>\<open>INSERT\<close> when no row has it. \<^verbatim>\<open>as_of\<close> is not a column, so the
  stored row has none.
\<close>

definition save ::
  "'a versionable_scheme \<Rightarrow> 'a versionable_scheme list \<Rightarrow> 'a versionable_scheme list" where
  "save self table =
     (let row = self\<lparr>as_of := None\<rparr> in
      if pk self \<in> set (map pk table)
      then map (\<lambda>r. if pk r = pk self then row else r) table
      else table @ [row])"

text \<open>
  The state of the program: the environment, the table of the model at hand
  (\<open>objects\<close>), the tables of the intermediary models of its many-to-many fields
  (by the name of the intermediary model), and the tables of the other models (by name).
\<close>

record 'a db = env +
  objects :: "'a versionable_scheme list"

subsection \<open>Creating and deleting\<close>

text \<open>
  Django's \<^verbatim>\<open>Manager.create\<close> builds the instance and saves it with
  \<^verbatim>\<open>force_insert=True\<close>, which the primary key constraint refuses when the key is taken.
\<close>

definition manager_create ::
  "'a versionable_scheme \<Rightarrow> ('a, 'z) db_scheme
   \<Rightarrow> (error + 'a versionable_scheme) \<times> ('a, 'z) db_scheme" where
  "manager_create obj w =
     (if pk obj \<in> set (map pk (objects w)) then (Inl IntegrityError, w)
      else (Inr obj, w\<lparr>objects := objects w @ [obj\<lparr>as_of := None\<rparr>]\<rparr>))"

text \<open>
  \<^verbatim>\<open>VersionManager._create_at\<close>. The keyword arguments are the values of the columns
  that the subclass adds; \<^verbatim>\<open>version_end_date\<close> and \<^verbatim>\<open>as_of\<close> get their defaults.
  The constructor that Django's \<^verbatim>\<open>create\<close> calls runs \<^verbatim>\<open>post_init_initialize\<close>, which
  draws a value and reads the clock once more and uses neither, since the key, the
  identity and the two dates are set; this draw and this reading are not counted in the
  environment.
\<close>

definition create_at ::
  "datetime option \<Rightarrow> 'a \<Rightarrow> ('a, 'z) db_scheme
   \<Rightarrow> (error + 'a versionable_scheme) \<times> ('a, 'z) db_scheme" where
  "create_at timestamp kwargs w =
     (case uuid4_str w of (ident, w1) \<Rightarrow>
      (case (case timestamp of None \<Rightarrow> get_utc_now w1 | Some t \<Rightarrow> (t, w1)) of (timestamp', w2) \<Rightarrow>
         manager_create
           \<lparr>pk = ident, identity = ident, version_start_date = timestamp',
            version_end_date = None, version_birth_date = timestamp', as_of = None,
            \<dots> = kwargs\<rparr> w2))"

definition create ::
  "'a \<Rightarrow> ('a, 'z) db_scheme \<Rightarrow> (error + 'a versionable_scheme) \<times> ('a, 'z) db_scheme" where
  "create kwargs w = create_at None kwargs w"

text \<open>
  \<^verbatim>\<open>Versionable._delete_at\<close>, on the table of the instance. The result is the outcome,
  the instance after the call and the table after the call.
\<close>

definition delete_at ::
  "datetime \<Rightarrow> 'a versionable_scheme \<Rightarrow> 'a versionable_scheme list
   \<Rightarrow> (error + unit) \<times> 'a versionable_scheme \<times> 'a versionable_scheme list" where
  "delete_at timestamp self table =
     (if version_end_date self = None then
        (let self' = self\<lparr>version_end_date := Some timestamp\<rparr>
         in (Inr (), self', save self' table))
      else (Inl Exception, self, table))"

definition delete ::
  "'a versionable_scheme \<Rightarrow> ('a, 'z) db_scheme
   \<Rightarrow> (error + unit) \<times> 'a versionable_scheme \<times> ('a, 'z) db_scheme" where
  "delete self w =
     (case get_utc_now w of (now, w1) \<Rightarrow>
      (case delete_at now self (objects w1) of (r, self', table') \<Rightarrow>
         (r, self', w1\<lparr>objects := table'\<rparr>)))"

subsection \<open>Cloning\<close>

text \<open>
  \<^verbatim>\<open>Versionable.clone\<close> from \<^verbatim>\<open>earlier_version = self\<close> to the first
  \<^verbatim>\<open>later_version.save()\<close>, on the table of the instance: the copy, the new key of the
  earlier version and the two saves. The result holds the earlier version (the instance
  itself, changed in place), the later version and the table.
\<close>

definition clone_versions ::
  "datetime \<Rightarrow> 'a versionable_scheme \<Rightarrow> 'a versionable_scheme list \<Rightarrow> 'e env_scheme
   \<Rightarrow> ('a versionable_scheme \<times> 'a versionable_scheme \<times> 'a versionable_scheme list)
      \<times> 'e env_scheme" where
  "clone_versions forced_version_date self table w =
     (let earlier_version = self;
          later_version = earlier_version
            \<lparr>version_end_date := None, version_start_date := forced_version_date\<rparr>
      in case uuid4_str w of (new_id, w1) \<Rightarrow>
         (let earlier_version' = earlier_version
                \<lparr>pk := new_id, version_end_date := Some forced_version_date\<rparr>
          in ((earlier_version', later_version,
               save later_version (save earlier_version' table)), w1)))"

text \<open>
  The checks at the head of \<^verbatim>\<open>Versionable.clone\<close>, which give the date of the new
  version. In \<^verbatim>\<open>start <= forced <= get_utc_now()\<close> the clock is read only when the
  first comparison holds.
\<close>

definition clone_date ::
  "datetime option \<Rightarrow> 'a versionable_scheme \<Rightarrow> 'e env_scheme
   \<Rightarrow> (error + datetime) \<times> 'e env_scheme" where
  "clone_date forced_version_date self w =
     (if pk self = [] then (Inl ValueError, w)
      else if version_end_date self \<noteq> None then (Inl ValueError, w)
      else
        (case forced_version_date of
           Some t \<Rightarrow>
             if version_start_date self \<le> t then
               (case get_utc_now w of (now, w1) \<Rightarrow>
                  if t \<le> now then (Inr t, w1) else (Inl ValueError, w1))
             else (Inl ValueError, w)
         | None \<Rightarrow> (case get_utc_now w of (now, w1) \<Rightarrow> (Inr now, w1))))"

subsection \<open>Many-to-many relations\<close>

text \<open>
  The intermediary model that \<^verbatim>\<open>create_versioned_many_to_many_intermediary_model\<close>
  builds is a \<^verbatim>\<open>Versionable\<close> with two foreign keys, \<^verbatim>\<open>from_\<close> and \<^verbatim>\<open>to\<close>, each
  holding the primary key of the row it points at.
\<close>

record link = versionable +
  from_id :: uuid
  to_id :: uuid

datatype through_field = from_field | to_field

definition fk_val :: "through_field \<Rightarrow> 'z link_scheme \<Rightarrow> uuid" where
  "fk_val f r = (case f of from_field \<Rightarrow> from_id r | to_field \<Rightarrow> to_id r)"

definition set_fk :: "through_field \<Rightarrow> uuid \<Rightarrow> 'z link_scheme \<Rightarrow> 'z link_scheme" where
  "set_fk f v r = (case f of from_field \<Rightarrow> r\<lparr>from_id := v\<rparr> | to_field \<Rightarrow> r\<lparr>to_id := v\<rparr>)"

record 'a world = "'a db" +
  through_tables :: "string \<Rightarrow> link list"
  related :: "string \<Rightarrow> 'a versionable_scheme list"

text \<open>
  What a many-to-many field fixes of its managers: the intermediary model, which of its
  two foreign keys points at the instance and which at the other side, whether the
  relation is symmetrical, and the model of the other side (\<open>None\<close> when that is the
  model of the instance itself). A \<^verbatim>\<open>VersionedManyRelatedManager\<close> adds the instance.
\<close>

record m2m_field =
  through :: string
  source_field_name :: through_field
  target_field_name :: through_field
  symmetrical :: bool
  rel_to :: "string option"

record 'a VersionedManyRelatedManager = m2m_field +
  manager_instance :: "'a versionable_scheme"

definition related_manager ::
  "m2m_field \<Rightarrow> 'a versionable_scheme \<Rightarrow> 'a VersionedManyRelatedManager" where
  "related_manager field inst =
     \<lparr>through = through field, source_field_name = source_field_name field,
      target_field_name = target_field_name field, symmetrical = symmetrical field,
      rel_to = rel_to field, manager_instance = inst\<rparr>"

definition set_through ::
  "string \<Rightarrow> link list \<Rightarrow> 'a world \<Rightarrow> 'a world" where
  "set_through name table w = w\<lparr>through_tables := (through_tables w)(name := table)\<rparr>"

text \<open>
  The arguments of \<^verbatim>\<open>add\<close>, \<^verbatim>\<open>remove\<close> and of the assignment are instances of the
  model of the other side, or bare primary keys. A Python \<^verbatim>\<open>set\<close> is a list without
  duplicates, in the one order in which the model iterates over it.
\<close>

datatype 'a m2m_obj = Instance "'a versionable_scheme" | Key uuid

definition obj_pk :: "'a m2m_obj \<Rightarrow> uuid" where
  "obj_pk obj = (case obj of Instance o' \<Rightarrow> pk o' | Key k \<Rightarrow> k)"

definition pks_from_objects :: "'a m2m_obj list \<Rightarrow> uuid list" where
  "pks_from_objects objs = remdups (map obj_pk objs)"

text \<open>The loop \<^verbatim>\<open>for relation in qs: relation._delete_at(timestamp)\<close>.\<close>

fun delete_relations ::
  "datetime \<Rightarrow> link list \<Rightarrow> link list \<Rightarrow> (error + unit) \<times> link list" where
  "delete_relations timestamp [] table = (Inr (), table)"
| "delete_relations timestamp (relation # qs) table =
     (case delete_at timestamp relation table of
        (Inl e, _, table') \<Rightarrow> (Inl e, table')
      | (Inr _, _, table') \<Rightarrow> delete_relations timestamp qs table')"

definition remove_items_at ::
  "datetime option \<Rightarrow> through_field \<Rightarrow> through_field \<Rightarrow> 'a m2m_obj list
   \<Rightarrow> 'a VersionedManyRelatedManager \<Rightarrow> 'a world \<Rightarrow> (error + unit) \<times> 'a world" where
  "remove_items_at timestamp source_field_name' target_field_name' objs self w =
     (if objs \<noteq> [] then
        (case (case timestamp of None \<Rightarrow> get_utc_now w | Some t \<Rightarrow> (t, w)) of
           (timestamp', w1) \<Rightarrow>
             (let old_ids = remdups (map obj_pk objs);
                  qs = qs_as_of (Some timestamp')
                         (filter_qs (\<lambda>r. fk_val source_field_name' r = pk (manager_instance self)
                                         \<and> fk_val target_field_name' r \<in> set old_ids)
                            (get_queryset (through_tables w1 (through self))))
              in case delete_relations timestamp' (fetch_all qs) (through_tables w1 (through self)) of
                   (r, table') \<Rightarrow> (r, set_through (through self) table' w1)))
      else (Inr (), w))"

definition remove_items ::
  "through_field \<Rightarrow> through_field \<Rightarrow> 'a m2m_obj list
   \<Rightarrow> 'a VersionedManyRelatedManager \<Rightarrow> 'a world \<Rightarrow> (error + unit) \<times> 'a world" where
  "remove_items source_field_name' target_field_name' objs self w =
     remove_items_at None source_field_name' target_field_name' objs self w"

definition remove_at ::
  "datetime \<Rightarrow> 'a m2m_obj list \<Rightarrow> 'a VersionedManyRelatedManager \<Rightarrow> 'a world
   \<Rightarrow> (error + unit) \<times> 'a world" where
  "remove_at timestamp objs self w =
     (case remove_items_at (Some timestamp) (source_field_name self) (target_field_name self)
             objs self w of
        (Inl e, w1) \<Rightarrow> (Inl e, w1)
      | (Inr _, w1) \<Rightarrow>
          if symmetrical self
          then remove_items_at (Some timestamp) (target_field_name self) (source_field_name self)
                 objs self w1
          else (Inr (), w1))"

text \<open>
  The constructor of the intermediary model, followed by
  \<^verbatim>\<open>VersionedManyToManyModel.post_init_initialize\<close>: the new row has no key, identity
  or dates yet, so the handler sets all four. Inside \<^verbatim>\<open>add_at\<close> the constructor is
  replaced by \<^verbatim>\<open>_through_init\<close>, which then overwrites the two dates with its
  timestamp; \<open>init_timestamp\<close> is that timestamp, or \<open>None\<close> for the plain constructor.
\<close>

definition through_init ::
  "datetime option \<Rightarrow> through_field \<Rightarrow> uuid \<Rightarrow> through_field \<Rightarrow> uuid \<Rightarrow> 'e env_scheme
   \<Rightarrow> link \<times> 'e env_scheme" where
  "through_init init_timestamp source_field_name' source_id target_field_name' target_id w =
     (case uuid4_str w of (ident, w1) \<Rightarrow>
      (case get_utc_now w1 of (now, w2) \<Rightarrow>
         (let obj = set_fk target_field_name' target_id (set_fk source_field_name' source_id
                      \<lparr>pk = ident, identity = ident, version_start_date = now,
                       version_end_date = None, version_birth_date = now, as_of = None,
                       from_id = [], to_id = []\<rparr>)
          in (case init_timestamp of
                Some timestamp \<Rightarrow>
                  obj\<lparr>version_birth_date := timestamp, version_start_date := timestamp\<rparr>
              | None \<Rightarrow> obj, w2))))"

fun through_objs ::
  "datetime option \<Rightarrow> through_field \<Rightarrow> uuid \<Rightarrow> through_field \<Rightarrow> uuid list \<Rightarrow> 'e env_scheme
   \<Rightarrow> link list \<times> 'e env_scheme" where
  "through_objs init_timestamp sf source_id tf [] w = ([], w)"
| "through_objs init_timestamp sf source_id tf (obj_id # new_ids) w =
     (case through_init init_timestamp sf source_id tf obj_id w of (obj, w1) \<Rightarrow>
      (case through_objs init_timestamp sf source_id tf new_ids w1 of (objs, w2) \<Rightarrow>
         (obj # objs, w2)))"

text \<open>
  \<^verbatim>\<open>VersionedQuerySet.values_list\<close> adds the filter of the time of the query set again.
\<close>

definition values_list :: "'a VersionedQuerySet \<Rightarrow> 'a VersionedQuerySet" where
  "values_list self = add_as_of_filter (query_time self) self"

text \<open>
  Django's \<^verbatim>\<open>_add_items\<close>: of the given keys, those that the instance is not linked to
  according to \<^verbatim>\<open>values_list\<close> get a new row of the intermediary model, all in one
  \<^verbatim>\<open>bulk_create\<close>, which the primary key constraint refuses as a whole when a key is
  taken.
\<close>

definition add_items ::
  "datetime option \<Rightarrow> through_field \<Rightarrow> through_field \<Rightarrow> 'a m2m_obj list
   \<Rightarrow> 'a VersionedManyRelatedManager \<Rightarrow> 'a world \<Rightarrow> (error + unit) \<times> 'a world" where
  "add_items init_timestamp source_field_name' target_field_name' objs self w =
     (if objs \<noteq> [] then
        (let table = through_tables w (through self);
             new_ids = remdups (map obj_pk objs);
             vals = map (fk_val target_field_name')
                      (rows (filter_qs (\<lambda>r. fk_val source_field_name' r = pk (manager_instance self)
                                           \<and> fk_val target_field_name' r \<in> set new_ids)
                               (values_list (get_queryset table))));
             new_ids' = filter (\<lambda>k. k \<notin> set vals) new_ids
         in case through_objs init_timestamp source_field_name' (pk (manager_instance self))
                   target_field_name' new_ids' w of
              (new_objs, w1) \<Rightarrow>
                if distinct (map pk new_objs)
                   \<and> (\<forall>obj \<in> set new_objs. pk obj \<notin> set (map pk table))
                then (Inr (), set_through (through self) (table @ new_objs) w1)
                else (Inl IntegrityError, w1))
      else (Inr (), w))"

text \<open>
  \<^verbatim>\<open>VersionedManyRelatedManager.add\<close>; the call of the parent class is Django's
  \<^verbatim>\<open>add\<close>, which adds the mirror rows of a symmetrical relation as well.
\<close>

definition add ::
  "datetime option \<Rightarrow> 'a m2m_obj list \<Rightarrow> 'a VersionedManyRelatedManager \<Rightarrow> 'a world
   \<Rightarrow> (error + unit) \<times> 'a world" where
  "add init_timestamp objs self w =
     (if \<not> is_current (manager_instance self) then (Inl SuspiciousOperation, w)
      else
        (case add_items init_timestamp (source_field_name self) (target_field_name self)
                objs self w of
           (Inl e, w1) \<Rightarrow> (Inl e, w1)
         | (Inr _, w1) \<Rightarrow>
             if symmetrical self
             then add_items init_timestamp (target_field_name self) (source_field_name self)
                    objs self w1
             else (Inr (), w1)))"

definition add_at ::
  "datetime \<Rightarrow> 'a m2m_obj list \<Rightarrow> 'a VersionedManyRelatedManager \<Rightarrow> 'a world
   \<Rightarrow> (error + unit) \<times> 'a world" where
  "add_at timestamp objs self w = add (Some timestamp) objs self w"

text \<open>
  \<^verbatim>\<open>VersionedReverseManyRelatedObjectsDescriptor.get_current_m2m_diff\<close> and
  \<^verbatim>\<open>__set__\<close>. The manager is \<^verbatim>\<open>self.__get__(instance)\<close>; \<open>auto_created\<close> is
  \<^verbatim>\<open>self.field.rel.through._meta.auto_created\<close>.
\<close>

definition get_current_m2m_diff ::
  "'a VersionedManyRelatedManager \<Rightarrow> 'a m2m_obj list \<Rightarrow> 'a world \<Rightarrow> uuid list \<times> uuid list" where
  "get_current_m2m_diff relation_manager new_objects w =
     (let new_ids = pks_from_objects new_objects;
          qs = filter_qs (\<lambda>r. fk_val (source_field_name relation_manager) r
                               = pk (manager_instance relation_manager))
                 (qs_as_of None (get_queryset (through_tables w (through relation_manager))));
          current_ids = remdups (map (fk_val (target_field_name relation_manager))
                                   (rows (values_list qs)));
          being_removed = filter (\<lambda>k. k \<notin> set new_ids) current_ids;
          being_added = filter (\<lambda>k. k \<notin> set current_ids) new_ids
      in (being_removed, being_added))"

definition descriptor_set ::
  "bool \<Rightarrow> 'a VersionedManyRelatedManager \<Rightarrow> 'a m2m_obj list \<Rightarrow> 'a world
   \<Rightarrow> (error + unit) \<times> 'a world" where
  "descriptor_set auto_created manager val w =
     (if \<not> is_current (manager_instance manager) then (Inl SuspiciousOperation, w)
      else if \<not> auto_created then (Inl AttributeError, w)
      else
        (case get_current_m2m_diff manager val w of (being_removed, being_added) \<Rightarrow>
         (case get_utc_now w of (timestamp, w1) \<Rightarrow>
          (case remove_at timestamp (map Key being_removed) manager w1 of
             (Inl e, w2) \<Rightarrow> (Inl e, w2)
           | (Inr _, w2) \<Rightarrow> add_at timestamp (map Key being_added) manager w2))))"

subsection \<open>Cloning with the relations\<close>

text \<open>
  \<^verbatim>\<open>Versionable.clone\<close> on a row of an intermediary model. Such a model has no
  many-to-many field and no \<^verbatim>\<open>many_to_many_related\<close>, so both loops over the relations
  are empty, and the row is saved once more.
\<close>

definition link_clone ::
  "string \<Rightarrow> datetime option \<Rightarrow> link \<Rightarrow> 'a world \<Rightarrow> (error + link) \<times> link \<times> 'a world" where
  "link_clone name forced_version_date self w =
     (case clone_date forced_version_date self w of
        (Inl e, w1) \<Rightarrow> (Inl e, self, w1)
      | (Inr d, w1) \<Rightarrow>
          (case clone_versions d self (through_tables w1 name) w1 of
             ((earlier_version, later_version, table'), w2) \<Rightarrow>
               (Inr later_version, earlier_version,
                set_through name (save later_version table') w2)))"

text \<open>
  The query set of a \<^verbatim>\<open>VersionedManyRelatedManager\<close>: the rows of the other side that
  are valid at the time of the instance and linked to its key by a row of the intermediary
  model valid at that time.
\<close>

definition manager_all ::
  "'a VersionedManyRelatedManager \<Rightarrow> 'a world \<Rightarrow> 'a versionable_scheme list" where
  "manager_all self w =
     (let t = as_of (manager_instance self);
          links = rows (qs_as_of t
                    (filter_qs (\<lambda>r. fk_val (source_field_name self) r = pk (manager_instance self))
                       (get_queryset (through_tables w (through self)))));
          targets = (case rel_to self of None \<Rightarrow> objects w | Some m \<Rightarrow> related w m)
      in fetch_all (qs_as_of t
           (filter_qs (\<lambda>v. pk v \<in> set (map (fk_val (target_field_name self)) links))
              (get_queryset targets))))"

text \<open>The two loops of \<^verbatim>\<open>Versionable.clone_relations\<close>.\<close>

fun add_each ::
  "'a versionable_scheme list \<Rightarrow> 'a VersionedManyRelatedManager \<Rightarrow> 'a world
   \<Rightarrow> (error + unit) \<times> 'a world" where
  "add_each [] destination w = (Inr (), w)"
| "add_each (item # items) destination w =
     (case add None [Instance item] destination w of
        (Inl e, w1) \<Rightarrow> (Inl e, w1)
      | (Inr _, w1) \<Rightarrow> add_each items destination w1)"

fun clone_rels ::
  "'a versionable_scheme \<Rightarrow> 'a VersionedManyRelatedManager \<Rightarrow> link list \<Rightarrow> 'a world
   \<Rightarrow> (error + unit) \<times> 'a world" where
  "clone_rels self source [] w = (Inr (), w)"
| "clone_rels self source (rel # m2m_rels) w =
     (case (if is_current rel
            then link_clone (through source) (version_end_date self) rel w
            else (Inr rel, rel, w)) of
        (Inl e, _, w1) \<Rightarrow> (Inl e, w1)
      | (Inr _, rel', w1) \<Rightarrow>
          (let rel'' = set_fk (source_field_name source) (pk self) rel'
           in clone_rels self source m2m_rels
                (set_through (through source)
                   (save rel'' (through_tables w1 (through source))) w1)))"

definition clone_relations ::
  "'a versionable_scheme \<Rightarrow> 'a versionable_scheme \<Rightarrow> m2m_field \<Rightarrow> 'a world
   \<Rightarrow> (error + unit) \<times> 'a world" where
  "clone_relations self clone' manager_field w =
     (let source = related_manager manager_field self;
          destination = related_manager manager_field clone'
      in case add_each (manager_all source w) destination w of
           (Inl e, w1) \<Rightarrow> (Inl e, w1)
         | (Inr _, w1) \<Rightarrow>
             clone_rels self source
               (fetch_all (filter_qs (\<lambda>r. fk_val (source_field_name source) r = pk clone')
                             (get_queryset (through_tables w1 (through source)))))
               w1)"

text \<open>
  \<^verbatim>\<open>_meta\<close> of the model of an instance: its many-to-many fields, and the descriptors
  that \<^verbatim>\<open>VersionedManyToManyField.contribute_to_related_class\<close> collected, when there
  are any.
\<close>

record options =
  many_to_many :: "m2m_field list"
  many_to_many_related :: "m2m_field list option"

fun clone_all_relations ::
  "'a versionable_scheme \<Rightarrow> 'a versionable_scheme \<Rightarrow> m2m_field list \<Rightarrow> 'a world
   \<Rightarrow> (error + unit) \<times> 'a world" where
  "clone_all_relations earlier_version later_version [] w = (Inr (), w)"
| "clone_all_relations earlier_version later_version (field # rest) w =
     (case clone_relations earlier_version later_version field w of
        (Inl e, w1) \<Rightarrow> (Inl e, w1)
      | (Inr _, w1) \<Rightarrow> clone_all_relations earlier_version later_version rest w1)"

text \<open>
  \<^verbatim>\<open>Versionable.clone\<close>. The result is the outcome (the later version), the instance
  after the call (the earlier version, when the checks passed) and the state.
\<close>

definition clone ::
  "options \<Rightarrow> datetime option \<Rightarrow> 'a versionable_scheme \<Rightarrow> 'a world
   \<Rightarrow> (error + 'a versionable_scheme) \<times> 'a versionable_scheme \<times> 'a world" where
  "clone meta forced_version_date self w =
     (case clone_date forced_version_date self w of
        (Inl e, w1) \<Rightarrow> (Inl e, self, w1)
      | (Inr d, w1) \<Rightarrow>
          (case clone_versions d self (objects w1) w1 of
             ((earlier_version, later_version, table'), w2) \<Rightarrow>
               (case clone_all_relations earlier_version later_version
                       (many_to_many meta
                        @ (case many_to_many_related meta of None \<Rightarrow> [] | Some rels \<Rightarrow> rels))
                       (w2\<lparr>objects := table'\<rparr>) of
                  (Inl e, w3) \<Rightarrow> (Inl e, earlier_version, w3)
                | (Inr _, w3) \<Rightarrow>
                    (Inr later_version, earlier_version,
                     w3\<lparr>objects := save later_version (objects w3)\<rparr>))))"

definition clone_at ::
  "options \<Rightarrow> datetime \<Rightarrow> 'a versionable_scheme \<Rightarrow> 'a world
   \<Rightarrow> (error + 'a versionable_scheme) \<times> 'a versionable_scheme \<times> 'a world" where
  "clone_at meta timestamp self w = clone meta (Some timestamp) self w"

subsection \<open>Following a foreign key\<close>

text \<open>
  Django's \<^verbatim>\<open>ReverseSingleRelatedObjectDescriptor.__get__\<close>: the row of the related
  model whose primary key is the stored value; without a stored value, \<^verbatim>\<open>None\<close> when
  the field is nullable and an error otherwise.
\<close>

definition related_object ::
  "bool \<Rightarrow> 'b versionable_scheme list \<Rightarrow> uuid option \<Rightarrow> error + 'b versionable_scheme option" where
  "related_object null table val =
     (case val of
        None \<Rightarrow> if null then Inr None else Inl ObjectDoesNotExist
      | Some k \<Rightarrow>
          (case qs_get (\<lambda>v. pk v = k) (get_queryset table) of
             Inl e \<Rightarrow> Inl e
           | Inr rel_obj \<Rightarrow> Inr (Some rel_obj)))"

text \<open>
  \<^verbatim>\<open>VersionedReverseSingleRelatedObjectDescriptor.__get__\<close>, for a foreign key of
  \<open>inst\<close> that holds \<open>val\<close> and points into \<open>table\<close>.
\<close>

definition descriptor_get ::
  "bool \<Rightarrow> 'b versionable_scheme list \<Rightarrow> uuid option \<Rightarrow> 'a versionable_scheme
   \<Rightarrow> error + 'b versionable_scheme option" where
  "descriptor_get null table val inst =
     (case related_object null table val of
        Inl e \<Rightarrow> Inl e
      | Inr None \<Rightarrow> Inr None
      | Inr (Some current_elt) \<Rightarrow>
          (case qs_get (\<lambda>v. identity v = identity current_elt)
                  (qs_as_of (as_of inst) (get_queryset table)) of
             Inl e \<Rightarrow> Inl e
           | Inr v \<Rightarrow> Inr (Some v)))"

subsection \<open>The invariants of a version chain\<close>

text \<open>
  The invariants of the data model that the navigation between versions relies on: keys
  are unique; no version starts before the birth of its object; the versions of one
  identity have the same birth, and the intervals \<open>[start, end)\<close> of two of them have no
  instant in common. The interval of a version may be empty: \<^verbatim>\<open>clone\<close> accepts the start
  of the version as the date of the clone, and the earlier version then ends where it
  starts. \<open>nonempty_interval\<close> says of one version that it is not of that kind.
\<close>

definition interval_overlap :: "'a versionable_scheme \<Rightarrow> 'a versionable_scheme \<Rightarrow> bool" where
  "interval_overlap r r' =
     ((case version_end_date r of
         None \<Rightarrow> True
       | Some e \<Rightarrow> version_start_date r < e \<and> version_start_date r' < e)
      \<and> (case version_end_date r' of
           None \<Rightarrow> True
         | Some e' \<Rightarrow> version_start_date r' < e' \<and> version_start_date r < e'))"

definition chain_wf :: "'a versionable_scheme list \<Rightarrow> bool" where
  "chain_wf table =
     (distinct (map pk table)
      \<and> (\<forall>r \<in> set table. version_birth_date r \<le> version_start_date r)
      \<and> (\<forall>r \<in> set table. \<forall>r' \<in> set table.
            identity r = identity r' \<longrightarrow>
              version_birth_date r = version_birth_date r'
              \<and> (pk r \<noteq> pk r' \<longrightarrow> \<not> interval_overlap r r')))"

definition nonempty_interval :: "'a versionable_scheme \<Rightarrow> bool" where
  "nonempty_interval r =
     (case version_end_date r of None \<Rightarrow> True | Some e \<Rightarrow> version_start_date r < e)"

subsection \<open>The words of the specification\<close>

text \<open>
  The predicate \<^verbatim>\<open>valid_at(v, t)\<close> of the specification: \<^verbatim>\<open>v.version_start <= t AND
  (v.version_end is absent OR v.version_end > t)\<close>.
\<close>

definition spec_valid_at :: "'a versionable_scheme \<Rightarrow> datetime \<Rightarrow> bool" where
  "spec_valid_at v t =
     (version_start_date v \<le> t
      \<and> (version_end_date v = None \<or> (\<exists>e. version_end_date v = Some e \<and> e > t)))"

text \<open>
  A link row from the key \<open>s\<close> to one of the keys \<open>ts\<close>, when \<open>sf\<close> is the column of the
  source and \<open>tf\<close> the column of the target; and a row whose validity was ended at \<open>t\<close>,
  as the table stores it.
\<close>

definition spec_link :: "through_field \<Rightarrow> uuid \<Rightarrow> through_field \<Rightarrow> uuid set \<Rightarrow> 'z link_scheme \<Rightarrow> bool" where
  "spec_link sf s tf ts r = (fk_val sf r = s \<and> fk_val tf r \<in> ts)"

definition spec_closed_at :: "datetime \<Rightarrow> 'a versionable_scheme \<Rightarrow> 'a versionable_scheme" where
  "spec_closed_at t r = r\<lparr>version_end_date := Some t, as_of := None\<rparr>"

text \<open>
  The keys that the instance of a manager is currently linked to: the targets of the
  rows of the intermediary table without an end whose source is the key of the instance.
\<close>

definition spec_current_targets :: "'a VersionedManyRelatedManager \<Rightarrow> 'a world \<Rightarrow> uuid set" where
  "spec_current_targets m w =
     set (map (fk_val (target_field_name m))
            (filter (\<lambda>r. fk_val (source_field_name m) r = pk (manager_instance m)
                          \<and> version_end_date r = None)
               (through_tables w (through m))))"

section \<open>Validity in time\<close>

lemma rows_qs_as_of:
  "rows (qs_as_of qtime (get_queryset table)) = filter (as_of_Q qtime) table"
  by (cases qtime) (simp_all add: qs_as_of_def add_as_of_filter_def filter_qs_def get_queryset_def)

lemma query_time_qs_as_of:
  "query_time (qs_as_of qtime (get_queryset table)) = qtime"
  by (cases qtime) (simp_all add: qs_as_of_def add_as_of_filter_def filter_qs_def get_queryset_def)










section \<open>Deleting and creating\<close>

lemma delete_result:
  "delete v w =
     (if version_end_date v = None
      then (Inr (), v\<lparr>version_end_date := Some (utcnow w (now_calls w))\<rparr>,
            w\<lparr>now_calls := Suc (now_calls w),
              objects := save (v\<lparr>version_end_date := Some (utcnow w (now_calls w))\<rparr>) (objects w)\<rparr>)
      else (Inl Exception, v, w\<lparr>now_calls := Suc (now_calls w)\<rparr>))"
  by (simp add: delete_def delete_at_def get_utc_now_def Let_def)

text \<open>
  Claim C9. \<^verbatim>\<open>delete\<close> on a current version sets its \<^verbatim>\<open>version_end_date\<close> to the
  reading of the clock and saves it; on a version that has an end it raises, and the
  instance, its end and the table stay as they were.
\<close>

theorem delete_current_only:
  "(version_end_date v = None \<longrightarrow>
      (case delete v w of (r, v', w') \<Rightarrow>
         r = Inr () \<and> v' = v\<lparr>version_end_date := Some (utcnow w (now_calls w))\<rparr>
         \<and> objects w' = save v' (objects w)))
   \<and> (version_end_date v \<noteq> None \<longrightarrow>
      (case delete v w of (r, v', w') \<Rightarrow>
         r = Inl Exception \<and> v' = v \<and> version_end_date v' = version_end_date v
         \<and> objects w' = objects w))"
  by (simp add: delete_result)

theorem delete_current_only_witness:
  "(case delete \<lparr>pk = ''a'', identity = ''a'', version_start_date = 10, version_end_date = None,
                  version_birth_date = 10, as_of = None\<rparr>
          \<lparr>utcnow = (\<lambda>n. 100 + int n), now_calls = 0, uuid4 = (\<lambda>n. replicate (Suc n) CHR ''u''),
           uuid_calls = 0,
           objects = [\<lparr>pk = ''a'', identity = ''a'', version_start_date = 10,
                       version_end_date = None, version_birth_date = 10, as_of = None\<rparr>]\<rparr> of
      (r, v', w') \<Rightarrow>
        r = Inr () \<and> version_end_date v' = Some 100
        \<and> objects w' = [\<lparr>pk = ''a'', identity = ''a'', version_start_date = 10,
                          version_end_date = Some 100, version_birth_date = 10, as_of = None\<rparr>])
   \<and> (case delete \<lparr>pk = ''a'', identity = ''a'', version_start_date = 10, version_end_date = Some 50,
                  version_birth_date = 10, as_of = None\<rparr>
          \<lparr>utcnow = (\<lambda>n. 100 + int n), now_calls = 0, uuid4 = (\<lambda>n. replicate (Suc n) CHR ''u''),
           uuid_calls = 0,
           objects = [\<lparr>pk = ''a'', identity = ''a'', version_start_date = 10,
                       version_end_date = Some 50, version_birth_date = 10, as_of = None\<rparr>]\<rparr> of
      (r, v', w') \<Rightarrow>
        r = Inl Exception \<and> version_end_date v' = Some 50
        \<and> objects w' = [\<lparr>pk = ''a'', identity = ''a'', version_start_date = 10,
                          version_end_date = Some 50, version_birth_date = 10, as_of = None\<rparr>])"
  using delete_current_only
    [of "\<lparr>pk = ''a'', identity = ''a'', version_start_date = 10, version_end_date = None,
           version_birth_date = 10, as_of = None\<rparr>"
        "\<lparr>utcnow = (\<lambda>n. 100 + int n), now_calls = 0, uuid4 = (\<lambda>n. replicate (Suc n) CHR ''u''),
           uuid_calls = 0,
           objects = [\<lparr>pk = ''a'', identity = ''a'', version_start_date = 10,
                       version_end_date = None, version_birth_date = 10, as_of = None\<rparr>]\<rparr>"]
    delete_current_only
    [of "\<lparr>pk = ''a'', identity = ''a'', version_start_date = 10, version_end_date = Some 50,
           version_birth_date = 10, as_of = None\<rparr>"
        "\<lparr>utcnow = (\<lambda>n. 100 + int n), now_calls = 0, uuid4 = (\<lambda>n. replicate (Suc n) CHR ''u''),
           uuid_calls = 0,
           objects = [\<lparr>pk = ''a'', identity = ''a'', version_start_date = 10,
                       version_end_date = Some 50, version_birth_date = 10, as_of = None\<rparr>]\<rparr>"]
  by (simp add: save_def split: prod.splits)

lemma create_result:
  "create kwargs w =
     (let obj = \<lparr>pk = uuid4 w (uuid_calls w), identity = uuid4 w (uuid_calls w),
                 version_start_date = utcnow w (now_calls w), version_end_date = None,
                 version_birth_date = utcnow w (now_calls w), as_of = None, \<dots> = kwargs\<rparr>;
          w' = w\<lparr>now_calls := Suc (now_calls w), uuid_calls := Suc (uuid_calls w)\<rparr>
      in if uuid4 w (uuid_calls w) \<in> set (map pk (objects w)) then (Inl IntegrityError, w')
         else (Inr obj, w'\<lparr>objects := objects w @ [obj]\<rparr>))"
  by (simp add: create_def create_at_def uuid4_str_def get_utc_now_def manager_create_def Let_def)

text \<open>
  Claim C10. The version that a successful \<^verbatim>\<open>create\<close> returns has the one value drawn
  from \<^verbatim>\<open>uuid4\<close> both as its key and as its identity, the one reading of the clock both
  as its start and as its birth, and no end.
\<close>

theorem create_one_uuid:
  assumes "create kwargs w = (Inr v, w')"
  shows "pk v = uuid4 w (uuid_calls w) \<and> identity v = uuid4 w (uuid_calls w)
         \<and> pk v = identity v
         \<and> version_start_date v = utcnow w (now_calls w)
         \<and> version_birth_date v = utcnow w (now_calls w)
         \<and> version_end_date v = None
         \<and> objects w' = objects w @ [v]"
  using assms by (auto simp: create_result Let_def split: if_splits)

theorem create_one_uuid_witness:
  "fst (create ()
     \<lparr>utcnow = (\<lambda>n. 100 + int n), now_calls = 0, uuid4 = (\<lambda>n. replicate (Suc n) CHR ''u''),
      uuid_calls = 0, objects = []\<rparr>)
   = Inr \<lparr>pk = ''u'', identity = ''u'', version_start_date = 100, version_end_date = None,
           version_birth_date = 100, as_of = None\<rparr>
   \<and> objects (snd (create ()
     \<lparr>utcnow = (\<lambda>n. 100 + int n), now_calls = 0, uuid4 = (\<lambda>n. replicate (Suc n) CHR ''u''),
      uuid_calls = 0, objects = []\<rparr>))
   = [\<lparr>pk = ''u'', identity = ''u'', version_start_date = 100, version_end_date = None,
           version_birth_date = 100, as_of = None\<rparr>]
   \<and> pk \<lparr>pk = ''u'', identity = ''u'', version_start_date = 100, version_end_date = None,
           version_birth_date = 100, as_of = None\<rparr>
     = identity \<lparr>pk = ''u'', identity = ''u'', version_start_date = 100, version_end_date = None,
           version_birth_date = 100, as_of = None\<rparr>"
proof -
  have c: "create ()
     \<lparr>utcnow = (\<lambda>n. 100 + int n), now_calls = 0, uuid4 = (\<lambda>n. replicate (Suc n) CHR ''u''),
      uuid_calls = 0, objects = []\<rparr>
   = (Inr \<lparr>pk = ''u'', identity = ''u'', version_start_date = 100, version_end_date = None,
           version_birth_date = 100, as_of = None\<rparr>,
      \<lparr>utcnow = (\<lambda>n. 100 + int n), now_calls = 1, uuid4 = (\<lambda>n. replicate (Suc n) CHR ''u''),
      uuid_calls = 1,
      objects = [\<lparr>pk = ''u'', identity = ''u'', version_start_date = 100, version_end_date = None,
           version_birth_date = 100, as_of = None\<rparr>]\<rparr>)"
    by (simp add: create_result Let_def)
  from create_one_uuid[OF c] show ?thesis unfolding c by simp
qed

section \<open>Navigating between versions\<close>

lemma filter_unique:
  assumes "distinct xs" and "x \<in> set xs" and "P x" and "\<forall>y \<in> set xs. P y \<longrightarrow> y = x"
  shows "filter P xs = [x]"
proof -
  obtain ys zs where xs: "xs = ys @ x # zs"
    using assms(2) by (meson split_list)
  have notin: "x \<notin> set ys" "x \<notin> set zs"
    using assms(1) unfolding xs by simp_all
  have "\<not> P y" if "y \<in> set ys" for y
  proof
    assume "P y"
    moreover have "y \<in> set xs" using that unfolding xs by simp
    ultimately have "y = x" using assms(4) by blast
    with that notin(1) show False by simp
  qed
  then have ys: "filter P ys = []" by (simp add: filter_empty_conv)
  have "\<not> P z" if "z \<in> set zs" for z
  proof
    assume "P z"
    moreover have "z \<in> set xs" using that unfolding xs by simp
    ultimately have "z = x" using assms(4) by blast
    with that notin(2) show False by simp
  qed
  then have zs: "filter P zs = []" by (simp add: filter_empty_conv)
  show ?thesis unfolding xs using ys zs assms(3) by simp
qed

lemma distinct_pk_eq:
  "distinct (map pk table) \<Longrightarrow> x \<in> set table \<Longrightarrow> y \<in> set table \<Longrightarrow> pk x = pk y \<Longrightarrow> x = y"
  by (simp add: distinct_map inj_on_def)

lemma qs_get_unique:
  assumes "distinct (map pk table)" and "x \<in> set table" and "P x"
    and "\<forall>y \<in> set table. P y \<longrightarrow> y = x"
  shows "qs_get P (get_queryset table) = Inr (x\<lparr>as_of := None\<rparr>)"
proof -
  have "distinct table" using assms(1) by (simp add: distinct_map)
  then have "filter P table = [x]"
    using assms(2,3,4) by (rule filter_unique)
  then show ?thesis
    by (simp add: qs_get_def fetch_all_def filter_qs_def get_queryset_def set_query_time_def)
qed

lemma qs_get_none:
  "\<forall>y \<in> set table. \<not> P y \<Longrightarrow> qs_get P (get_queryset table) = Inl ObjectDoesNotExist"
  by (simp add: qs_get_def fetch_all_def filter_qs_def get_queryset_def filter_empty_conv[THEN iffD2])

lemma reraise_id:
  "(case x of
      Inl MultipleObjectsReturned \<Rightarrow> Inl MultipleObjectsReturned
    | Inl ObjectDoesNotExist \<Rightarrow> Inl ObjectDoesNotExist
    | Inl e \<Rightarrow> Inl e
    | Inr y \<Rightarrow> Inr y) = x"
proof (cases x)
  case (Inl e)
  then show ?thesis by (cases e) simp_all
next
  case (Inr y)
  then show ?thesis by simp
qed

lemma next_version_qs:
  "version_end_date v = Some E \<Longrightarrow>
   next_version table v =
     qs_get (\<lambda>r. identity r = identity v \<and> Some (version_start_date r) = version_end_date v)
       (get_queryset table)"
  unfolding next_version_def reraise_id by simp

lemma previous_version_qs:
  "version_birth_date v \<noteq> version_start_date v \<Longrightarrow>
   previous_version table v =
     qs_get (\<lambda>r. identity r = identity v \<and> version_end_date r = Some (version_start_date v))
       (get_queryset table)"
  unfolding previous_version_def reraise_id by simp

lemma chain_wf_distinct: "chain_wf table \<Longrightarrow> distinct (map pk table)"
  unfolding chain_wf_def by (elim conjE)

lemma chain_wf_row:
  assumes "chain_wf table" and "r \<in> set table"
  shows "version_birth_date r \<le> version_start_date r"
proof -
  have "\<forall>r \<in> set table. version_birth_date r \<le> version_start_date r"
    using assms(1) unfolding chain_wf_def by (elim conjE)
  then show ?thesis using assms(2) by (rule bspec)
qed

lemma chain_wf_pair:
  assumes "chain_wf table" and "r \<in> set table" and "r' \<in> set table"
    and "identity r = identity r'"
  shows "version_birth_date r = version_birth_date r'"
    and "pk r \<noteq> pk r' \<Longrightarrow> \<not> interval_overlap r r'"
proof -
  have "\<forall>r \<in> set table. \<forall>r' \<in> set table.
            identity r = identity r' \<longrightarrow>
              version_birth_date r = version_birth_date r'
              \<and> (pk r \<noteq> pk r' \<longrightarrow> \<not> interval_overlap r r')"
    using assms(1) unfolding chain_wf_def by (elim conjE)
  then have *: "version_birth_date r = version_birth_date r'
              \<and> (pk r \<noteq> pk r' \<longrightarrow> \<not> interval_overlap r r')"
    using assms(2,3,4) by blast
  from * show "version_birth_date r = version_birth_date r'" by (rule conjunct1)
  assume "pk r \<noteq> pk r'"
  with * show "\<not> interval_overlap r r'" by blast
qed

text \<open>
  Two versions overlap exactly when some instant is in the interval of both, in the
  sense of \<^verbatim>\<open>valid_at\<close>.
\<close>

lemma interval_overlap_valid_at:
  "interval_overlap r r' \<longleftrightarrow> (\<exists>t. spec_valid_at r t \<and> spec_valid_at r' t)"
proof
  assume o: "interval_overlap r r'"
  have "spec_valid_at r (max (version_start_date r) (version_start_date r'))
        \<and> spec_valid_at r' (max (version_start_date r) (version_start_date r'))"
    using o by (cases "version_end_date r"; cases "version_end_date r'")
      (simp_all add: interval_overlap_def spec_valid_at_def)
  then show "\<exists>t. spec_valid_at r t \<and> spec_valid_at r' t" by (rule exI)
next
  assume "\<exists>t. spec_valid_at r t \<and> spec_valid_at r' t"
  then obtain t where "spec_valid_at r t" and "spec_valid_at r' t" by (elim exE conjE)
  then show "interval_overlap r r'"
    by (cases "version_end_date r"; cases "version_end_date r'")
      (simp_all add: interval_overlap_def spec_valid_at_def)
qed

text \<open>
  Claim C3, as amended. Let the table satisfy \<open>chain_wf\<close>, and let no version of the
  identity of \<open>v\<close> have an empty interval. For a version \<open>v\<close> with an end that has a
  successor \<open>n\<close> (a version of the same identity that starts where \<open>v\<close> ends),
  \<^verbatim>\<open>next_version\<close> gives \<open>n\<close> and \<^verbatim>\<open>previous_version\<close> of that gives \<open>v\<close> back, as the rows
  of the table. \<^verbatim>\<open>next_version\<close> returns a version without an end unchanged, and
  \<^verbatim>\<open>previous_version\<close> returns a version that starts at its birth unchanged. The claim as stated takes every version with an end: the last version of a
  deleted object has an end and no successor, and \<^verbatim>\<open>next_version\<close> raises
  \<^verbatim>\<open>ObjectDoesNotExist\<close> on it.
\<close>

theorem version_navigation:
  assumes wf: "chain_wf table"
    and ne: "\<forall>r \<in> set table. identity r = identity v \<longrightarrow> nonempty_interval r"
    and v: "v \<in> set table" "version_end_date v = Some E"
    and n: "n \<in> set table" "identity n = identity v" "version_start_date n = E"
  shows "next_version table v = Inr (n\<lparr>as_of := None\<rparr>)
         \<and> previous_version table (n\<lparr>as_of := None\<rparr>) = Inr (v\<lparr>as_of := None\<rparr>)
         \<and> (version_end_date u = None \<longrightarrow> next_version table u = Inr u)
         \<and> (version_birth_date u = version_start_date u \<longrightarrow> previous_version table u = Inr u)"
proof (intro conjI impI)
  have dist: "distinct (map pk table)" using wf by (rule chain_wf_distinct)
  note birth_le = chain_wf_row[OF wf]
  note same_birth = chain_wf_pair(1)[OF wf]
  note no_overlap = chain_wf_pair(2)[OF wf]
  have nonempty: "nonempty_interval r" if "r \<in> set table" and "identity r = identity v" for r
  proof -
    from ne that(1) have "identity r = identity v \<longrightarrow> nonempty_interval r" by (rule bspec)
    then show ?thesis using that(2) by (rule mp)
  qed
  have vE: "version_start_date v < E"
    using nonempty[OF v(1) refl] v(2) by (simp add: nonempty_interval_def)
  have n_nonempty: "nonempty_interval n" by (rule nonempty[OF n(1) n(2)])
  have next_unique: "y = n"
    if y: "y \<in> set table" "identity y = identity v" "version_start_date y = E" for y
  proof (rule ccontr)
    assume "y \<noteq> n"
    then have "pk y \<noteq> pk n" using distinct_pk_eq[OF dist y(1) n(1)] by blast
    moreover have "identity y = identity n" using y(2) n(2) by simp
    ultimately have "\<not> interval_overlap y n" by (rule no_overlap[OF y(1) n(1), rotated])
    moreover have "nonempty_interval y" by (rule nonempty[OF y(1) y(2)])
    then have "interval_overlap y n"
      using n_nonempty y(3) n(3)
      by (simp add: interval_overlap_def nonempty_interval_def split: option.splits)
    ultimately show False by simp
  qed
  have "filter (\<lambda>r. identity r = identity v \<and> Some (version_start_date r) = version_end_date v)
          table = [n]"
  proof (rule filter_unique)
    show "distinct table" using dist by (simp add: distinct_map)
    show "n \<in> set table" by (rule n(1))
    show "identity n = identity v \<and> Some (version_start_date n) = version_end_date v"
      using n v by simp
    show "\<forall>y\<in>set table.
       identity y = identity v \<and> Some (version_start_date y) = version_end_date v \<longrightarrow> y = n"
      using next_unique v(2) by simp
  qed
  then show "next_version table v = Inr (n\<lparr>as_of := None\<rparr>)"
    unfolding next_version_qs[OF v(2)]
    by (simp add: qs_get_def fetch_all_def filter_qs_def get_queryset_def set_query_time_def)
  have prev_unique: "y = v"
    if y: "y \<in> set table" "identity y = identity v" "version_end_date y = Some E" for y
  proof (rule ccontr)
    assume "y \<noteq> v"
    then have "pk y \<noteq> pk v" using distinct_pk_eq[OF dist y(1) v(1)] by blast
    then have "\<not> interval_overlap y v" by (rule no_overlap[OF y(1) v(1) y(2)])
    moreover have "version_start_date y < E"
      using nonempty[OF y(1) y(2)] y(3) by (simp add: nonempty_interval_def)
    then have "interval_overlap y v"
      using vE y(3) v(2) by (simp add: interval_overlap_def)
    ultimately show False by simp
  qed
  have "version_birth_date n = version_birth_date v"
    by (rule same_birth[OF n(1) v(1) n(2)])
  then have "version_birth_date n < version_start_date n"
    using birth_le[OF v(1)] vE n(3) by simp
  then have nb: "version_birth_date (n\<lparr>as_of := None\<rparr>) \<noteq> version_start_date (n\<lparr>as_of := None\<rparr>)"
    by simp
  have "filter (\<lambda>r. identity r = identity n \<and> version_end_date r = Some (version_start_date n))
          table = [v]"
  proof (rule filter_unique)
    show "distinct table" using dist by (simp add: distinct_map)
    show "v \<in> set table" by (rule v(1))
    show "identity v = identity n \<and> version_end_date v = Some (version_start_date n)"
      using n v by simp
    show "\<forall>y\<in>set table.
       identity y = identity n \<and> version_end_date y = Some (version_start_date n) \<longrightarrow> y = v"
      using prev_unique n(2,3) by simp
  qed
  then show "previous_version table (n\<lparr>as_of := None\<rparr>) = Inr (v\<lparr>as_of := None\<rparr>)"
    unfolding previous_version_qs[OF nb]
    by (simp add: qs_get_def fetch_all_def filter_qs_def get_queryset_def set_query_time_def)
next
  assume "version_end_date u = None"
  then show "next_version table u = Inr u" by (simp add: next_version_def)
next
  assume "version_birth_date u = version_start_date u"
  then show "previous_version table u = Inr u" by (simp add: previous_version_def)
qed

theorem version_navigation_counterexample:
  "chain_wf [\<lparr>pk = ''a'', identity = ''a'', version_start_date = 10, version_end_date = Some 20,
              version_birth_date = 10, as_of = None\<rparr>]
   \<and> version_end_date \<lparr>pk = ''a'', identity = ''a'', version_start_date = 10,
        version_end_date = Some 20, version_birth_date = 10, as_of = None\<rparr> = Some 20
   \<and> next_version
       [\<lparr>pk = ''a'', identity = ''a'', version_start_date = 10, version_end_date = Some 20,
         version_birth_date = 10, as_of = None\<rparr>]
       \<lparr>pk = ''a'', identity = ''a'', version_start_date = 10, version_end_date = Some 20,
        version_birth_date = 10, as_of = None\<rparr>
     = Inl ObjectDoesNotExist"
  by (simp add: chain_wf_def interval_overlap_def next_version_def qs_get_def fetch_all_def
      filter_qs_def get_queryset_def)

theorem version_navigation_witness:
  "next_version
     [\<lparr>pk = ''u'', identity = ''a'', version_start_date = 10, version_end_date = Some 20,
       version_birth_date = 10, as_of = None\<rparr>,
      \<lparr>pk = ''a'', identity = ''a'', version_start_date = 20, version_end_date = None,
       version_birth_date = 10, as_of = None\<rparr>]
     \<lparr>pk = ''u'', identity = ''a'', version_start_date = 10, version_end_date = Some 20,
      version_birth_date = 10, as_of = None\<rparr>
   = Inr \<lparr>pk = ''a'', identity = ''a'', version_start_date = 20, version_end_date = None,
          version_birth_date = 10, as_of = None\<rparr>
   \<and> previous_version
     [\<lparr>pk = ''u'', identity = ''a'', version_start_date = 10, version_end_date = Some 20,
       version_birth_date = 10, as_of = None\<rparr>,
      \<lparr>pk = ''a'', identity = ''a'', version_start_date = 20, version_end_date = None,
       version_birth_date = 10, as_of = None\<rparr>]
     \<lparr>pk = ''a'', identity = ''a'', version_start_date = 20, version_end_date = None,
      version_birth_date = 10, as_of = None\<rparr>
   = Inr \<lparr>pk = ''u'', identity = ''a'', version_start_date = 10, version_end_date = Some 20,
          version_birth_date = 10, as_of = None\<rparr>"
proof -
  have wf: "chain_wf
     [\<lparr>pk = ''u'', identity = ''a'', version_start_date = 10, version_end_date = Some 20,
       version_birth_date = 10, as_of = None\<rparr>,
      \<lparr>pk = ''a'', identity = ''a'', version_start_date = 20, version_end_date = None,
       version_birth_date = 10, as_of = None\<rparr>]"
    by (simp add: chain_wf_def interval_overlap_def)
  have ne: "\<forall>r \<in> set
     [\<lparr>pk = ''u'', identity = ''a'', version_start_date = 10, version_end_date = Some 20,
       version_birth_date = 10, as_of = None\<rparr>,
      \<lparr>pk = ''a'', identity = ''a'', version_start_date = 20, version_end_date = None,
       version_birth_date = 10, as_of = None\<rparr>].
     identity r = identity \<lparr>pk = ''u'', identity = ''a'', version_start_date = 10,
          version_end_date = Some 20, version_birth_date = 10, as_of = None\<rparr>
     \<longrightarrow> nonempty_interval r"
    by (simp add: nonempty_interval_def)
  show ?thesis
    using version_navigation[OF wf ne, where E=20
        and n="\<lparr>pk = ''a'', identity = ''a'', version_start_date = 20, version_end_date = None,
          version_birth_date = 10, as_of = None\<rparr>"]
    by simp
qed

section \<open>Following a foreign key in time\<close>

lemma qs_get_as_of_unique:
  assumes "distinct (map pk table)" and "x \<in> set table" and "P x \<and> as_of_Q t x"
    and "\<forall>y \<in> set table. P y \<and> as_of_Q t y \<longrightarrow> y = x"
  shows "qs_get P (qs_as_of t (get_queryset table)) = Inr (x\<lparr>as_of := t\<rparr>)"
proof -
  have "distinct table" using assms(1) by (simp add: distinct_map)
  then have "filter (\<lambda>r. P r \<and> as_of_Q t r) table = [x]"
    using assms(2,3,4) by (rule filter_unique)
  then have "filter P (filter (as_of_Q t) table) = [x]"
    by (simp add: conj_commute)
  then have "filter P (rows (qs_as_of t (get_queryset table))) = [x]"
    by (simp add: rows_qs_as_of)
  then show ?thesis
    by (simp add: qs_get_def fetch_all_def filter_qs_def set_query_time_def query_time_qs_as_of)
qed

text \<open>
  Claim C7. Reading a foreign key of an instance observed at \<open>as_of inst\<close> that stores the
  key \<open>k\<close> gives, of the identity of the row with key \<open>k\<close>, the one version that is valid at
  \<open>as_of inst\<close> (current, when the instance has no time), tagged with that time, whatever its
  own key is. Reading a nullable foreign key that stores nothing gives \<^verbatim>\<open>None\<close>.
\<close>

theorem descriptor_get_by_identity_and_time:
  assumes dist: "distinct (map pk table)"
    and cur: "current_elt \<in> set table" "pk current_elt = k"
    and v: "v \<in> set table" "identity v = identity current_elt" "as_of_Q (as_of inst) v"
    and uniq: "\<forall>r \<in> set table. identity r = identity current_elt \<and> as_of_Q (as_of inst) r \<longrightarrow> r = v"
  shows "descriptor_get null table (Some k) inst = Inr (Some (v\<lparr>as_of := as_of inst\<rparr>))
         \<and> descriptor_get True table None inst = Inr None"
proof
  have "\<forall>y \<in> set table. pk y = k \<longrightarrow> y = current_elt"
  proof (intro ballI impI)
    fix y assume "y \<in> set table" "pk y = k"
    then show "y = current_elt"
      using distinct_pk_eq[OF dist _ cur(1), of y] cur(2) by simp
  qed
  with cur have "qs_get (\<lambda>r. pk r = k) (get_queryset table) = Inr (current_elt\<lparr>as_of := None\<rparr>)"
    by (rule qs_get_unique[OF dist])
  then have rel: "related_object null table (Some k) = Inr (Some (current_elt\<lparr>as_of := None\<rparr>))"
    by (simp add: related_object_def)
  have "identity v = identity current_elt \<and> as_of_Q (as_of inst) v"
    using v(2,3) by simp
  with v(1) have "qs_get (\<lambda>r. identity r = identity current_elt)
          (qs_as_of (as_of inst) (get_queryset table))
        = Inr (v\<lparr>as_of := as_of inst\<rparr>)"
    using uniq by (rule qs_get_as_of_unique[OF dist])
  then show "descriptor_get null table (Some k) inst = Inr (Some (v\<lparr>as_of := as_of inst\<rparr>))"
    by (simp add: descriptor_get_def rel)
  show "descriptor_get True table None inst = Inr None"
    by (simp add: descriptor_get_def related_object_def)
qed

theorem descriptor_get_by_identity_and_time_witness:
  "descriptor_get False
     [\<lparr>pk = ''u'', identity = ''a'', version_start_date = 10, version_end_date = Some 20,
       version_birth_date = 10, as_of = None\<rparr>,
      \<lparr>pk = ''a'', identity = ''a'', version_start_date = 20, version_end_date = None,
       version_birth_date = 10, as_of = None\<rparr>]
     (Some ''a'')
     \<lparr>pk = ''c'', identity = ''c'', version_start_date = 12, version_end_date = None,
      version_birth_date = 12, as_of = Some 15\<rparr>
   = Inr (Some \<lparr>pk = ''u'', identity = ''a'', version_start_date = 10, version_end_date = Some 20,
                version_birth_date = 10, as_of = Some 15\<rparr>)"
proof -
  have q: "as_of_Q (Some 15)
      \<lparr>pk = ''u'', identity = ''a'', version_start_date = 10, version_end_date = Some 20,
       version_birth_date = 10, as_of = None\<rparr>"
    by (simp add: as_of_Q_def version_end_date_gt_def)
  have nq: "\<not> as_of_Q (Some 15)
      \<lparr>pk = ''a'', identity = ''a'', version_start_date = 20, version_end_date = None,
       version_birth_date = 10, as_of = None\<rparr>"
    by (simp add: as_of_Q_def version_end_date_gt_def)
  show ?thesis
    using descriptor_get_by_identity_and_time
      [of "[\<lparr>pk = ''u'', identity = ''a'', version_start_date = 10, version_end_date = Some 20,
             version_birth_date = 10, as_of = None\<rparr>,
            \<lparr>pk = ''a'', identity = ''a'', version_start_date = 20, version_end_date = None,
             version_birth_date = 10, as_of = None\<rparr>]"
          "\<lparr>pk = ''a'', identity = ''a'', version_start_date = 20, version_end_date = None,
             version_birth_date = 10, as_of = None\<rparr>"
          "''a''"
          "\<lparr>pk = ''u'', identity = ''a'', version_start_date = 10, version_end_date = Some 20,
             version_birth_date = 10, as_of = None\<rparr>"
          "\<lparr>pk = ''c'', identity = ''c'', version_start_date = 12, version_end_date = None,
            version_birth_date = 12, as_of = Some 15\<rparr>" False]
      q nq
    by simp
qed

section \<open>Cloning\<close>



lemma clone_date_sound:
  assumes "clone_date at v w = (Inr d, w')"
  shows "pk v \<noteq> [] \<and> version_end_date v = None
         \<and> d = (case at of Some t \<Rightarrow> t | None \<Rightarrow> utcnow w (now_calls w))
         \<and> (case at of Some t \<Rightarrow> version_start_date v \<le> t \<and> t \<le> utcnow w (now_calls w)
             | None \<Rightarrow> True)
         \<and> w' = w\<lparr>now_calls := Suc (now_calls w)\<rparr>"
  using assms
  by (cases at) (auto simp: clone_date_def get_utc_now_def split: if_splits)

lemma clone_versions_result:
  "clone_versions d v table w =
     ((v\<lparr>pk := uuid4 w (uuid_calls w), version_end_date := Some d\<rparr>,
       v\<lparr>version_end_date := None, version_start_date := d\<rparr>,
       save (v\<lparr>version_end_date := None, version_start_date := d\<rparr>)
         (save (v\<lparr>pk := uuid4 w (uuid_calls w), version_end_date := Some d\<rparr>) table)),
      w\<lparr>uuid_calls := Suc (uuid_calls w)\<rparr>)"
  by (simp add: clone_versions_def uuid4_str_def Let_def)


subsection \<open>The relations leave the table of the instance alone\<close>

lemma objects_set_through: "objects (set_through name table w) = objects w"
  by (simp add: set_through_def)

lemma through_init_env:
  "snd (through_init i sf sid tf tid w)
     = w\<lparr>uuid_calls := Suc (uuid_calls w), now_calls := Suc (now_calls w)\<rparr>"
  by (simp add: through_init_def uuid4_str_def get_utc_now_def Let_def)

lemma through_objs_objects:
  fixes w :: "('a, 'z) db_scheme"
  shows "objects (snd (through_objs i sf sid tf ids w)) = objects w"
proof (induction ids arbitrary: w)
  case Nil
  show ?case by simp
next
  case (Cons k ids)
  obtain obj w1 where t: "through_init i sf sid tf k w = (obj, w1)" by (cases "through_init i sf sid tf k w")
  then have "w1 = snd (through_init i sf sid tf k w)" by simp
  then have w1: "objects w1 = objects w" by (simp add: through_init_env)
  obtain objs w2 where r: "through_objs i sf sid tf ids w1 = (objs, w2)"
    by (cases "through_objs i sf sid tf ids w1")
  then have "objects w2 = objects w1" using Cons.IH[of w1] by simp
  with w1 t r show ?case by simp
qed

lemma add_items_objects:
  "objects (snd (add_items i sf tf objs m w)) = objects w"
proof (cases "objs = []")
  case True
  then show ?thesis by (simp add: add_items_def)
next
  case False
  let ?ids = "filter (\<lambda>k. k \<notin> set (map (fk_val tf)
                      (rows (filter_qs (\<lambda>r. fk_val sf r = pk (manager_instance m)
                                           \<and> fk_val tf r \<in> set (remdups (map obj_pk objs)))
                               (values_list (get_queryset (through_tables w (through m))))))))
                (remdups (map obj_pk objs))"
  obtain new_objs w1 where t: "through_objs i sf (pk (manager_instance m)) tf ?ids w = (new_objs, w1)"
    by (cases "through_objs i sf (pk (manager_instance m)) tf ?ids w")
  then have "objects w1 = objects w"
    using through_objs_objects[of i sf "pk (manager_instance m)" tf ?ids w] by simp
  with False t show ?thesis
    by (simp add: add_items_def Let_def objects_set_through)
qed

lemma add_objects: "objects (snd (add i objs m w)) = objects w"
proof (cases "is_current (manager_instance m)")
  case False
  then show ?thesis by (simp add: add_def)
next
  case True
  obtain r w1 where a: "add_items i (source_field_name m) (target_field_name m) objs m w = (r, w1)"
    by (cases "add_items i (source_field_name m) (target_field_name m) objs m w")
  then have w1: "objects w1 = objects w"
    using add_items_objects[of i "source_field_name m" "target_field_name m" objs m w] by simp
  have "objects (snd (add_items i (target_field_name m) (source_field_name m) objs m w1)) = objects w"
    using add_items_objects[of i "target_field_name m" "source_field_name m" objs m w1] w1 by simp
  with True a w1 show ?thesis
    by (cases r) (simp_all add: add_def)
qed

lemma add_each_objects: "objects (snd (add_each items d w)) = objects w"
proof (induction items arbitrary: w)
  case Nil
  show ?case by simp
next
  case (Cons item items)
  obtain r w1 where a: "add None [Instance item] d w = (r, w1)"
    by (cases "add None [Instance item] d w")
  then have w1: "objects w1 = objects w"
    using add_objects[of None "[Instance item]" d w] by simp
  show ?case
  proof (cases r)
    case (Inl e)
    with a w1 show ?thesis by simp
  next
    case (Inr u)
    with a w1 Cons.IH[of w1] show ?thesis by simp
  qed
qed

lemma clone_date_objects:
  fixes w :: "('a, 'z) db_scheme"
  shows "objects (snd (clone_date at v w)) = objects w"
  by (cases at) (simp_all add: clone_date_def get_utc_now_def)

lemma link_clone_objects: "objects (snd (snd (link_clone name at rel w))) = objects w"
proof -
  obtain r w1 where c: "clone_date at rel w = (r, w1)" by (cases "clone_date at rel w")
  then have w1: "objects w1 = objects w" using clone_date_objects[of at rel w] by simp
  show ?thesis
  proof (cases r)
    case (Inl e)
    with c w1 show ?thesis by (simp add: link_clone_def)
  next
    case (Inr d)
    with c w1 show ?thesis
      by (simp add: link_clone_def clone_versions_result objects_set_through)
  qed
qed

lemma clone_rels_objects: "objects (snd (clone_rels self source rels w)) = objects w"
proof (induction rels arbitrary: w)
  case Nil
  show ?case by simp
next
  case (Cons rel rels)
  obtain r rel' w1 where c:
    "(if is_current rel then link_clone (through source) (version_end_date self) rel w
      else (Inr rel, rel, w)) = (r, rel', w1)"
    by (cases "if is_current rel then link_clone (through source) (version_end_date self) rel w
      else (Inr rel, rel, w)") auto
  have w1: "objects w1 = objects w"
  proof (cases "is_current rel")
    case True
    with c have "w1 = snd (snd (link_clone (through source) (version_end_date self) rel w))" by simp
    then show ?thesis by (simp add: link_clone_objects)
  next
    case False
    with c show ?thesis by simp
  qed
  show ?case
  proof (cases r)
    case (Inl e)
    with c w1 show ?thesis by simp
  next
    case (Inr u)
    with c w1 show ?thesis
      by (simp add: Let_def Cons.IH objects_set_through)
  qed
qed

lemma clone_relations_objects:
  "objects (snd (clone_relations self clone' field w)) = objects w"
proof -
  let ?src = "related_manager field self"
  let ?dst = "related_manager field clone'"
  obtain r w1 where a: "add_each (manager_all ?src w) ?dst w = (r, w1)"
    by (cases "add_each (manager_all ?src w) ?dst w")
  then have w1: "objects w1 = objects w"
    using add_each_objects[of "manager_all ?src w" ?dst w] by simp
  show ?thesis
  proof (cases r)
    case (Inl e)
    with a w1 show ?thesis by (simp add: clone_relations_def Let_def)
  next
    case (Inr u)
    with a w1 show ?thesis by (simp add: clone_relations_def Let_def clone_rels_objects)
  qed
qed

lemma clone_all_relations_objects:
  "objects (snd (clone_all_relations earlier later fs w)) = objects w"
proof (induction fs arbitrary: w)
  case Nil
  show ?case by simp
next
  case (Cons f fs)
  obtain r w1 where c: "clone_relations earlier later f w = (r, w1)"
    by (cases "clone_relations earlier later f w")
  then have w1: "objects w1 = objects w"
    using clone_relations_objects[of earlier later f w] by simp
  show ?case
  proof (cases r)
    case (Inl e)
    with c w1 show ?thesis by simp
  next
    case (Inr u)
    with c w1 Cons.IH[of w1] show ?thesis by simp
  qed
qed


lemma save_mem: "self\<lparr>as_of := None\<rparr> \<in> set (save self table)"
  by (auto simp: save_def Let_def)

lemma save_keeps: "r \<in> set table \<Longrightarrow> pk r \<noteq> pk self \<Longrightarrow> r \<in> set (save self table)"
  by (auto simp: save_def Let_def)

lemma clone_unfold_ok:
  assumes d: "clone_date at v w = (Inr d, w1)"
  shows "clone meta at v w =
    (case clone_all_relations
            (v\<lparr>pk := uuid4 w1 (uuid_calls w1), version_end_date := Some d\<rparr>)
            (v\<lparr>version_end_date := None, version_start_date := d\<rparr>)
            (many_to_many meta
             @ (case many_to_many_related meta of None \<Rightarrow> [] | Some rels \<Rightarrow> rels))
            (w1\<lparr>uuid_calls := Suc (uuid_calls w1),
                objects := save (v\<lparr>version_end_date := None, version_start_date := d\<rparr>)
                  (save (v\<lparr>pk := uuid4 w1 (uuid_calls w1), version_end_date := Some d\<rparr>)
                     (objects w1))\<rparr>) of
       (Inl e, w3) \<Rightarrow>
         (Inl e, v\<lparr>pk := uuid4 w1 (uuid_calls w1), version_end_date := Some d\<rparr>, w3)
     | (Inr u, w3) \<Rightarrow>
         (Inr (v\<lparr>version_end_date := None, version_start_date := d\<rparr>),
          v\<lparr>pk := uuid4 w1 (uuid_calls w1), version_end_date := Some d\<rparr>,
          w3\<lparr>objects := save (v\<lparr>version_end_date := None, version_start_date := d\<rparr>)
                            (objects w3)\<rparr>))"
  by (simp add: clone_def d clone_versions_result)

text \<open>
  Claim C1. When \<^verbatim>\<open>clone\<close> returns, the instance it was called on (the earlier version) has
  the value drawn from \<^verbatim>\<open>uuid4\<close> as its key and the date of the clone as its end; the
  version returned (the later one) has the old key, starts at the date of the clone and
  has no end; both have the identity of the original and differ from it in nothing else.
  The date of the clone is \<open>at\<close>, or the reading of the clock when none is given. The later
  version is a row of the table, and so is the earlier one when the new key differs from
  the old one.
\<close>

theorem clone_exchanges_keys:
  assumes c: "clone meta at v w = (Inr later, earlier, w')"
  shows "earlier = v\<lparr>pk := uuid4 w (uuid_calls w),
                      version_end_date := Some (case at of Some t \<Rightarrow> t | None \<Rightarrow> utcnow w (now_calls w))\<rparr>
         \<and> later = v\<lparr>version_end_date := None,
                      version_start_date := (case at of Some t \<Rightarrow> t | None \<Rightarrow> utcnow w (now_calls w))\<rparr>
         \<and> pk earlier = uuid4 w (uuid_calls w)
         \<and> version_end_date earlier = Some (case at of Some t \<Rightarrow> t | None \<Rightarrow> utcnow w (now_calls w))
         \<and> pk later = pk v
         \<and> version_start_date later = (case at of Some t \<Rightarrow> t | None \<Rightarrow> utcnow w (now_calls w))
         \<and> version_end_date later = None
         \<and> identity earlier = identity v \<and> identity later = identity v
         \<and> later\<lparr>as_of := None\<rparr> \<in> set (objects w')
         \<and> (uuid4 w (uuid_calls w) \<noteq> pk v \<longrightarrow> earlier\<lparr>as_of := None\<rparr> \<in> set (objects w'))"
proof -
  let ?d = "case at of Some t \<Rightarrow> t | None \<Rightarrow> utcnow w (now_calls w)"
  let ?new = "uuid4 w (uuid_calls w)"
  let ?e = "v\<lparr>pk := ?new, version_end_date := Some ?d\<rparr>"
  let ?l = "v\<lparr>version_end_date := None, version_start_date := ?d\<rparr>"
  let ?fs = "many_to_many meta
             @ (case many_to_many_related meta of None \<Rightarrow> [] | Some rels \<Rightarrow> rels)"
  obtain r1 w1 where cd: "clone_date at v w = (r1, w1)" by (cases "clone_date at v w")
  have "\<exists>d. r1 = Inr d"
  proof (cases r1)
    case (Inl e)
    with cd c show ?thesis by (simp add: clone_def)
  next
    case (Inr d)
    then show ?thesis by simp
  qed
  then obtain d where r1: "r1 = Inr d" ..
  from clone_date_sound[OF cd[unfolded r1]]
  have d: "d = ?d" and w1: "w1 = w\<lparr>now_calls := Suc (now_calls w)\<rparr>" by simp_all
  have new: "uuid4 w1 (uuid_calls w1) = ?new" and ob: "objects w1 = objects w"
    by (simp_all add: w1)
  let ?w2 = "w1\<lparr>uuid_calls := Suc (uuid_calls w1), objects := save ?l (save ?e (objects w))\<rparr>"
  obtain r3 w3 where cr: "clone_all_relations ?e ?l ?fs ?w2 = (r3, w3)"
    by (cases "clone_all_relations ?e ?l ?fs ?w2")
  have cd': "clone_date at v w = (Inr ?d, w1)" using cd r1 d by simp
  note unfold = clone_unfold_ok[OF cd', of meta, unfolded new ob cr]
  have res: "later = ?l \<and> earlier = ?e \<and> w' = w3\<lparr>objects := save ?l (objects w3)\<rparr>"
  proof (cases r3)
    case (Inl e)
    with unfold c show ?thesis by simp
  next
    case (Inr u)
    with unfold c show ?thesis by simp
  qed
  have "objects w3 = objects ?w2"
    using clone_all_relations_objects[of ?e ?l ?fs ?w2] cr by simp
  then have ob3: "objects w3 = save ?l (save ?e (objects w))" by simp
  have ob': "objects w' = save ?l (save ?l (save ?e (objects w)))"
    using res ob3 by simp
  have l_in: "later\<lparr>as_of := None\<rparr> \<in> set (objects w')"
    unfolding ob' using res save_mem[of ?l] by simp
  have e_in: "earlier\<lparr>as_of := None\<rparr> \<in> set (objects w')" if ne: "?new \<noteq> pk v"
  proof -
    have pe: "pk (?e\<lparr>as_of := None\<rparr>) \<noteq> pk ?l" using ne by simp
    have "?e\<lparr>as_of := None\<rparr> \<in> set (save ?e (objects w))" by (rule save_mem)
    then have "?e\<lparr>as_of := None\<rparr> \<in> set (save ?l (save ?e (objects w)))"
      using pe by (rule save_keeps)
    then have "?e\<lparr>as_of := None\<rparr> \<in> set (save ?l (save ?l (save ?e (objects w))))"
      using pe by (rule save_keeps)
    then show ?thesis unfolding ob' using res by simp
  qed
  from res have fields:
    "pk earlier = ?new" "version_end_date earlier = Some ?d" "pk later = pk v"
    "version_start_date later = ?d" "version_end_date later = None"
    "identity earlier = identity v" "identity later = identity v"
    by simp_all
  from res fields l_in e_in show ?thesis by simp
qed


lemmas eval_defs = clone_def clone_date_def get_utc_now_def clone_versions_def uuid4_str_def save_def
  clone_relations_def related_manager_def manager_all_def qs_as_of_def add_as_of_filter_def
  filter_qs_def get_queryset_def fetch_all_def set_query_time_def as_of_Q_def version_end_date_gt_def
  link_clone_def set_through_def set_fk_def fk_val_def is_current_def Let_def

theorem clone_exchanges_keys_witness:
  "fst (clone \<lparr>many_to_many = [\<lparr>through = ''t'', source_field_name = from_field, target_field_name = to_field,
       symmetrical = False, rel_to = Some ''B''\<rparr>], many_to_many_related = None\<rparr> None
         \<lparr>pk = ''a'', identity = ''a'', version_start_date = 10, version_end_date = None,
       version_birth_date = 10, as_of = None\<rparr>
         \<lparr>utcnow = (\<lambda>n. 100 + int n), now_calls = 0,
       uuid4 = (\<lambda>n. replicate (Suc n) CHR ''u''), uuid_calls = 0,
       objects = [\<lparr>pk = ''a'', identity = ''a'', version_start_date = 10, version_end_date = None,
       version_birth_date = 10, as_of = None\<rparr>],
       through_tables = (\<lambda>_. [\<lparr>pk = ''l'', identity = ''l'', version_start_date = 20, version_end_date = None,
       version_birth_date = 20, as_of = None, from_id = ''a'', to_id = ''b''\<rparr>]),
       related = (\<lambda>_. [])\<rparr>)
     = Inr \<lparr>pk = ''a'', identity = ''a'', version_start_date = 100, version_end_date = None,
       version_birth_date = 10, as_of = None\<rparr>
   \<and> fst (snd (clone \<lparr>many_to_many = [\<lparr>through = ''t'', source_field_name = from_field, target_field_name = to_field,
       symmetrical = False, rel_to = Some ''B''\<rparr>], many_to_many_related = None\<rparr> None
         \<lparr>pk = ''a'', identity = ''a'', version_start_date = 10, version_end_date = None,
       version_birth_date = 10, as_of = None\<rparr>
         \<lparr>utcnow = (\<lambda>n. 100 + int n), now_calls = 0,
       uuid4 = (\<lambda>n. replicate (Suc n) CHR ''u''), uuid_calls = 0,
       objects = [\<lparr>pk = ''a'', identity = ''a'', version_start_date = 10, version_end_date = None,
       version_birth_date = 10, as_of = None\<rparr>],
       through_tables = (\<lambda>_. [\<lparr>pk = ''l'', identity = ''l'', version_start_date = 20, version_end_date = None,
       version_birth_date = 20, as_of = None, from_id = ''a'', to_id = ''b''\<rparr>]),
       related = (\<lambda>_. [])\<rparr>))
     = \<lparr>pk = ''u'', identity = ''a'', version_start_date = 10, version_end_date = Some 100,
       version_birth_date = 10, as_of = None\<rparr>
   \<and> \<lparr>pk = ''u'', identity = ''a'', version_start_date = 10, version_end_date = Some 100,
       version_birth_date = 10, as_of = None\<rparr>
     \<in> set (objects (snd (snd (clone \<lparr>many_to_many = [\<lparr>through = ''t'', source_field_name = from_field, target_field_name = to_field,
       symmetrical = False, rel_to = Some ''B''\<rparr>], many_to_many_related = None\<rparr> None
         \<lparr>pk = ''a'', identity = ''a'', version_start_date = 10, version_end_date = None,
       version_birth_date = 10, as_of = None\<rparr>
         \<lparr>utcnow = (\<lambda>n. 100 + int n), now_calls = 0,
       uuid4 = (\<lambda>n. replicate (Suc n) CHR ''u''), uuid_calls = 0,
       objects = [\<lparr>pk = ''a'', identity = ''a'', version_start_date = 10, version_end_date = None,
       version_birth_date = 10, as_of = None\<rparr>],
       through_tables = (\<lambda>_. [\<lparr>pk = ''l'', identity = ''l'', version_start_date = 20, version_end_date = None,
       version_birth_date = 20, as_of = None, from_id = ''a'', to_id = ''b''\<rparr>]),
       related = (\<lambda>_. [])\<rparr>))))"
proof -
  let ?c = "clone \<lparr>many_to_many = [\<lparr>through = ''t'', source_field_name = from_field, target_field_name = to_field,
       symmetrical = False, rel_to = Some ''B''\<rparr>], many_to_many_related = None\<rparr> None
         \<lparr>pk = ''a'', identity = ''a'', version_start_date = 10, version_end_date = None,
       version_birth_date = 10, as_of = None\<rparr>
         \<lparr>utcnow = (\<lambda>n. 100 + int n), now_calls = 0,
       uuid4 = (\<lambda>n. replicate (Suc n) CHR ''u''), uuid_calls = 0,
       objects = [\<lparr>pk = ''a'', identity = ''a'', version_start_date = 10, version_end_date = None,
       version_birth_date = 10, as_of = None\<rparr>],
       through_tables = (\<lambda>_. [\<lparr>pk = ''l'', identity = ''l'', version_start_date = 20, version_end_date = None,
       version_birth_date = 20, as_of = None, from_id = ''a'', to_id = ''b''\<rparr>]),
       related = (\<lambda>_. [])\<rparr>"
  have 1: "fst ?c = Inr \<lparr>pk = ''a'', identity = ''a'', version_start_date = 100, version_end_date = None,
       version_birth_date = 10, as_of = None\<rparr>"
    by (simp add: eval_defs)
  have 2: "fst (snd ?c) = \<lparr>pk = ''u'', identity = ''a'', version_start_date = 10, version_end_date = Some 100,
       version_birth_date = 10, as_of = None\<rparr>"
    by (simp add: eval_defs)
  have "?c = (fst ?c, fst (snd ?c), snd (snd ?c))" by simp
  then have c: "?c = (Inr \<lparr>pk = ''a'', identity = ''a'', version_start_date = 100, version_end_date = None,
       version_birth_date = 10, as_of = None\<rparr>,
      \<lparr>pk = ''u'', identity = ''a'', version_start_date = 10, version_end_date = Some 100,
       version_birth_date = 10, as_of = None\<rparr>, snd (snd ?c))"
    unfolding 1 2 .
  from clone_exchanges_keys[OF c] 1 2 show ?thesis by simp
qed





text \<open>
  With relations, \<^verbatim>\<open>clone\<close> can still raise \<^verbatim>\<open>ValueError\<close> after its own checks have
  passed: a current link that started after the date of the clone fails the check of its
  own \<^verbatim>\<open>clone\<close>.
\<close>

lemma clone_fails_in_relations:
  "fst (clone \<lparr>many_to_many = [\<lparr>through = ''t'', source_field_name = from_field, target_field_name = to_field,
       symmetrical = False, rel_to = Some ''B''\<rparr>], many_to_many_related = None\<rparr> (Some 25)
         \<lparr>pk = ''a'', identity = ''a'', version_start_date = 10, version_end_date = None,
       version_birth_date = 10, as_of = None\<rparr>
         \<lparr>utcnow = (\<lambda>n. 100 + int n), now_calls = 0,
       uuid4 = (\<lambda>n. replicate (Suc n) CHR ''u''), uuid_calls = 0,
       objects = [\<lparr>pk = ''a'', identity = ''a'', version_start_date = 10, version_end_date = None,
       version_birth_date = 10, as_of = None\<rparr>],
       through_tables = (\<lambda>_. [\<lparr>pk = ''l'', identity = ''l'', version_start_date = 30, version_end_date = None,
       version_birth_date = 30, as_of = None, from_id = ''a'', to_id = ''b''\<rparr>]),
       related = (\<lambda>_. [])\<rparr>)
     = Inl ValueError"
  by (simp add: eval_defs)

text \<open>
  Without the condition on the intervals the successor need not be the only version that
  starts where a version ends. Cloning a version at 10 and then cloning the new head
  again at 10 leaves a table that satisfies \<open>chain_wf\<close>, in which the version in the
  middle is empty; \<^verbatim>\<open>next_version\<close> of the first version and \<^verbatim>\<open>previous_version\<close> of
  the last raise \<^verbatim>\<open>MultipleObjectsReturned\<close>.
\<close>

lemma clone_at_start_leaves_empty_version:
  "fst (clone \<lparr>many_to_many = [], many_to_many_related = None\<rparr> (Some 10)
         \<lparr>pk = ''a'', identity = ''a'', version_start_date = 5, version_end_date = None,
       version_birth_date = 5, as_of = None\<rparr>
         \<lparr>utcnow = (\<lambda>n. 100 + int n), now_calls = 0,
       uuid4 = (\<lambda>n. replicate (Suc n) CHR ''u''), uuid_calls = 0,
       objects = [\<lparr>pk = ''a'', identity = ''a'', version_start_date = 5, version_end_date = None,
       version_birth_date = 5, as_of = None\<rparr>],
       through_tables = (\<lambda>_. []),
       related = (\<lambda>_. [])\<rparr>) = Inr (\<lparr>pk = ''a'', identity = ''a'', version_start_date = 10, version_end_date = None,
       version_birth_date = 5, as_of = None\<rparr>)
   \<and> objects (snd (snd (clone \<lparr>many_to_many = [], many_to_many_related = None\<rparr> (Some 10)
         (\<lparr>pk = ''a'', identity = ''a'', version_start_date = 10, version_end_date = None,
       version_birth_date = 5, as_of = None\<rparr>)
         (snd (snd (clone \<lparr>many_to_many = [], many_to_many_related = None\<rparr> (Some 10)
         \<lparr>pk = ''a'', identity = ''a'', version_start_date = 5, version_end_date = None,
       version_birth_date = 5, as_of = None\<rparr>
         \<lparr>utcnow = (\<lambda>n. 100 + int n), now_calls = 0,
       uuid4 = (\<lambda>n. replicate (Suc n) CHR ''u''), uuid_calls = 0,
       objects = [\<lparr>pk = ''a'', identity = ''a'', version_start_date = 5, version_end_date = None,
       version_birth_date = 5, as_of = None\<rparr>],
       through_tables = (\<lambda>_. []),
       related = (\<lambda>_. [])\<rparr>))))))
     = [\<lparr>pk = ''a'', identity = ''a'', version_start_date = 10, version_end_date = None,
       version_birth_date = 5, as_of = None\<rparr>,
      \<lparr>pk = ''u'', identity = ''a'', version_start_date = 5, version_end_date = Some 10,
       version_birth_date = 5, as_of = None\<rparr>,
      \<lparr>pk = ''uu'', identity = ''a'', version_start_date = 10, version_end_date = Some 10,
       version_birth_date = 5, as_of = None\<rparr>]"
  by (simp add: eval_defs)

lemma empty_version_is_ambiguous:
  "chain_wf [\<lparr>pk = ''a'', identity = ''a'', version_start_date = 10, version_end_date = None,
       version_birth_date = 5, as_of = None\<rparr>,
      \<lparr>pk = ''u'', identity = ''a'', version_start_date = 5, version_end_date = Some 10,
       version_birth_date = 5, as_of = None\<rparr>,
      \<lparr>pk = ''uu'', identity = ''a'', version_start_date = 10, version_end_date = Some 10,
       version_birth_date = 5, as_of = None\<rparr>]
   \<and> \<not> nonempty_interval (\<lparr>pk = ''uu'', identity = ''a'', version_start_date = 10, version_end_date = Some 10,
       version_birth_date = 5, as_of = None\<rparr>)
   \<and> next_version [\<lparr>pk = ''a'', identity = ''a'', version_start_date = 10, version_end_date = None,
       version_birth_date = 5, as_of = None\<rparr>,
      \<lparr>pk = ''u'', identity = ''a'', version_start_date = 5, version_end_date = Some 10,
       version_birth_date = 5, as_of = None\<rparr>,
      \<lparr>pk = ''uu'', identity = ''a'', version_start_date = 10, version_end_date = Some 10,
       version_birth_date = 5, as_of = None\<rparr>] (\<lparr>pk = ''u'', identity = ''a'', version_start_date = 5, version_end_date = Some 10,
       version_birth_date = 5, as_of = None\<rparr>) = Inl MultipleObjectsReturned
   \<and> previous_version [\<lparr>pk = ''a'', identity = ''a'', version_start_date = 10, version_end_date = None,
       version_birth_date = 5, as_of = None\<rparr>,
      \<lparr>pk = ''u'', identity = ''a'', version_start_date = 5, version_end_date = Some 10,
       version_birth_date = 5, as_of = None\<rparr>,
      \<lparr>pk = ''uu'', identity = ''a'', version_start_date = 10, version_end_date = Some 10,
       version_birth_date = 5, as_of = None\<rparr>] (\<lparr>pk = ''a'', identity = ''a'', version_start_date = 10, version_end_date = None,
       version_birth_date = 5, as_of = None\<rparr>) = Inl MultipleObjectsReturned"
  by (simp add: chain_wf_def interval_overlap_def nonempty_interval_def next_version_def
      previous_version_def qs_get_def fetch_all_def filter_qs_def get_queryset_def)

section \<open>Removing links\<close>

lemma as_of_Q_valid_at: "as_of_Q (Some t) v = spec_valid_at v t"
  by (cases "version_end_date v") (auto simp: as_of_Q_def version_end_date_gt_def spec_valid_at_def)

lemma delete_at_current:
  assumes "version_end_date rel = None" and "pk rel \<in> set (map pk table)"
  shows "delete_at ts rel table =
           (Inr (), rel\<lparr>version_end_date := Some ts\<rparr>,
            map (\<lambda>r. if pk r = pk rel then spec_closed_at ts rel else r) table)"
  using assms by (simp add: delete_at_def save_def Let_def spec_closed_at_def)

lemma delete_at_closed:
  "version_end_date rel \<noteq> None \<Longrightarrow> delete_at ts rel table = (Inl Exception, rel, table)"
  by (cases "version_end_date rel") (simp_all add: delete_at_def)

lemma delete_at_pks:
  assumes "pk rel \<in> set (map pk table)"
  shows "map pk (snd (snd (delete_at ts rel table))) = map pk table"
proof (cases "version_end_date rel")
  case None
  have "map pk (map (\<lambda>r. if pk r = pk rel then spec_closed_at ts rel else r) table) = map pk table"
    by (induction table) (simp_all add: spec_closed_at_def)
  with None assms show ?thesis by (simp add: delete_at_current)
next
  case (Some e)
  then show ?thesis by (simp add: delete_at_closed)
qed

lemma delete_relations_pks:
  "\<forall>rel \<in> set rels. pk rel \<in> set (map pk table) \<Longrightarrow>
   map pk (snd (delete_relations ts rels table)) = map pk table"
proof (induction rels arbitrary: table)
  case Nil
  show ?case by simp
next
  case (Cons rel rels)
  obtain r rel' table' where d: "delete_at ts rel table = (r, rel', table')"
    by (cases "delete_at ts rel table")
  have pks: "map pk table' = map pk table"
    using delete_at_pks[of rel table ts] Cons.prems d by simp
  show ?case
  proof (cases r)
    case (Inl e)
    with d pks show ?thesis by simp
  next
    case (Inr u)
    have "\<forall>rel \<in> set rels. pk rel \<in> set (map pk table')"
      using Cons.prems pks by simp
    from Cons.IH[OF this] Inr d pks show ?thesis by simp
  qed
qed

lemma delete_relations_fail:
  "\<exists>rel \<in> set rels. version_end_date rel \<noteq> None \<Longrightarrow>
   fst (delete_relations ts rels table) = Inl Exception"
proof (induction rels arbitrary: table)
  case Nil
  then show ?case by simp
next
  case (Cons rel rels)
  show ?case
  proof (cases "version_end_date rel")
    case (Some e)
    then show ?thesis by (simp add: delete_at_def)
  next
    case None
    with Cons.prems have "\<exists>rel \<in> set rels. version_end_date rel \<noteq> None" by simp
    from Cons.IH[OF this] None show ?thesis
      by (simp add: delete_at_def Let_def)
  qed
qed

lemma delete_relations_ok:
  assumes "\<forall>rel \<in> set rels. version_end_date rel = None \<and> pk rel \<in> set (map pk table)"
    and "distinct (map pk rels)"
  shows "delete_relations ts rels table =
     (Inr (), map (\<lambda>r. case find (\<lambda>rel. pk rel = pk r) rels of
                          Some rel \<Rightarrow> spec_closed_at ts rel | None \<Rightarrow> r) table)"
  using assms
proof (induction rels arbitrary: table)
  case Nil
  show ?case by simp
next
  case (Cons rel rels)
  let ?t1 = "map (\<lambda>r. if pk r = pk rel then spec_closed_at ts rel else r) table"
  have d: "delete_at ts rel table = (Inr (), rel\<lparr>version_end_date := Some ts\<rparr>, ?t1)"
    using Cons.prems(1) by (intro delete_at_current) simp_all
  have pks: "map pk ?t1 = map pk table"
    by (induction table) (simp_all add: spec_closed_at_def)
  have "\<forall>rel \<in> set rels. version_end_date rel = None \<and> pk rel \<in> set (map pk ?t1)"
    using Cons.prems(1) unfolding pks by simp
  moreover have "distinct (map pk rels)" using Cons.prems(2) by simp
  ultimately have ih: "delete_relations ts rels ?t1 =
     (Inr (), map (\<lambda>r. case find (\<lambda>rel. pk rel = pk r) rels of
                          Some rel \<Rightarrow> spec_closed_at ts rel | None \<Rightarrow> r) ?t1)"
    by (rule Cons.IH)
  have "pk rel \<notin> pk ` set rels" using Cons.prems(2) by simp
  then have "\<forall>x \<in> set rels. pk x \<noteq> pk rel" by (metis imageI)
  then have nf: "find (\<lambda>x. pk x = pk rel) rels = None"
    by (simp add: find_None_iff)
  have "map (\<lambda>r. case find (\<lambda>rel. pk rel = pk r) rels of
                          Some rel \<Rightarrow> spec_closed_at ts rel | None \<Rightarrow> r) ?t1
      = map (\<lambda>r. case find (\<lambda>x. pk x = pk r) (rel # rels) of
                          Some rel \<Rightarrow> spec_closed_at ts rel | None \<Rightarrow> r) table"
    using nf by (simp add: spec_closed_at_def)
  with d ih show ?case by simp
qed


lemma find_tagged:
  assumes "distinct (map pk table)" and "r \<in> set table"
  shows "find (\<lambda>rel. pk rel = pk r) (map (\<lambda>x. x\<lparr>as_of := a\<rparr>) (filter S table))
         = (if S r then Some (r\<lparr>as_of := a\<rparr>) else None)"
  using assms
proof (induction table)
  case Nil
  then show ?case by simp
next
  case (Cons x xs)
  have dx: "pk x \<notin> pk ` set xs" and dxs: "distinct (map pk xs)"
    using Cons.prems(1) by simp_all
  show ?case
  proof (cases "pk x = pk r")
    case True
    have "r \<notin> set xs"
    proof
      assume "r \<in> set xs"
      then have "pk r \<in> pk ` set xs" by (rule imageI)
      with dx True show False by simp
    qed
    with Cons.prems(2) have rx: "r = x" by simp
    have "\<forall>y \<in> set (map (\<lambda>x. x\<lparr>as_of := a\<rparr>) (filter S xs)). pk y \<noteq> pk x"
    proof
      fix y assume "y \<in> set (map (\<lambda>x. x\<lparr>as_of := a\<rparr>) (filter S xs))"
      then obtain z where "z \<in> set xs" "y = z\<lparr>as_of := a\<rparr>" by auto
      then have "pk y \<in> pk ` set xs" by simp
      with dx show "pk y \<noteq> pk x" by metis
    qed
    then have "find (\<lambda>rel. pk rel = pk x) (map (\<lambda>x. x\<lparr>as_of := a\<rparr>) (filter S xs)) = None"
      by (simp add: find_None_iff)
    then show ?thesis unfolding rx by simp
  next
    case False
    with Cons.prems(2) have "r \<in> set xs" by auto
    from Cons.IH[OF dxs this] False show ?thesis by simp
  qed
qed

lemma map_find_tagged:
  assumes "distinct (map pk table)"
  shows "map (\<lambda>r. case find (\<lambda>rel. pk rel = pk r) (map (\<lambda>x. x\<lparr>as_of := a\<rparr>) (filter S table)) of
                    Some rel \<Rightarrow> spec_closed_at ts rel | None \<Rightarrow> r) table
         = map (\<lambda>r. if S r then spec_closed_at ts r else r) table"
proof (rule map_cong[OF refl])
  fix r assume "r \<in> set table"
  from find_tagged[OF assms this, of a S]
  show "(case find (\<lambda>rel. pk rel = pk r) (map (\<lambda>x. x\<lparr>as_of := a\<rparr>) (filter S table)) of
           Some rel \<Rightarrow> spec_closed_at ts rel | None \<Rightarrow> r)
        = (if S r then spec_closed_at ts r else r)"
    by (simp add: spec_closed_at_def)
qed

lemma set_through_same: "set_through name (through_tables w name) w = w"
  by (simp add: set_through_def)

lemma removal_query:
  "fetch_all (qs_as_of (Some ts)
      (filter_qs (\<lambda>r. fk_val sf r = k \<and> fk_val tf r \<in> obj_pk ` set objs)
         (get_queryset table)))
   = map (\<lambda>x. x\<lparr>as_of := Some ts\<rparr>)
       (filter (\<lambda>r. spec_link sf k tf (obj_pk ` set objs) r \<and> spec_valid_at r ts) table)"
proof -
  have "filter (as_of_Q (Some ts))
          (filter (\<lambda>r. fk_val sf r = k \<and> fk_val tf r \<in> obj_pk ` set objs) table)
        = filter (\<lambda>r. spec_link sf k tf (obj_pk ` set objs) r \<and> spec_valid_at r ts) table"
    by (simp add: as_of_Q_valid_at spec_link_def conj_commute cong: filter_cong)
  then show ?thesis
    by (simp add: fetch_all_def qs_as_of_def add_as_of_filter_def filter_qs_def get_queryset_def
        set_query_time_def)
qed

lemma remove_items_at_unfold:
  "objs \<noteq> [] \<Longrightarrow>
   remove_items_at (Some ts) sf tf objs m w =
     (case delete_relations ts
             (map (\<lambda>x. x\<lparr>as_of := Some ts\<rparr>)
                (filter (\<lambda>r. spec_link sf (pk (manager_instance m)) tf (obj_pk ` set objs) r
                              \<and> spec_valid_at r ts)
                   (through_tables w (through m))))
             (through_tables w (through m)) of
        (r, table') \<Rightarrow> (r, set_through (through m) table' w))"
  by (simp add: remove_items_at_def Let_def removal_query)

lemma remove_items_at_now:
  "objs \<noteq> [] \<Longrightarrow>
   remove_items_at None sf tf objs m w =
     (case remove_items_at (Some (utcnow w (now_calls w))) sf tf objs m w of
        (r, w') \<Rightarrow> (r, w'\<lparr>now_calls := Suc (now_calls w)\<rparr>))"
  by (simp add: remove_items_at_def Let_def get_utc_now_def set_through_def split: prod.splits)

lemma remove_items_at_ok:
  assumes dist: "distinct (map pk (through_tables w (through m)))"
    and cur: "\<forall>r \<in> set (through_tables w (through m)).
                spec_link sf (pk (manager_instance m)) tf (obj_pk ` set objs) r
                \<and> spec_valid_at r ts \<longrightarrow> version_end_date r = None"
  shows "remove_items_at (Some ts) sf tf objs m w =
     (Inr (), set_through (through m)
        (map (\<lambda>r. if spec_link sf (pk (manager_instance m)) tf (obj_pk ` set objs) r
                      \<and> spec_valid_at r ts
                   then spec_closed_at ts r else r)
           (through_tables w (through m))) w)"
proof (cases "objs = []")
  case True
  then show ?thesis
    by (simp add: remove_items_at_def spec_link_def set_through_same)
next
  case False
  let ?T = "through_tables w (through m)"
  let ?S = "\<lambda>r. spec_link sf (pk (manager_instance m)) tf (obj_pk ` set objs) r \<and> spec_valid_at r ts"
  let ?rels = "map (\<lambda>x. x\<lparr>as_of := Some ts\<rparr>) (filter ?S ?T)"
  have a: "\<forall>rel \<in> set ?rels. version_end_date rel = None \<and> pk rel \<in> set (map pk ?T)"
  proof
    fix rel assume "rel \<in> set ?rels"
    then obtain r where r: "r \<in> set ?T" "?S r" "rel = r\<lparr>as_of := Some ts\<rparr>" by auto
    from cur r(1,2) have "version_end_date r = None" by simp
    with r show "version_end_date rel = None \<and> pk rel \<in> set (map pk ?T)" by simp
  qed
  have mp: "map pk ?rels = map pk (filter ?S ?T)" by simp
  have b: "distinct (map pk ?rels)"
    unfolding mp using dist by (rule distinct_map_filter)
  show ?thesis
    unfolding remove_items_at_unfold[OF False] delete_relations_ok[OF a b]
      map_find_tagged[OF dist] by simp
qed

lemma remove_items_at_fail:
  assumes "\<exists>r \<in> set (through_tables w (through m)).
             spec_link sf (pk (manager_instance m)) tf (obj_pk ` set objs) r
             \<and> spec_valid_at r ts \<and> version_end_date r \<noteq> None"
  shows "fst (remove_items_at (Some ts) sf tf objs m w) = Inl Exception"
proof -
  from assms obtain r where r: "r \<in> set (through_tables w (through m))"
    "spec_link sf (pk (manager_instance m)) tf (obj_pk ` set objs) r"
    "spec_valid_at r ts" "version_end_date r \<noteq> None" by blast
  then have ne: "objs \<noteq> []" by (auto simp: spec_link_def)
  let ?S = "\<lambda>r. spec_link sf (pk (manager_instance m)) tf (obj_pk ` set objs) r \<and> spec_valid_at r ts"
  let ?rels = "map (\<lambda>x. x\<lparr>as_of := Some ts\<rparr>) (filter ?S (through_tables w (through m)))"
  have "r\<lparr>as_of := Some ts\<rparr> \<in> set ?rels" using r by simp
  moreover have "version_end_date (r\<lparr>as_of := Some ts\<rparr>) \<noteq> None" using r(4) by simp
  ultimately have "\<exists>rel \<in> set ?rels. version_end_date rel \<noteq> None" by (rule bexI[rotated])
  from delete_relations_fail[OF this, of ts "through_tables w (through m)"]
  have f: "fst (delete_relations ts ?rels (through_tables w (through m))) = Inl Exception" .
  obtain r' t' where d: "delete_relations ts ?rels (through_tables w (through m)) = (r', t')"
    by (cases "delete_relations ts ?rels (through_tables w (through m))")
  with f have "r' = Inl Exception" by simp
  then show ?thesis
    unfolding remove_items_at_unfold[OF ne] d by simp
qed

lemma remove_items_at_pks:
  "map pk (through_tables (snd (remove_items_at (Some ts) sf tf objs m w)) (through m))
   = map pk (through_tables w (through m))"
proof (cases "objs = []")
  case True
  then show ?thesis by (simp add: remove_items_at_def)
next
  case False
  let ?S = "\<lambda>r. spec_link sf (pk (manager_instance m)) tf (obj_pk ` set objs) r \<and> spec_valid_at r ts"
  let ?T = "through_tables w (through m)"
  let ?rels = "map (\<lambda>x. x\<lparr>as_of := Some ts\<rparr>) (filter ?S ?T)"
  have "\<forall>rel \<in> set ?rels. pk rel \<in> set (map pk ?T)" by auto
  from delete_relations_pks[OF this, of ts]
  have p: "map pk (snd (delete_relations ts ?rels ?T)) = map pk ?T" .
  obtain r t' where d: "delete_relations ts ?rels ?T = (r, t')"
    by (cases "delete_relations ts ?rels ?T")
  with p have "map pk t' = map pk ?T" by simp
  then show ?thesis
    unfolding remove_items_at_unfold[OF False] d by (simp add: set_through_def)
qed

lemma remove_items_at_frame:
  "objects (snd (remove_items_at (Some ts) sf tf objs m w)) = objects w"
  "name \<noteq> through m \<Longrightarrow>
     through_tables (snd (remove_items_at (Some ts) sf tf objs m w)) name = through_tables w name"
proof -
  let ?S = "\<lambda>r. spec_link sf (pk (manager_instance m)) tf (obj_pk ` set objs) r \<and> spec_valid_at r ts"
  let ?T = "through_tables w (through m)"
  let ?rels = "map (\<lambda>x. x\<lparr>as_of := Some ts\<rparr>) (filter ?S ?T)"
  obtain r t' where d: "delete_relations ts ?rels ?T = (r, t')"
    by (cases "delete_relations ts ?rels ?T")
  show "objects (snd (remove_items_at (Some ts) sf tf objs m w)) = objects w"
  proof (cases "objs = []")
    case True
    then show ?thesis by (simp add: remove_items_at_def)
  next
    case False
    show ?thesis unfolding remove_items_at_unfold[OF False] d by (simp add: set_through_def)
  qed
  assume n: "name \<noteq> through m"
  show "through_tables (snd (remove_items_at (Some ts) sf tf objs m w)) name = through_tables w name"
  proof (cases "objs = []")
    case True
    then show ?thesis by (simp add: remove_items_at_def)
  next
    case False
    show ?thesis unfolding remove_items_at_unfold[OF False] d using n by (simp add: set_through_def)
  qed
qed


lemma closed_not_valid: "\<not> spec_valid_at (spec_closed_at ts r) ts"
  by (simp add: spec_valid_at_def spec_closed_at_def)

lemma spec_link_closed: "spec_link sf s tf K (spec_closed_at ts r) = spec_link sf s tf K r"
  by (cases sf; cases tf) (simp_all add: spec_link_def spec_closed_at_def fk_val_def)

lemma map_pk_closed:
  "map pk (map (\<lambda>r. if S r then spec_closed_at ts r else r) table) = map pk table"
  by (induction table) (simp_all add: spec_closed_at_def)

lemma set_through_twice:
  "set_through name t2 (set_through name t1 w) = set_through name t2 w"
  by (simp add: set_through_def)

lemma through_tables_set_through:
  "through_tables (set_through name t w) name = t"
  by (simp add: set_through_def)

lemma remove_at_unfold:
  "remove_at ts objs m w =
     (case remove_items_at (Some ts) (source_field_name m) (target_field_name m) objs m w of
        (Inl e, w1) \<Rightarrow> (Inl e, w1)
      | (Inr u, w1) \<Rightarrow>
          if symmetrical m
          then remove_items_at (Some ts) (target_field_name m) (source_field_name m) objs m w1
          else (Inr (), w1))"
  by (simp add: remove_at_def)

lemma remove_at_ok:
  assumes dist: "distinct (map pk (through_tables w (through m)))"
    and cur: "\<forall>r \<in> set (through_tables w (through m)).
        (spec_link (source_field_name m) (pk (manager_instance m)) (target_field_name m)
           (obj_pk ` set objs) r
         \<or> symmetrical m
           \<and> spec_link (target_field_name m) (pk (manager_instance m)) (source_field_name m)
               (obj_pk ` set objs) r)
        \<and> spec_valid_at r ts \<longrightarrow> version_end_date r = None"
  shows "remove_at ts objs m w =
     (Inr (), set_through (through m)
        (map (\<lambda>r. if (spec_link (source_field_name m) (pk (manager_instance m))
                          (target_field_name m) (obj_pk ` set objs) r
                        \<or> symmetrical m
                          \<and> spec_link (target_field_name m) (pk (manager_instance m))
                              (source_field_name m) (obj_pk ` set objs) r)
                       \<and> spec_valid_at r ts
                   then spec_closed_at ts r else r)
           (through_tables w (through m))) w)"
proof -
  let ?T = "through_tables w (through m)"
  let ?L1 = "spec_link (source_field_name m) (pk (manager_instance m)) (target_field_name m)
           (obj_pk ` set objs)"
  let ?L2 = "spec_link (target_field_name m) (pk (manager_instance m)) (source_field_name m)
           (obj_pk ` set objs)"
  let ?c1 = "\<lambda>r. if ?L1 r \<and> spec_valid_at r ts then spec_closed_at ts r else r"
  let ?c2 = "\<lambda>r. if ?L2 r \<and> spec_valid_at r ts then spec_closed_at ts r else r"
  let ?w1 = "set_through (through m) (map ?c1 ?T) w"
  have cur1: "\<forall>r \<in> set ?T. ?L1 r \<and> spec_valid_at r ts \<longrightarrow> version_end_date r = None"
    using cur by simp
  have p1: "remove_items_at (Some ts) (source_field_name m) (target_field_name m) objs m w
            = (Inr (), ?w1)"
    using dist cur1 by (rule remove_items_at_ok)
  show ?thesis
  proof (cases "symmetrical m")
    case False
    then show ?thesis unfolding remove_at_unfold p1 by simp
  next
    case True
    have t1: "through_tables ?w1 (through m) = map ?c1 ?T"
      by (rule through_tables_set_through)
    have dist1: "distinct (map pk (through_tables ?w1 (through m)))"
      unfolding t1 map_pk_closed using dist .
    have cur2: "\<forall>r \<in> set (through_tables ?w1 (through m)).
                  ?L2 r \<and> spec_valid_at r ts \<longrightarrow> version_end_date r = None"
      unfolding t1
    proof (intro ballI impI)
      fix r1 assume r1: "r1 \<in> set (map ?c1 ?T)" and s2: "?L2 r1 \<and> spec_valid_at r1 ts"
      from r1 obtain r where r: "r \<in> set ?T" "r1 = ?c1 r" by auto
      show "version_end_date r1 = None"
      proof (cases "?L1 r \<and> spec_valid_at r ts")
        case True
        with r have "r1 = spec_closed_at ts r" by simp
        with s2 closed_not_valid[of ts r] show ?thesis by simp
      next
        case False
        with r have "r1 = r" by simp
        with s2 r(1) cur True show ?thesis by simp
      qed
    qed
    have p2: "remove_items_at (Some ts) (target_field_name m) (source_field_name m) objs m ?w1
        = (Inr (), set_through (through m) (map ?c2 (through_tables ?w1 (through m))) ?w1)"
      using dist1 cur2 by (rule remove_items_at_ok)
    have comp: "map ?c2 (map ?c1 ?T)
        = map (\<lambda>r. if (?L1 r \<or> symmetrical m \<and> ?L2 r) \<and> spec_valid_at r ts
                    then spec_closed_at ts r else r) ?T"
    proof -
      have pt: "?c2 (?c1 r)
          = (if (?L1 r \<or> symmetrical m \<and> ?L2 r) \<and> spec_valid_at r ts
             then spec_closed_at ts r else r)" for r
      proof (cases "?L1 r \<and> spec_valid_at r ts")
        case c: True
        then show ?thesis by (simp add: closed_not_valid)
      next
        case c: False
        show ?thesis
        proof (cases "?L2 r \<and> spec_valid_at r ts")
          case True
          with c \<open>symmetrical m\<close> show ?thesis by simp
        next
          case False
          with c show ?thesis by auto
        qed
      qed
      show ?thesis unfolding map_map comp_def pt ..
    qed
    have "remove_at ts objs m w
        = remove_items_at (Some ts) (target_field_name m) (source_field_name m) objs m ?w1"
      unfolding remove_at_unfold p1 using True by simp
    also have "\<dots> = (Inr (), set_through (through m) (map ?c2 (map ?c1 ?T)) w)"
      unfolding p2 t1 set_through_twice ..
    finally show ?thesis unfolding comp .
  qed
qed


lemma remove_items_at_current:
  assumes "fst (remove_items_at (Some ts) sf tf objs m w) = Inr ()"
  shows "\<forall>r \<in> set (through_tables w (through m)).
           spec_link sf (pk (manager_instance m)) tf (obj_pk ` set objs) r
           \<and> spec_valid_at r ts \<longrightarrow> version_end_date r = None"
proof (rule ccontr)
  assume "\<not> ?thesis"
  then have "\<exists>r \<in> set (through_tables w (through m)).
             spec_link sf (pk (manager_instance m)) tf (obj_pk ` set objs) r
             \<and> spec_valid_at r ts \<and> version_end_date r \<noteq> None"
    by simp
  from remove_items_at_fail[OF this] assms show False by simp
qed

lemma remove_at_fail:
  assumes dist: "distinct (map pk (through_tables w (through m)))"
    and bad: "\<exists>r \<in> set (through_tables w (through m)).
        (spec_link (source_field_name m) (pk (manager_instance m)) (target_field_name m)
           (obj_pk ` set objs) r
         \<or> symmetrical m
           \<and> spec_link (target_field_name m) (pk (manager_instance m)) (source_field_name m)
               (obj_pk ` set objs) r)
        \<and> spec_valid_at r ts \<and> version_end_date r \<noteq> None"
  shows "fst (remove_at ts objs m w) = Inl Exception"
proof -
  let ?T = "through_tables w (through m)"
  let ?L1 = "spec_link (source_field_name m) (pk (manager_instance m)) (target_field_name m)
           (obj_pk ` set objs)"
  let ?L2 = "spec_link (target_field_name m) (pk (manager_instance m)) (source_field_name m)
           (obj_pk ` set objs)"
  let ?c1 = "\<lambda>r. if ?L1 r \<and> spec_valid_at r ts then spec_closed_at ts r else r"
  let ?w1 = "set_through (through m) (map ?c1 ?T) w"
  show ?thesis
  proof (cases "\<exists>r \<in> set ?T. ?L1 r \<and> spec_valid_at r ts \<and> version_end_date r \<noteq> None")
    case True
    from remove_items_at_fail[OF True]
    have f: "fst (remove_items_at (Some ts) (source_field_name m) (target_field_name m) objs m w)
             = Inl Exception" .
    obtain r1 w1 where p: "remove_items_at (Some ts) (source_field_name m) (target_field_name m)
        objs m w = (r1, w1)"
      by (cases "remove_items_at (Some ts) (source_field_name m) (target_field_name m) objs m w")
    with f have "r1 = Inl Exception" by simp
    then show ?thesis unfolding remove_at_unfold p by simp
  next
    case False
    then have cur1: "\<forall>r \<in> set ?T. ?L1 r \<and> spec_valid_at r ts \<longrightarrow> version_end_date r = None"
      by simp
    have p1: "remove_items_at (Some ts) (source_field_name m) (target_field_name m) objs m w
            = (Inr (), ?w1)"
      using dist cur1 by (rule remove_items_at_ok)
    from bad obtain r where r: "r \<in> set ?T" "?L1 r \<or> symmetrical m \<and> ?L2 r"
      "spec_valid_at r ts" "version_end_date r \<noteq> None" by blast
    from cur1 r(1) have "?L1 r \<and> spec_valid_at r ts \<longrightarrow> version_end_date r = None"
      by (rule bspec)
    with r(3,4) have n1: "\<not> ?L1 r" by metis
    with r(2) have sym: "symmetrical m" and l2: "?L2 r" by simp_all
    have "?c1 r \<in> ?c1 ` set ?T" using r(1) by (rule imageI)
    then have "r \<in> ?c1 ` set ?T" using n1 by simp
    then have "r \<in> set (map ?c1 ?T)" by (simp only: set_map)
    then have "r \<in> set (through_tables ?w1 (through m))"
      unfolding through_tables_set_through .
    then have "\<exists>r \<in> set (through_tables ?w1 (through m)).
        ?L2 r \<and> spec_valid_at r ts \<and> version_end_date r \<noteq> None"
      using l2 r(3,4) by (intro bexI[of _ r]) simp_all
    from remove_items_at_fail[OF this]
    show ?thesis unfolding remove_at_unfold p1 using sym by simp
  qed
qed

lemma remove_at_pks:
  "map pk (through_tables (snd (remove_at ts objs m w)) (through m))
   = map pk (through_tables w (through m))"
proof -
  obtain r1 w1 where p: "remove_items_at (Some ts) (source_field_name m) (target_field_name m)
        objs m w = (r1, w1)"
    by (cases "remove_items_at (Some ts) (source_field_name m) (target_field_name m) objs m w")
  have k1: "map pk (through_tables w1 (through m)) = map pk (through_tables w (through m))"
    using remove_items_at_pks[of ts "source_field_name m" "target_field_name m" objs m w] p
    by simp
  have k2: "map pk (through_tables
                (snd (remove_items_at (Some ts) (target_field_name m) (source_field_name m)
                        objs m w1)) (through m))
            = map pk (through_tables w (through m))"
    using remove_items_at_pks[of ts "target_field_name m" "source_field_name m" objs m w1] k1
    by simp
  show ?thesis
  proof (cases r1)
    case (Inl e)
    then show ?thesis unfolding remove_at_unfold p using k1 by simp
  next
    case (Inr u)
    then show ?thesis unfolding remove_at_unfold p using k1 k2 by simp
  qed
qed

lemma delete_at_keeps:
  assumes "x \<in> set table" and "pk rel = pk x \<longrightarrow> version_end_date rel \<noteq> None"
  shows "x \<in> set (snd (snd (delete_at ts rel table)))"
proof (cases "version_end_date rel")
  case None
  with assms(2) have "pk x \<noteq> pk (rel\<lparr>version_end_date := Some ts\<rparr>)" by auto
  with assms(1) have "x \<in> set (save (rel\<lparr>version_end_date := Some ts\<rparr>) table)"
    by (rule save_keeps)
  with None show ?thesis by (simp add: delete_at_def Let_def)
next
  case (Some e)
  with assms(1) show ?thesis by (simp add: delete_at_closed)
qed

lemma delete_relations_keeps:
  "x \<in> set table \<Longrightarrow> \<forall>rel \<in> set rels. pk rel = pk x \<longrightarrow> version_end_date rel \<noteq> None \<Longrightarrow>
   x \<in> set (snd (delete_relations ts rels table))"
proof (induction rels arbitrary: table)
  case Nil
  then show ?case by simp
next
  case (Cons rel rels)
  obtain r rel' table' where d: "delete_at ts rel table = (r, rel', table')"
    by (cases "delete_at ts rel table")
  have "pk rel = pk x \<longrightarrow> version_end_date rel \<noteq> None" using Cons.prems(2) by simp
  with Cons.prems(1) have "x \<in> set (snd (snd (delete_at ts rel table)))"
    by (rule delete_at_keeps)
  then have x': "x \<in> set table'" unfolding d by simp
  show ?case
  proof (cases r)
    case (Inl e)
    with d x' show ?thesis by simp
  next
    case (Inr u)
    have "\<forall>rel \<in> set rels. pk rel = pk x \<longrightarrow> version_end_date rel \<noteq> None"
      using Cons.prems(2) by simp
    from Cons.IH[OF x' this] Inr d show ?thesis by simp
  qed
qed

lemma remove_items_at_keeps:
  assumes dist: "distinct (map pk (through_tables w (through m)))"
    and x: "x \<in> set (through_tables w (through m))"
    and n: "\<not> (spec_link sf (pk (manager_instance m)) tf (obj_pk ` set objs) x
              \<and> spec_valid_at x ts \<and> version_end_date x = None)"
  shows "x \<in> set (through_tables (snd (remove_items_at (Some ts) sf tf objs m w)) (through m))"
proof (cases "objs = []")
  case True
  with x show ?thesis by (simp add: remove_items_at_def)
next
  case False
  let ?T = "through_tables w (through m)"
  define S :: "link \<Rightarrow> bool" where
    "S = (\<lambda>r. spec_link sf (pk (manager_instance m)) tf (obj_pk ` set objs) r \<and> spec_valid_at r ts)"
  let ?rels = "map (\<lambda>x. x\<lparr>as_of := Some ts\<rparr>) (filter S ?T)"
  have "\<forall>rel \<in> set ?rels. pk rel = pk x \<longrightarrow> version_end_date rel \<noteq> None"
  proof (intro ballI impI)
    fix rel assume rel: "rel \<in> set ?rels" and k: "pk rel = pk x"
    from rel have "rel \<in> (\<lambda>x. x\<lparr>as_of := Some ts\<rparr>) ` set (filter S ?T)" by (simp only: set_map)
    then obtain r where r: "r \<in> set (filter S ?T)" and e: "rel = r\<lparr>as_of := Some ts\<rparr>"
      by (rule imageE)
    from r have rT: "r \<in> set ?T" and Sr: "S r" by simp_all
    from e k have "pk r = pk x" by simp
    with dist rT x have "r = x" by (rule distinct_pk_eq)
    with Sr have "S x" by simp
    with n have "version_end_date x \<noteq> None" unfolding S_def by simp
    with \<open>r = x\<close> e show "version_end_date rel \<noteq> None" by simp
  qed
  with x have k: "x \<in> set (snd (delete_relations ts ?rels ?T))"
    by (rule delete_relations_keeps)
  obtain r t' where d: "delete_relations ts ?rels ?T = (r, t')"
    by (cases "delete_relations ts ?rels ?T")
  from k d have "x \<in> set t'" by simp
  then show ?thesis
    unfolding remove_items_at_unfold[OF False] using d[unfolded S_def]
    by (simp add: set_through_def)
qed

lemma remove_at_keeps:
  assumes dist: "distinct (map pk (through_tables w (through m)))"
    and x: "x \<in> set (through_tables w (through m))"
    and n: "\<not> ((spec_link (source_field_name m) (pk (manager_instance m)) (target_field_name m)
                 (obj_pk ` set objs) x
               \<or> symmetrical m
                 \<and> spec_link (target_field_name m) (pk (manager_instance m)) (source_field_name m)
                     (obj_pk ` set objs) x)
              \<and> spec_valid_at x ts \<and> version_end_date x = None)"
  shows "x \<in> set (through_tables (snd (remove_at ts objs m w)) (through m))"
proof -
  obtain r1 w1 where p: "remove_items_at (Some ts) (source_field_name m) (target_field_name m)
        objs m w = (r1, w1)"
    by (cases "remove_items_at (Some ts) (source_field_name m) (target_field_name m) objs m w")
  have n1: "\<not> (spec_link (source_field_name m) (pk (manager_instance m)) (target_field_name m)
                 (obj_pk ` set objs) x \<and> spec_valid_at x ts \<and> version_end_date x = None)"
    using n by blast
  have "x \<in> set (through_tables (snd (remove_items_at (Some ts) (source_field_name m)
                      (target_field_name m) objs m w)) (through m))"
    using dist x n1 by (rule remove_items_at_keeps)
  then have x1: "x \<in> set (through_tables w1 (through m))" unfolding p by simp
  have "map pk (through_tables w1 (through m)) = map pk (through_tables w (through m))"
    using remove_items_at_pks[of ts "source_field_name m" "target_field_name m" objs m w] p
    by simp
  with dist have dist1: "distinct (map pk (through_tables w1 (through m)))" by simp
  show ?thesis
  proof (cases r1)
    case (Inl e)
    then show ?thesis unfolding remove_at_unfold p using x1 by simp
  next
    case (Inr u)
    show ?thesis
    proof (cases "symmetrical m")
      case False
      with Inr show ?thesis unfolding remove_at_unfold p using x1 by simp
    next
      case True
      with n have n2: "\<not> (spec_link (target_field_name m) (pk (manager_instance m))
                 (source_field_name m) (obj_pk ` set objs) x
               \<and> spec_valid_at x ts \<and> version_end_date x = None)"
        by blast
      have "x \<in> set (through_tables (snd (remove_items_at (Some ts) (target_field_name m)
                      (source_field_name m) objs m w1)) (through m))"
        using dist1 x1 n2 by (rule remove_items_at_keeps)
      with Inr True show ?thesis unfolding remove_at_unfold p by simp
    qed
  qed
qed

lemma remove_items_unfold:
  "objs \<noteq> [] \<Longrightarrow>
   remove_items sf tf objs m w =
     (fst (remove_items_at (Some (utcnow w (now_calls w))) sf tf objs m w),
      (snd (remove_items_at (Some (utcnow w (now_calls w))) sf tf objs m w))
        \<lparr>now_calls := Suc (now_calls w)\<rparr>)"
  unfolding remove_items_def by (simp add: remove_items_at_now split: prod.splits)

lemma remove_items_outcome:
  assumes dist: "distinct (map pk (through_tables w (through m)))" and ne: "objs \<noteq> []"
  shows "(fst (remove_items sf tf objs m w) = Inr ()
          \<or> fst (remove_items sf tf objs m w) = Inl Exception)
       \<and> (fst (remove_items sf tf objs m w) = Inr () \<longleftrightarrow>
            (\<forall>r \<in> set (through_tables w (through m)).
               spec_link sf (pk (manager_instance m)) tf (obj_pk ` set objs) r
               \<and> spec_valid_at r (utcnow w (now_calls w)) \<longrightarrow> version_end_date r = None))"
proof (cases "\<forall>r \<in> set (through_tables w (through m)).
               spec_link sf (pk (manager_instance m)) tf (obj_pk ` set objs) r
               \<and> spec_valid_at r (utcnow w (now_calls w)) \<longrightarrow> version_end_date r = None")
  case True
  from remove_items_at_ok[OF dist True]
  have "fst (remove_items sf tf objs m w) = Inr ()"
    unfolding remove_items_unfold[OF ne] by simp
  with True show ?thesis by simp
next
  case False
  then have "\<exists>r \<in> set (through_tables w (through m)).
             spec_link sf (pk (manager_instance m)) tf (obj_pk ` set objs) r
             \<and> spec_valid_at r (utcnow w (now_calls w)) \<and> version_end_date r \<noteq> None"
    by simp
  from remove_items_at_fail[OF this]
  have "fst (remove_items sf tf objs m w) = Inl Exception"
    unfolding remove_items_unfold[OF ne] by simp
  with False show ?thesis by simp
qed

lemma remove_items_keeps:
  assumes dist: "distinct (map pk (through_tables w (through m)))" and ne: "objs \<noteq> []"
    and x: "x \<in> set (through_tables w (through m))"
    and n: "\<not> (spec_link sf (pk (manager_instance m)) tf (obj_pk ` set objs) x
              \<and> spec_valid_at x (utcnow w (now_calls w)) \<and> version_end_date x = None)"
  shows "x \<in> set (through_tables (snd (remove_items sf tf objs m w)) (through m))"
  using remove_items_at_keeps[OF dist x n]
  unfolding remove_items_unfold[OF ne] by simp

text \<open>
  Claim C6, as amended. On an intermediary table with unique keys, \<^verbatim>\<open>remove_at\<close> never
  deletes or adds a row: the keys of the rows, in their order, stay as they were, whatever
  the outcome. It returns exactly when every row that links the instance to one of the
  given targets (in either direction, for a symmetrical relation) and is valid at the
  timestamp has no end; then each of these rows has its end set to the timestamp, the
  same for both directions, and every other row is as before. Otherwise it raises
  \<^verbatim>\<open>Exception\<close>: a row that is valid at the timestamp but already has an end is not
  given a new one, which is where the claim as stated fails. Whatever the outcome, a row
  that has an end, or that is not one of the rows selected, is in the table afterwards as
  it was before. \<^verbatim>\<open>_remove_items\<close> does all of this in the one direction it is called
  for, with the reading of the clock as the timestamp.
\<close>

theorem remove_at_ends_validity:
  assumes dist: "distinct (map pk (through_tables w (through m)))"
  shows
    "map pk (through_tables (snd (remove_at ts objs m w)) (through m))
       = map pk (through_tables w (through m))
     \<and> (fst (remove_at ts objs m w) = Inr () \<or> fst (remove_at ts objs m w) = Inl Exception)
     \<and> (fst (remove_at ts objs m w) = Inr () \<longleftrightarrow>
          (\<forall>r \<in> set (through_tables w (through m)).
             (spec_link (source_field_name m) (pk (manager_instance m)) (target_field_name m)
                (obj_pk ` set objs) r
              \<or> symmetrical m
                \<and> spec_link (target_field_name m) (pk (manager_instance m)) (source_field_name m)
                    (obj_pk ` set objs) r)
             \<and> spec_valid_at r ts \<longrightarrow> version_end_date r = None))
     \<and> (fst (remove_at ts objs m w) = Inr () \<longrightarrow>
          through_tables (snd (remove_at ts objs m w)) (through m)
          = map (\<lambda>r. if (spec_link (source_field_name m) (pk (manager_instance m))
                            (target_field_name m) (obj_pk ` set objs) r
                          \<or> symmetrical m
                            \<and> spec_link (target_field_name m) (pk (manager_instance m))
                                (source_field_name m) (obj_pk ` set objs) r)
                         \<and> spec_valid_at r ts
                     then spec_closed_at ts r else r)
              (through_tables w (through m)))
     \<and> (\<forall>x \<in> set (through_tables w (through m)).
          version_end_date x \<noteq> None
          \<or> \<not> ((spec_link (source_field_name m) (pk (manager_instance m)) (target_field_name m)
                   (obj_pk ` set objs) x
                 \<or> symmetrical m
                   \<and> spec_link (target_field_name m) (pk (manager_instance m))
                       (source_field_name m) (obj_pk ` set objs) x)
                \<and> spec_valid_at x ts)
          \<longrightarrow> x \<in> set (through_tables (snd (remove_at ts objs m w)) (through m)))
     \<and> map pk (through_tables
                 (snd (remove_items (source_field_name m) (target_field_name m) objs m w))
                 (through m))
         = map pk (through_tables w (through m))
          \<and> (fst (remove_items (source_field_name m) (target_field_name m) objs m w) = Inr ()
              \<longrightarrow> through_tables
                    (snd (remove_items (source_field_name m) (target_field_name m) objs m w))
                    (through m)
                  = map (\<lambda>r. if spec_link (source_field_name m) (pk (manager_instance m))
                                    (target_field_name m) (obj_pk ` set objs) r
                                 \<and> spec_valid_at r (utcnow w (now_calls w))
                             then spec_closed_at (utcnow w (now_calls w)) r else r)
                      (through_tables w (through m)))
          \<and> (fst (remove_items (source_field_name m) (target_field_name m) objs m w) = Inr ()
              \<or> fst (remove_items (source_field_name m) (target_field_name m) objs m w)
                 = Inl Exception)
          \<and> (fst (remove_items (source_field_name m) (target_field_name m) objs m w) = Inr ()
              \<longleftrightarrow>
              (\<forall>r \<in> set (through_tables w (through m)).
                 spec_link (source_field_name m) (pk (manager_instance m)) (target_field_name m)
                   (obj_pk ` set objs) r
                 \<and> spec_valid_at r (utcnow w (now_calls w)) \<longrightarrow> version_end_date r = None))
          \<and> (\<forall>x \<in> set (through_tables w (through m)).
               version_end_date x \<noteq> None
               \<or> \<not> (spec_link (source_field_name m) (pk (manager_instance m))
                      (target_field_name m) (obj_pk ` set objs) x
                     \<and> spec_valid_at x (utcnow w (now_calls w)))
               \<longrightarrow> x \<in> set (through_tables
                              (snd (remove_items (source_field_name m) (target_field_name m)
                                      objs m w))
                              (through m)))"
proof -
  let ?T = "through_tables w (through m)"
  let ?S = "\<lambda>r. (spec_link (source_field_name m) (pk (manager_instance m)) (target_field_name m)
                (obj_pk ` set objs) r
              \<or> symmetrical m
                \<and> spec_link (target_field_name m) (pk (manager_instance m)) (source_field_name m)
                    (obj_pk ` set objs) r)
             \<and> spec_valid_at r ts"
  have ok: "remove_at ts objs m w
      = (Inr (), set_through (through m) (map (\<lambda>r. if ?S r then spec_closed_at ts r else r) ?T) w)"
    if "\<forall>r \<in> set ?T. ?S r \<longrightarrow> version_end_date r = None"
    using dist that by (rule remove_at_ok)
  have fail: "fst (remove_at ts objs m w) = Inl Exception"
    if "\<not> (\<forall>r \<in> set ?T. ?S r \<longrightarrow> version_end_date r = None)"
  proof -
    from that have "\<exists>r \<in> set ?T. ?S r \<and> version_end_date r \<noteq> None" by simp
    then have "\<exists>r \<in> set ?T.
        (spec_link (source_field_name m) (pk (manager_instance m)) (target_field_name m)
           (obj_pk ` set objs) r
         \<or> symmetrical m
           \<and> spec_link (target_field_name m) (pk (manager_instance m)) (source_field_name m)
               (obj_pk ` set objs) r)
        \<and> spec_valid_at r ts \<and> version_end_date r \<noteq> None" by simp
    with dist show ?thesis by (rule remove_at_fail)
  qed
  have c1: "map pk (through_tables (snd (remove_at ts objs m w)) (through m)) = map pk ?T"
    by (rule remove_at_pks)
  have c2: "fst (remove_at ts objs m w) = Inr () \<or> fst (remove_at ts objs m w) = Inl Exception"
  proof (cases "\<forall>r \<in> set ?T. ?S r \<longrightarrow> version_end_date r = None")
    case True
    from ok[OF True] show ?thesis by simp
  next
    case False
    from fail[OF False] show ?thesis by simp
  qed
  have c3: "fst (remove_at ts objs m w) = Inr ()
            \<longleftrightarrow> (\<forall>r \<in> set ?T. ?S r \<longrightarrow> version_end_date r = None)"
  proof (cases "\<forall>r \<in> set ?T. ?S r \<longrightarrow> version_end_date r = None")
    case True
    from ok[OF True] have a: "fst (remove_at ts objs m w) = Inr ()" by simp
    show ?thesis
    proof
      show "\<forall>r \<in> set ?T. ?S r \<longrightarrow> version_end_date r = None" by (rule True)
      show "fst (remove_at ts objs m w) = Inr ()" by (rule a)
    qed
  next
    case False
    from fail[OF False] have b: "fst (remove_at ts objs m w) = Inl Exception" .
    show ?thesis
    proof
      assume "fst (remove_at ts objs m w) = Inr ()"
      with b show "\<forall>r \<in> set ?T. ?S r \<longrightarrow> version_end_date r = None" by simp
    next
      assume "\<forall>r \<in> set ?T. ?S r \<longrightarrow> version_end_date r = None"
      with False show "fst (remove_at ts objs m w) = Inr ()" by (rule notE)
    qed
  qed
  have c4: "through_tables (snd (remove_at ts objs m w)) (through m)
          = map (\<lambda>r. if ?S r then spec_closed_at ts r else r) ?T"
    if s: "fst (remove_at ts objs m w) = Inr ()"
  proof -
    from c3 s have "\<forall>r \<in> set ?T. ?S r \<longrightarrow> version_end_date r = None" by (rule iffD1)
    from ok[OF this] show ?thesis by (simp add: through_tables_set_through)
  qed
  let ?now = "utcnow w (now_calls w)"
  let ?ri = "remove_items (source_field_name m) (target_field_name m) objs m w"
  let ?ria = "remove_items_at (Some ?now) (source_field_name m) (target_field_name m) objs m w"
  have c5: "map pk (through_tables (snd ?ri) (through m)) = map pk ?T
          \<and> (fst ?ri = Inr ()
              \<longrightarrow> through_tables (snd ?ri) (through m)
                  = map (\<lambda>r. if spec_link (source_field_name m) (pk (manager_instance m))
                                    (target_field_name m) (obj_pk ` set objs) r
                                 \<and> spec_valid_at r ?now
                             then spec_closed_at ?now r else r) ?T)"
    if ne: "objs \<noteq> []"
  proof -
    obtain r1 w1 where p: "?ria = (r1, w1)" by (cases ?ria)
    have ri: "?ri = (r1, w1\<lparr>now_calls := Suc (now_calls w)\<rparr>)"
      unfolding remove_items_def remove_items_at_now[OF ne] p by simp
    have k: "map pk (through_tables w1 (through m)) = map pk ?T"
      using remove_items_at_pks[of ?now "source_field_name m" "target_field_name m" objs m w] p
      by simp
    have t: "through_tables w1 (through m)
                  = map (\<lambda>r. if spec_link (source_field_name m) (pk (manager_instance m))
                                    (target_field_name m) (obj_pk ` set objs) r
                                 \<and> spec_valid_at r ?now
                             then spec_closed_at ?now r else r) ?T"
      if s: "r1 = Inr ()"
    proof -
      from s p have "fst ?ria = Inr ()" by simp
      from remove_items_at_ok[OF dist remove_items_at_current[OF this]] p
      show ?thesis by (simp add: through_tables_set_through)
    qed
    show ?thesis unfolding ri using k t by simp
  qed
  have c6: "\<forall>x \<in> set ?T. version_end_date x \<noteq> None \<or> \<not> ?S x
              \<longrightarrow> x \<in> set (through_tables (snd (remove_at ts objs m w)) (through m))"
  proof (intro ballI impI)
    fix x assume x: "x \<in> set ?T" and h: "version_end_date x \<noteq> None \<or> \<not> ?S x"
    from h have n: "\<not> ((spec_link (source_field_name m) (pk (manager_instance m)) (target_field_name m)
                 (obj_pk ` set objs) x
               \<or> symmetrical m
                 \<and> spec_link (target_field_name m) (pk (manager_instance m)) (source_field_name m)
                     (obj_pk ` set objs) x)
              \<and> spec_valid_at x ts \<and> version_end_date x = None)"
      by blast
    show "x \<in> set (through_tables (snd (remove_at ts objs m w)) (through m))"
      using dist x n by (rule remove_at_keeps)
  qed
  have c7: "(fst ?ri = Inr () \<or> fst ?ri = Inl Exception)
       \<and> (fst ?ri = Inr () \<longleftrightarrow>
            (\<forall>r \<in> set ?T.
               spec_link (source_field_name m) (pk (manager_instance m)) (target_field_name m)
                 (obj_pk ` set objs) r
               \<and> spec_valid_at r ?now \<longrightarrow> version_end_date r = None))"
    if ne: "objs \<noteq> []"
    using dist ne by (rule remove_items_outcome)
  have c8: "\<forall>x \<in> set ?T.
               version_end_date x \<noteq> None
               \<or> \<not> (spec_link (source_field_name m) (pk (manager_instance m))
                      (target_field_name m) (obj_pk ` set objs) x
                     \<and> spec_valid_at x ?now)
               \<longrightarrow> x \<in> set (through_tables (snd ?ri) (through m))"
    if ne: "objs \<noteq> []"
  proof (intro ballI impI)
    fix x assume x: "x \<in> set ?T"
      and h: "version_end_date x \<noteq> None
               \<or> \<not> (spec_link (source_field_name m) (pk (manager_instance m))
                      (target_field_name m) (obj_pk ` set objs) x
                     \<and> spec_valid_at x ?now)"
    from h have n: "\<not> (spec_link (source_field_name m) (pk (manager_instance m))
                      (target_field_name m) (obj_pk ` set objs) x
              \<and> spec_valid_at x ?now \<and> version_end_date x = None)"
      by blast
    show "x \<in> set (through_tables (snd ?ri) (through m))"
      using dist ne x n by (rule remove_items_keeps)
  qed
  have c4': "fst (remove_at ts objs m w) = Inr () \<longrightarrow>
          through_tables (snd (remove_at ts objs m w)) (through m)
          = map (\<lambda>r. if ?S r then spec_closed_at ts r else r) ?T"
    by (rule impI) (rule c4)
  have nil: "?ri = (Inr (), w)" if "objs = []"
    using that by (simp add: remove_items_def remove_items_at_def)
  have no_link: "\<not> spec_link (source_field_name m) (pk (manager_instance m))
              (target_field_name m) (obj_pk ` set objs) r" if "objs = []" for r :: link
    using that by (simp add: spec_link_def)
  have r1: "map pk (through_tables (snd ?ri) (through m)) = map pk ?T"
  proof (cases "objs = []")
    case True
    show ?thesis unfolding nil[OF True] by simp
  next
    case False
    from c5[OF False] show ?thesis by (rule conjunct1)
  qed
  have r2: "fst ?ri = Inr ()
              \<longrightarrow> through_tables (snd ?ri) (through m)
                  = map (\<lambda>r. if spec_link (source_field_name m) (pk (manager_instance m))
                                    (target_field_name m) (obj_pk ` set objs) r
                                 \<and> spec_valid_at r ?now
                             then spec_closed_at ?now r else r) ?T"
  proof (cases "objs = []")
    case True
    show ?thesis unfolding nil[OF True] by (simp add: no_link[OF True])
  next
    case False
    from c5[OF False] show ?thesis by (rule conjunct2)
  qed
  have r3: "fst ?ri = Inr () \<or> fst ?ri = Inl Exception"
  proof (cases "objs = []")
    case True
    show ?thesis unfolding nil[OF True] by simp
  next
    case False
    from c7[OF False] show ?thesis by (rule conjunct1)
  qed
  have r4: "fst ?ri = Inr () \<longleftrightarrow>
              (\<forall>r \<in> set ?T.
                 spec_link (source_field_name m) (pk (manager_instance m)) (target_field_name m)
                   (obj_pk ` set objs) r
                 \<and> spec_valid_at r ?now \<longrightarrow> version_end_date r = None)"
  proof (cases "objs = []")
    case True
    show ?thesis unfolding nil[OF True] by (simp add: no_link[OF True])
  next
    case False
    from c7[OF False] show ?thesis by (rule conjunct2)
  qed
  have r5: "\<forall>x \<in> set ?T.
               version_end_date x \<noteq> None
               \<or> \<not> (spec_link (source_field_name m) (pk (manager_instance m))
                      (target_field_name m) (obj_pk ` set objs) x
                     \<and> spec_valid_at x ?now)
               \<longrightarrow> x \<in> set (through_tables (snd ?ri) (through m))"
  proof (cases "objs = []")
    case True
    show ?thesis unfolding nil[OF True] by simp
  next
    case False
    show ?thesis by (rule c8[OF False])
  qed
  show ?thesis using c1 c2 c3 c4' c6 r1 r2 r3 r4 r5 by (intro conjI)
qed


theorem remove_at_ends_validity_counterexample:
  "spec_valid_at \<lparr>pk = ''l'', identity = ''l'', version_start_date = 30, version_end_date = Some 40,
       version_birth_date = 30, as_of = None, from_id = ''a'', to_id = ''b''\<rparr> 35
   \<and> fst (remove_at 35 [Key ''b'']
        \<lparr>through = ''t'', source_field_name = from_field, target_field_name = to_field,
       symmetrical = False, rel_to = Some ''B'', manager_instance = \<lparr>pk = ''a'', identity = ''a'', version_start_date = 10, version_end_date = None,
       version_birth_date = 10, as_of = None\<rparr>\<rparr>
        \<lparr>utcnow = (\<lambda>n. 100 + int n), now_calls = 0,
       uuid4 = (\<lambda>n. replicate (Suc n) CHR ''u''), uuid_calls = 0,
       objects = [],
       through_tables = (\<lambda>_. [\<lparr>pk = ''l'', identity = ''l'', version_start_date = 30, version_end_date = Some 40,
       version_birth_date = 30, as_of = None, from_id = ''a'', to_id = ''b''\<rparr>]),
       related = (\<lambda>_. [])\<rparr>)
     = Inl Exception
   \<and> through_tables (snd (remove_at 35 [Key ''b'']
        \<lparr>through = ''t'', source_field_name = from_field, target_field_name = to_field,
       symmetrical = False, rel_to = Some ''B'', manager_instance = \<lparr>pk = ''a'', identity = ''a'', version_start_date = 10, version_end_date = None,
       version_birth_date = 10, as_of = None\<rparr>\<rparr>
        \<lparr>utcnow = (\<lambda>n. 100 + int n), now_calls = 0,
       uuid4 = (\<lambda>n. replicate (Suc n) CHR ''u''), uuid_calls = 0,
       objects = [],
       through_tables = (\<lambda>_. [\<lparr>pk = ''l'', identity = ''l'', version_start_date = 30, version_end_date = Some 40,
       version_birth_date = 30, as_of = None, from_id = ''a'', to_id = ''b''\<rparr>]),
       related = (\<lambda>_. [])\<rparr>)) ''t''
     = [\<lparr>pk = ''l'', identity = ''l'', version_start_date = 30, version_end_date = Some 40,
       version_birth_date = 30, as_of = None, from_id = ''a'', to_id = ''b''\<rparr>]"
  by (simp add: spec_valid_at_def remove_at_def remove_items_at_def qs_as_of_def
      add_as_of_filter_def filter_qs_def get_queryset_def fetch_all_def set_query_time_def
      as_of_Q_def version_end_date_gt_def fk_val_def obj_pk_def delete_at_def set_through_def
      Let_def)

theorem remove_at_ends_validity_witness:
  "fst (remove_at 50 [Key ''b'']
        \<lparr>through = ''t'', source_field_name = from_field, target_field_name = to_field,
       symmetrical = True, rel_to = Some ''B'', manager_instance = \<lparr>pk = ''a'', identity = ''a'', version_start_date = 10, version_end_date = None,
       version_birth_date = 10, as_of = None\<rparr>\<rparr>
        \<lparr>utcnow = (\<lambda>n. 100 + int n), now_calls = 0,
       uuid4 = (\<lambda>n. replicate (Suc n) CHR ''u''), uuid_calls = 0,
       objects = [],
       through_tables = (\<lambda>_. [\<lparr>pk = ''l1'', identity = ''l1'', version_start_date = 20, version_end_date = None,
       version_birth_date = 20, as_of = None, from_id = ''a'', to_id = ''b''\<rparr>, \<lparr>pk = ''l2'', identity = ''l2'', version_start_date = 20, version_end_date = None,
       version_birth_date = 20, as_of = None, from_id = ''b'', to_id = ''a''\<rparr>, \<lparr>pk = ''l3'', identity = ''l3'', version_start_date = 20, version_end_date = None,
       version_birth_date = 20, as_of = None, from_id = ''a'', to_id = ''c''\<rparr>]),
       related = (\<lambda>_. [])\<rparr>)
     = Inr ()
   \<and> through_tables (snd (remove_at 50 [Key ''b'']
        \<lparr>through = ''t'', source_field_name = from_field, target_field_name = to_field,
       symmetrical = True, rel_to = Some ''B'', manager_instance = \<lparr>pk = ''a'', identity = ''a'', version_start_date = 10, version_end_date = None,
       version_birth_date = 10, as_of = None\<rparr>\<rparr>
        \<lparr>utcnow = (\<lambda>n. 100 + int n), now_calls = 0,
       uuid4 = (\<lambda>n. replicate (Suc n) CHR ''u''), uuid_calls = 0,
       objects = [],
       through_tables = (\<lambda>_. [\<lparr>pk = ''l1'', identity = ''l1'', version_start_date = 20, version_end_date = None,
       version_birth_date = 20, as_of = None, from_id = ''a'', to_id = ''b''\<rparr>, \<lparr>pk = ''l2'', identity = ''l2'', version_start_date = 20, version_end_date = None,
       version_birth_date = 20, as_of = None, from_id = ''b'', to_id = ''a''\<rparr>, \<lparr>pk = ''l3'', identity = ''l3'', version_start_date = 20, version_end_date = None,
       version_birth_date = 20, as_of = None, from_id = ''a'', to_id = ''c''\<rparr>]),
       related = (\<lambda>_. [])\<rparr>)) ''t''
     = [\<lparr>pk = ''l1'', identity = ''l1'', version_start_date = 20, version_end_date = Some 50,
       version_birth_date = 20, as_of = None, from_id = ''a'', to_id = ''b''\<rparr>,
        \<lparr>pk = ''l2'', identity = ''l2'', version_start_date = 20, version_end_date = Some 50,
       version_birth_date = 20, as_of = None, from_id = ''b'', to_id = ''a''\<rparr>,
        \<lparr>pk = ''l3'', identity = ''l3'', version_start_date = 20, version_end_date = None,
       version_birth_date = 20, as_of = None, from_id = ''a'', to_id = ''c''\<rparr>]
   \<and> fst (remove_at 35 [Key ''b'', Key ''c'']
        \<lparr>through = ''t'', source_field_name = from_field, target_field_name = to_field,
       symmetrical = False, rel_to = Some ''B'', manager_instance = \<lparr>pk = ''a'', identity = ''a'', version_start_date = 10, version_end_date = None,
       version_birth_date = 10, as_of = None\<rparr>\<rparr>
        \<lparr>utcnow = (\<lambda>n. 100 + int n), now_calls = 0,
       uuid4 = (\<lambda>n. replicate (Suc n) CHR ''u''), uuid_calls = 0,
       objects = [],
       through_tables = (\<lambda>_. [\<lparr>pk = ''l1'', identity = ''l1'', version_start_date = 20, version_end_date = None,
       version_birth_date = 20, as_of = None, from_id = ''a'', to_id = ''b''\<rparr>, \<lparr>pk = ''l2'', identity = ''l2'', version_start_date = 30, version_end_date = Some 40,
       version_birth_date = 30, as_of = None, from_id = ''a'', to_id = ''c''\<rparr>]),
       related = (\<lambda>_. [])\<rparr>)
     = Inl Exception
   \<and> \<lparr>pk = ''l2'', identity = ''l2'', version_start_date = 30, version_end_date = Some 40,
       version_birth_date = 30, as_of = None, from_id = ''a'', to_id = ''c''\<rparr>
     \<in> set (through_tables (snd (remove_at 35 [Key ''b'', Key ''c'']
        \<lparr>through = ''t'', source_field_name = from_field, target_field_name = to_field,
       symmetrical = False, rel_to = Some ''B'', manager_instance = \<lparr>pk = ''a'', identity = ''a'', version_start_date = 10, version_end_date = None,
       version_birth_date = 10, as_of = None\<rparr>\<rparr>
        \<lparr>utcnow = (\<lambda>n. 100 + int n), now_calls = 0,
       uuid4 = (\<lambda>n. replicate (Suc n) CHR ''u''), uuid_calls = 0,
       objects = [],
       through_tables = (\<lambda>_. [\<lparr>pk = ''l1'', identity = ''l1'', version_start_date = 20, version_end_date = None,
       version_birth_date = 20, as_of = None, from_id = ''a'', to_id = ''b''\<rparr>, \<lparr>pk = ''l2'', identity = ''l2'', version_start_date = 30, version_end_date = Some 40,
       version_birth_date = 30, as_of = None, from_id = ''a'', to_id = ''c''\<rparr>]),
       related = (\<lambda>_. [])\<rparr>)) ''t'')
   \<and> fst (remove_items from_field to_field [Key ''b'']
        \<lparr>through = ''t'', source_field_name = from_field, target_field_name = to_field,
       symmetrical = False, rel_to = Some ''B'', manager_instance = \<lparr>pk = ''a'', identity = ''a'', version_start_date = 10, version_end_date = None,
       version_birth_date = 10, as_of = None\<rparr>\<rparr>
        \<lparr>utcnow = (\<lambda>n. 100 + int n), now_calls = 0,
       uuid4 = (\<lambda>n. replicate (Suc n) CHR ''u''), uuid_calls = 0,
       objects = [],
       through_tables = (\<lambda>_. [\<lparr>pk = ''l1'', identity = ''l1'', version_start_date = 20, version_end_date = None,
       version_birth_date = 20, as_of = None, from_id = ''a'', to_id = ''b''\<rparr>, \<lparr>pk = ''l2'', identity = ''l2'', version_start_date = 30, version_end_date = Some 40,
       version_birth_date = 30, as_of = None, from_id = ''a'', to_id = ''c''\<rparr>]),
       related = (\<lambda>_. [])\<rparr>)
     = Inr ()
   \<and> through_tables (snd (remove_items from_field to_field [Key ''b'']
        \<lparr>through = ''t'', source_field_name = from_field, target_field_name = to_field,
       symmetrical = False, rel_to = Some ''B'', manager_instance = \<lparr>pk = ''a'', identity = ''a'', version_start_date = 10, version_end_date = None,
       version_birth_date = 10, as_of = None\<rparr>\<rparr>
        \<lparr>utcnow = (\<lambda>n. 100 + int n), now_calls = 0,
       uuid4 = (\<lambda>n. replicate (Suc n) CHR ''u''), uuid_calls = 0,
       objects = [],
       through_tables = (\<lambda>_. [\<lparr>pk = ''l1'', identity = ''l1'', version_start_date = 20, version_end_date = None,
       version_birth_date = 20, as_of = None, from_id = ''a'', to_id = ''b''\<rparr>, \<lparr>pk = ''l2'', identity = ''l2'', version_start_date = 30, version_end_date = Some 40,
       version_birth_date = 30, as_of = None, from_id = ''a'', to_id = ''c''\<rparr>]),
       related = (\<lambda>_. [])\<rparr>)) ''t''
     = [\<lparr>pk = ''l1'', identity = ''l1'', version_start_date = 20, version_end_date = Some 100,
       version_birth_date = 20, as_of = None, from_id = ''a'', to_id = ''b''\<rparr>,
        \<lparr>pk = ''l2'', identity = ''l2'', version_start_date = 30, version_end_date = Some 40,
       version_birth_date = 30, as_of = None, from_id = ''a'', to_id = ''c''\<rparr>]"
proof -
  have d1: "distinct (map pk (through_tables
        \<lparr>utcnow = (\<lambda>n. 100 + int n), now_calls = 0,
       uuid4 = (\<lambda>n. replicate (Suc n) CHR ''u''), uuid_calls = 0,
       objects = [],
       through_tables = (\<lambda>_. [\<lparr>pk = ''l1'', identity = ''l1'', version_start_date = 20, version_end_date = None,
       version_birth_date = 20, as_of = None, from_id = ''a'', to_id = ''b''\<rparr>, \<lparr>pk = ''l2'', identity = ''l2'', version_start_date = 20, version_end_date = None,
       version_birth_date = 20, as_of = None, from_id = ''b'', to_id = ''a''\<rparr>, \<lparr>pk = ''l3'', identity = ''l3'', version_start_date = 20, version_end_date = None,
       version_birth_date = 20, as_of = None, from_id = ''a'', to_id = ''c''\<rparr>]),
       related = (\<lambda>_. [])\<rparr>
        (through \<lparr>through = ''t'', source_field_name = from_field, target_field_name = to_field,
       symmetrical = True, rel_to = Some ''B'', manager_instance = \<lparr>pk = ''a'', identity = ''a'', version_start_date = 10, version_end_date = None,
       version_birth_date = 10, as_of = None\<rparr>\<rparr>)))"
    by simp
  have d2: "distinct (map pk (through_tables
        \<lparr>utcnow = (\<lambda>n. 100 + int n), now_calls = 0,
       uuid4 = (\<lambda>n. replicate (Suc n) CHR ''u''), uuid_calls = 0,
       objects = [],
       through_tables = (\<lambda>_. [\<lparr>pk = ''l1'', identity = ''l1'', version_start_date = 20, version_end_date = None,
       version_birth_date = 20, as_of = None, from_id = ''a'', to_id = ''b''\<rparr>, \<lparr>pk = ''l2'', identity = ''l2'', version_start_date = 30, version_end_date = Some 40,
       version_birth_date = 30, as_of = None, from_id = ''a'', to_id = ''c''\<rparr>]),
       related = (\<lambda>_. [])\<rparr>
        (through \<lparr>through = ''t'', source_field_name = from_field, target_field_name = to_field,
       symmetrical = False, rel_to = Some ''B'', manager_instance = \<lparr>pk = ''a'', identity = ''a'', version_start_date = 10, version_end_date = None,
       version_birth_date = 10, as_of = None\<rparr>\<rparr>)))"
    by simp
  note t1 = remove_at_ends_validity[OF d1, of 50 "[Key ''b'']"]
  note t2 = remove_at_ends_validity[OF d2, of 35 "[Key ''b'', Key ''c'']"]
  note t3 = remove_at_ends_validity[OF d2, of 35 "[Key ''b'']"]
  have a1: "fst (remove_at 50 [Key ''b'']
        \<lparr>through = ''t'', source_field_name = from_field, target_field_name = to_field,
       symmetrical = True, rel_to = Some ''B'', manager_instance = \<lparr>pk = ''a'', identity = ''a'', version_start_date = 10, version_end_date = None,
       version_birth_date = 10, as_of = None\<rparr>\<rparr>
        \<lparr>utcnow = (\<lambda>n. 100 + int n), now_calls = 0,
       uuid4 = (\<lambda>n. replicate (Suc n) CHR ''u''), uuid_calls = 0,
       objects = [],
       through_tables = (\<lambda>_. [\<lparr>pk = ''l1'', identity = ''l1'', version_start_date = 20, version_end_date = None,
       version_birth_date = 20, as_of = None, from_id = ''a'', to_id = ''b''\<rparr>, \<lparr>pk = ''l2'', identity = ''l2'', version_start_date = 20, version_end_date = None,
       version_birth_date = 20, as_of = None, from_id = ''b'', to_id = ''a''\<rparr>, \<lparr>pk = ''l3'', identity = ''l3'', version_start_date = 20, version_end_date = None,
       version_birth_date = 20, as_of = None, from_id = ''a'', to_id = ''c''\<rparr>]),
       related = (\<lambda>_. [])\<rparr>)
     = Inr ()"
    using t1[THEN conjunct2, THEN conjunct2, THEN conjunct1] by (simp add: spec_link_def spec_valid_at_def spec_closed_at_def fk_val_def obj_pk_def)
  have a2: "through_tables (snd (remove_at 50 [Key ''b'']
        \<lparr>through = ''t'', source_field_name = from_field, target_field_name = to_field,
       symmetrical = True, rel_to = Some ''B'', manager_instance = \<lparr>pk = ''a'', identity = ''a'', version_start_date = 10, version_end_date = None,
       version_birth_date = 10, as_of = None\<rparr>\<rparr>
        \<lparr>utcnow = (\<lambda>n. 100 + int n), now_calls = 0,
       uuid4 = (\<lambda>n. replicate (Suc n) CHR ''u''), uuid_calls = 0,
       objects = [],
       through_tables = (\<lambda>_. [\<lparr>pk = ''l1'', identity = ''l1'', version_start_date = 20, version_end_date = None,
       version_birth_date = 20, as_of = None, from_id = ''a'', to_id = ''b''\<rparr>, \<lparr>pk = ''l2'', identity = ''l2'', version_start_date = 20, version_end_date = None,
       version_birth_date = 20, as_of = None, from_id = ''b'', to_id = ''a''\<rparr>, \<lparr>pk = ''l3'', identity = ''l3'', version_start_date = 20, version_end_date = None,
       version_birth_date = 20, as_of = None, from_id = ''a'', to_id = ''c''\<rparr>]),
       related = (\<lambda>_. [])\<rparr>)) ''t''
     = [\<lparr>pk = ''l1'', identity = ''l1'', version_start_date = 20, version_end_date = Some 50,
       version_birth_date = 20, as_of = None, from_id = ''a'', to_id = ''b''\<rparr>,
        \<lparr>pk = ''l2'', identity = ''l2'', version_start_date = 20, version_end_date = Some 50,
       version_birth_date = 20, as_of = None, from_id = ''b'', to_id = ''a''\<rparr>,
        \<lparr>pk = ''l3'', identity = ''l3'', version_start_date = 20, version_end_date = None,
       version_birth_date = 20, as_of = None, from_id = ''a'', to_id = ''c''\<rparr>]"
    using t1[THEN conjunct2, THEN conjunct2, THEN conjunct2, THEN conjunct1] a1 by (simp add: spec_link_def spec_valid_at_def spec_closed_at_def fk_val_def obj_pk_def)
  have "fst (remove_at 35 [Key ''b'', Key ''c'']
        \<lparr>through = ''t'', source_field_name = from_field, target_field_name = to_field,
       symmetrical = False, rel_to = Some ''B'', manager_instance = \<lparr>pk = ''a'', identity = ''a'', version_start_date = 10, version_end_date = None,
       version_birth_date = 10, as_of = None\<rparr>\<rparr>
        \<lparr>utcnow = (\<lambda>n. 100 + int n), now_calls = 0,
       uuid4 = (\<lambda>n. replicate (Suc n) CHR ''u''), uuid_calls = 0,
       objects = [],
       through_tables = (\<lambda>_. [\<lparr>pk = ''l1'', identity = ''l1'', version_start_date = 20, version_end_date = None,
       version_birth_date = 20, as_of = None, from_id = ''a'', to_id = ''b''\<rparr>, \<lparr>pk = ''l2'', identity = ''l2'', version_start_date = 30, version_end_date = Some 40,
       version_birth_date = 30, as_of = None, from_id = ''a'', to_id = ''c''\<rparr>]),
       related = (\<lambda>_. [])\<rparr>) \<noteq> Inr ()"
    using t2[THEN conjunct2, THEN conjunct2, THEN conjunct1] by (simp add: spec_link_def spec_valid_at_def spec_closed_at_def fk_val_def obj_pk_def)
  with t2[THEN conjunct2, THEN conjunct1]
  have b1: "fst (remove_at 35 [Key ''b'', Key ''c'']
        \<lparr>through = ''t'', source_field_name = from_field, target_field_name = to_field,
       symmetrical = False, rel_to = Some ''B'', manager_instance = \<lparr>pk = ''a'', identity = ''a'', version_start_date = 10, version_end_date = None,
       version_birth_date = 10, as_of = None\<rparr>\<rparr>
        \<lparr>utcnow = (\<lambda>n. 100 + int n), now_calls = 0,
       uuid4 = (\<lambda>n. replicate (Suc n) CHR ''u''), uuid_calls = 0,
       objects = [],
       through_tables = (\<lambda>_. [\<lparr>pk = ''l1'', identity = ''l1'', version_start_date = 20, version_end_date = None,
       version_birth_date = 20, as_of = None, from_id = ''a'', to_id = ''b''\<rparr>, \<lparr>pk = ''l2'', identity = ''l2'', version_start_date = 30, version_end_date = Some 40,
       version_birth_date = 30, as_of = None, from_id = ''a'', to_id = ''c''\<rparr>]),
       related = (\<lambda>_. [])\<rparr>)
     = Inl Exception"
    by simp
  have mem: "\<lparr>pk = ''l2'', identity = ''l2'', version_start_date = 30, version_end_date = Some 40,
       version_birth_date = 30, as_of = None, from_id = ''a'', to_id = ''c''\<rparr>
     \<in> set (through_tables
        \<lparr>utcnow = (\<lambda>n. 100 + int n), now_calls = 0,
       uuid4 = (\<lambda>n. replicate (Suc n) CHR ''u''), uuid_calls = 0,
       objects = [],
       through_tables = (\<lambda>_. [\<lparr>pk = ''l1'', identity = ''l1'', version_start_date = 20, version_end_date = None,
       version_birth_date = 20, as_of = None, from_id = ''a'', to_id = ''b''\<rparr>, \<lparr>pk = ''l2'', identity = ''l2'', version_start_date = 30, version_end_date = Some 40,
       version_birth_date = 30, as_of = None, from_id = ''a'', to_id = ''c''\<rparr>]),
       related = (\<lambda>_. [])\<rparr>
        (through \<lparr>through = ''t'', source_field_name = from_field, target_field_name = to_field,
       symmetrical = False, rel_to = Some ''B'', manager_instance = \<lparr>pk = ''a'', identity = ''a'', version_start_date = 10, version_end_date = None,
       version_birth_date = 10, as_of = None\<rparr>\<rparr>))"
    by simp
  have b2: "\<lparr>pk = ''l2'', identity = ''l2'', version_start_date = 30, version_end_date = Some 40,
       version_birth_date = 30, as_of = None, from_id = ''a'', to_id = ''c''\<rparr>
     \<in> set (through_tables (snd (remove_at 35 [Key ''b'', Key ''c'']
        \<lparr>through = ''t'', source_field_name = from_field, target_field_name = to_field,
       symmetrical = False, rel_to = Some ''B'', manager_instance = \<lparr>pk = ''a'', identity = ''a'', version_start_date = 10, version_end_date = None,
       version_birth_date = 10, as_of = None\<rparr>\<rparr>
        \<lparr>utcnow = (\<lambda>n. 100 + int n), now_calls = 0,
       uuid4 = (\<lambda>n. replicate (Suc n) CHR ''u''), uuid_calls = 0,
       objects = [],
       through_tables = (\<lambda>_. [\<lparr>pk = ''l1'', identity = ''l1'', version_start_date = 20, version_end_date = None,
       version_birth_date = 20, as_of = None, from_id = ''a'', to_id = ''b''\<rparr>, \<lparr>pk = ''l2'', identity = ''l2'', version_start_date = 30, version_end_date = Some 40,
       version_birth_date = 30, as_of = None, from_id = ''a'', to_id = ''c''\<rparr>]),
       related = (\<lambda>_. [])\<rparr>)) ''t'')"
    using t2[THEN conjunct2, THEN conjunct2, THEN conjunct2, THEN conjunct2, THEN conjunct1, THEN bspec, OF mem]
    by simp
  have c1: "fst (remove_items from_field to_field [Key ''b'']
        \<lparr>through = ''t'', source_field_name = from_field, target_field_name = to_field,
       symmetrical = False, rel_to = Some ''B'', manager_instance = \<lparr>pk = ''a'', identity = ''a'', version_start_date = 10, version_end_date = None,
       version_birth_date = 10, as_of = None\<rparr>\<rparr>
        \<lparr>utcnow = (\<lambda>n. 100 + int n), now_calls = 0,
       uuid4 = (\<lambda>n. replicate (Suc n) CHR ''u''), uuid_calls = 0,
       objects = [],
       through_tables = (\<lambda>_. [\<lparr>pk = ''l1'', identity = ''l1'', version_start_date = 20, version_end_date = None,
       version_birth_date = 20, as_of = None, from_id = ''a'', to_id = ''b''\<rparr>, \<lparr>pk = ''l2'', identity = ''l2'', version_start_date = 30, version_end_date = Some 40,
       version_birth_date = 30, as_of = None, from_id = ''a'', to_id = ''c''\<rparr>]),
       related = (\<lambda>_. [])\<rparr>)
     = Inr ()"
    using t3[THEN conjunct2, THEN conjunct2, THEN conjunct2, THEN conjunct2, THEN conjunct2, THEN conjunct2, THEN conjunct2, THEN conjunct2, THEN conjunct1] by (simp add: spec_link_def spec_valid_at_def spec_closed_at_def fk_val_def obj_pk_def)
  have c2: "through_tables (snd (remove_items from_field to_field [Key ''b'']
        \<lparr>through = ''t'', source_field_name = from_field, target_field_name = to_field,
       symmetrical = False, rel_to = Some ''B'', manager_instance = \<lparr>pk = ''a'', identity = ''a'', version_start_date = 10, version_end_date = None,
       version_birth_date = 10, as_of = None\<rparr>\<rparr>
        \<lparr>utcnow = (\<lambda>n. 100 + int n), now_calls = 0,
       uuid4 = (\<lambda>n. replicate (Suc n) CHR ''u''), uuid_calls = 0,
       objects = [],
       through_tables = (\<lambda>_. [\<lparr>pk = ''l1'', identity = ''l1'', version_start_date = 20, version_end_date = None,
       version_birth_date = 20, as_of = None, from_id = ''a'', to_id = ''b''\<rparr>, \<lparr>pk = ''l2'', identity = ''l2'', version_start_date = 30, version_end_date = Some 40,
       version_birth_date = 30, as_of = None, from_id = ''a'', to_id = ''c''\<rparr>]),
       related = (\<lambda>_. [])\<rparr>)) ''t''
     = [\<lparr>pk = ''l1'', identity = ''l1'', version_start_date = 20, version_end_date = Some 100,
       version_birth_date = 20, as_of = None, from_id = ''a'', to_id = ''b''\<rparr>,
        \<lparr>pk = ''l2'', identity = ''l2'', version_start_date = 30, version_end_date = Some 40,
       version_birth_date = 30, as_of = None, from_id = ''a'', to_id = ''c''\<rparr>]"
    using t3[THEN conjunct2, THEN conjunct2, THEN conjunct2, THEN conjunct2, THEN conjunct2, THEN conjunct2, THEN conjunct1] c1 by (simp add: spec_link_def spec_valid_at_def spec_closed_at_def fk_val_def obj_pk_def)
  from a1 a2 b1 b2 c1 c2 show ?thesis by (intro conjI)
qed

section \<open>Assigning a many-to-many collection\<close>

lemma current_rows:
  "rows (values_list (filter_qs P (qs_as_of None (get_queryset table))))
   = filter (\<lambda>r. P r \<and> version_end_date r = None) table"
proof -
  have "filter (\<lambda>r. version_end_date r = None) (filter P (filter (\<lambda>r. version_end_date r = None) table))
        = filter (\<lambda>r. P r \<and> version_end_date r = None) table"
    by (induction table) simp_all
  then show ?thesis
    by (simp add: values_list_def qs_as_of_def add_as_of_filter_def filter_qs_def get_queryset_def
        as_of_Q_def)
qed

lemma current_rows_plain:
  "rows (filter_qs P (values_list (get_queryset table)))
   = filter (\<lambda>r. P r \<and> version_end_date r = None) table"
proof -
  have "filter P (filter (\<lambda>r. version_end_date r = None) table)
        = filter (\<lambda>r. P r \<and> version_end_date r = None) table"
    by (induction table) simp_all
  then show ?thesis
    by (simp add: values_list_def add_as_of_filter_def filter_qs_def get_queryset_def as_of_Q_def)
qed

lemma current_ids_set:
  "set (map (fk_val (target_field_name m))
          (rows (values_list
             (filter_qs (\<lambda>r. fk_val (source_field_name m) r = pk (manager_instance m))
                (qs_as_of None (get_queryset (through_tables w (through m))))))))
   = spec_current_targets m w"
  unfolding current_rows by (simp add: spec_current_targets_def)

lemma get_current_m2m_diff_sets:
  assumes "get_current_m2m_diff m val w = (being_removed, being_added)"
  shows "set being_removed = spec_current_targets m w - obj_pk ` set val"
    and "set being_added = obj_pk ` set val - spec_current_targets m w"
    and "distinct being_removed" and "distinct being_added"
proof -
  let ?cur = "remdups (map (fk_val (target_field_name m))
          (rows (values_list
             (filter_qs (\<lambda>r. fk_val (source_field_name m) r = pk (manager_instance m))
                (qs_as_of None (get_queryset (through_tables w (through m))))))))"
  have cur: "set ?cur = spec_current_targets m w"
    using current_ids_set[of m w] by simp
  have r: "being_removed = filter (\<lambda>k. k \<notin> set (pks_from_objects val)) ?cur"
    and a: "being_added = filter (\<lambda>k. k \<notin> set ?cur) (pks_from_objects val)"
    using assms by (simp_all add: get_current_m2m_diff_def Let_def)
  have new: "set (pks_from_objects val) = obj_pk ` set val"
    by (simp add: pks_from_objects_def)
  show "set being_removed = spec_current_targets m w - obj_pk ` set val"
    unfolding r set_filter cur new by blast
  show "set being_added = obj_pk ` set val - spec_current_targets m w"
    unfolding a set_filter cur new by blast
  show "distinct being_removed" unfolding r by simp
  show "distinct being_added" unfolding a by (simp add: pks_from_objects_def)
qed

lemma remove_at_nil: "remove_at ts [] m w = (Inr (), w)"
  by (simp add: remove_at_def remove_items_at_def)

lemma add_at_nil: "is_current (manager_instance m) \<Longrightarrow> add_at ts [] m w = (Inr (), w)"
  by (simp add: add_at_def add_def add_items_def)

lemma descriptor_set_unfold:
  assumes "is_current (manager_instance m)"
    and "get_current_m2m_diff m val w = (being_removed, being_added)"
  shows "descriptor_set True m val w =
     (case remove_at (utcnow w (now_calls w)) (map Key being_removed) m
             (w\<lparr>now_calls := Suc (now_calls w)\<rparr>) of
        (Inl e, w2) \<Rightarrow> (Inl e, w2)
      | (Inr u, w2) \<Rightarrow> add_at (utcnow w (now_calls w)) (map Key being_added) m w2)"
  using assms by (simp add: descriptor_set_def get_utc_now_def)

text \<open>
  Claim C5. Assigning to the many-to-many field of a current instance a collection whose
  keys are exactly the targets it is currently linked to computes an empty difference on
  both sides, returns, and leaves every intermediary table and the table of the instance
  as they were: no link is created and none is closed.
\<close>

theorem set_current_targets_is_noop:
  assumes cur: "is_current (manager_instance m)"
    and same: "obj_pk ` set val = spec_current_targets m w"
  shows "fst (descriptor_set True m val w) = Inr ()
         \<and> through_tables (snd (descriptor_set True m val w)) = through_tables w
         \<and> objects (snd (descriptor_set True m val w)) = objects w
         \<and> get_current_m2m_diff m val w = ([], [])"
proof -
  obtain br ba where d: "get_current_m2m_diff m val w = (br, ba)"
    by (cases "get_current_m2m_diff m val w")
  from get_current_m2m_diff_sets(1,2)[OF d] same have "set br = {}" "set ba = {}" by simp_all
  then have e: "br = []" "ba = []" by simp_all
  have "descriptor_set True m val w = (Inr (), w\<lparr>now_calls := Suc (now_calls w)\<rparr>)"
    unfolding descriptor_set_unfold[OF cur d] e
    by (simp add: remove_at_nil add_at_nil cur)
  with d e show ?thesis by simp
qed

theorem set_current_targets_is_noop_witness:
  "descriptor_set True
        \<lparr>through = ''t'', source_field_name = from_field, target_field_name = to_field,
       symmetrical = False, rel_to = Some ''B'', manager_instance = \<lparr>pk = ''a'', identity = ''a'', version_start_date = 10, version_end_date = None,
       version_birth_date = 10, as_of = None\<rparr>\<rparr>
        [Key ''c'', Key ''b'']
        \<lparr>utcnow = (\<lambda>n. 100 + int n), now_calls = 0,
       uuid4 = (\<lambda>n. replicate (Suc n) CHR ''u''), uuid_calls = 0,
       objects = [],
       through_tables = (\<lambda>_. [\<lparr>pk = ''l1'', identity = ''l1'', version_start_date = 20, version_end_date = None,
       version_birth_date = 20, as_of = None, from_id = ''a'', to_id = ''b''\<rparr>, \<lparr>pk = ''l2'', identity = ''l2'', version_start_date = 20, version_end_date = Some 30,
       version_birth_date = 20, as_of = None, from_id = ''a'', to_id = ''d''\<rparr>, \<lparr>pk = ''l3'', identity = ''l3'', version_start_date = 20, version_end_date = None,
       version_birth_date = 20, as_of = None, from_id = ''a'', to_id = ''c''\<rparr>]),
       related = (\<lambda>_. [])\<rparr>
   = (Inr (), \<lparr>utcnow = (\<lambda>n. 100 + int n), now_calls = 1,
       uuid4 = (\<lambda>n. replicate (Suc n) CHR ''u''), uuid_calls = 0,
       objects = [],
       through_tables = (\<lambda>_. [\<lparr>pk = ''l1'', identity = ''l1'', version_start_date = 20, version_end_date = None,
       version_birth_date = 20, as_of = None, from_id = ''a'', to_id = ''b''\<rparr>, \<lparr>pk = ''l2'', identity = ''l2'', version_start_date = 20, version_end_date = Some 30,
       version_birth_date = 20, as_of = None, from_id = ''a'', to_id = ''d''\<rparr>, \<lparr>pk = ''l3'', identity = ''l3'', version_start_date = 20, version_end_date = None,
       version_birth_date = 20, as_of = None, from_id = ''a'', to_id = ''c''\<rparr>]),
       related = (\<lambda>_. [])\<rparr>)"
proof -
  have c: "is_current (manager_instance \<lparr>through = ''t'', source_field_name = from_field, target_field_name = to_field,
       symmetrical = False, rel_to = Some ''B'', manager_instance = \<lparr>pk = ''a'', identity = ''a'', version_start_date = 10, version_end_date = None,
       version_birth_date = 10, as_of = None\<rparr>\<rparr>)"
    by (simp add: is_current_def)
  have s: "obj_pk ` set [Key ''c'', Key ''b'']
      = spec_current_targets \<lparr>through = ''t'', source_field_name = from_field, target_field_name = to_field,
       symmetrical = False, rel_to = Some ''B'', manager_instance = \<lparr>pk = ''a'', identity = ''a'', version_start_date = 10, version_end_date = None,
       version_birth_date = 10, as_of = None\<rparr>\<rparr>
        \<lparr>utcnow = (\<lambda>n. 100 + int n), now_calls = 0,
       uuid4 = (\<lambda>n. replicate (Suc n) CHR ''u''), uuid_calls = 0,
       objects = [],
       through_tables = (\<lambda>_. [\<lparr>pk = ''l1'', identity = ''l1'', version_start_date = 20, version_end_date = None,
       version_birth_date = 20, as_of = None, from_id = ''a'', to_id = ''b''\<rparr>, \<lparr>pk = ''l2'', identity = ''l2'', version_start_date = 20, version_end_date = Some 30,
       version_birth_date = 20, as_of = None, from_id = ''a'', to_id = ''d''\<rparr>, \<lparr>pk = ''l3'', identity = ''l3'', version_start_date = 20, version_end_date = None,
       version_birth_date = 20, as_of = None, from_id = ''a'', to_id = ''c''\<rparr>]),
       related = (\<lambda>_. [])\<rparr>"
    by (simp add: spec_current_targets_def obj_pk_def fk_val_def insert_commute)
  have e: "descriptor_set True
        \<lparr>through = ''t'', source_field_name = from_field, target_field_name = to_field,
       symmetrical = False, rel_to = Some ''B'', manager_instance = \<lparr>pk = ''a'', identity = ''a'', version_start_date = 10, version_end_date = None,
       version_birth_date = 10, as_of = None\<rparr>\<rparr>
        [Key ''c'', Key ''b'']
        \<lparr>utcnow = (\<lambda>n. 100 + int n), now_calls = 0,
       uuid4 = (\<lambda>n. replicate (Suc n) CHR ''u''), uuid_calls = 0,
       objects = [],
       through_tables = (\<lambda>_. [\<lparr>pk = ''l1'', identity = ''l1'', version_start_date = 20, version_end_date = None,
       version_birth_date = 20, as_of = None, from_id = ''a'', to_id = ''b''\<rparr>, \<lparr>pk = ''l2'', identity = ''l2'', version_start_date = 20, version_end_date = Some 30,
       version_birth_date = 20, as_of = None, from_id = ''a'', to_id = ''d''\<rparr>, \<lparr>pk = ''l3'', identity = ''l3'', version_start_date = 20, version_end_date = None,
       version_birth_date = 20, as_of = None, from_id = ''a'', to_id = ''c''\<rparr>]),
       related = (\<lambda>_. [])\<rparr>
     = (fst (descriptor_set True
        \<lparr>through = ''t'', source_field_name = from_field, target_field_name = to_field,
       symmetrical = False, rel_to = Some ''B'', manager_instance = \<lparr>pk = ''a'', identity = ''a'', version_start_date = 10, version_end_date = None,
       version_birth_date = 10, as_of = None\<rparr>\<rparr>
        [Key ''c'', Key ''b'']
        \<lparr>utcnow = (\<lambda>n. 100 + int n), now_calls = 0,
       uuid4 = (\<lambda>n. replicate (Suc n) CHR ''u''), uuid_calls = 0,
       objects = [],
       through_tables = (\<lambda>_. [\<lparr>pk = ''l1'', identity = ''l1'', version_start_date = 20, version_end_date = None,
       version_birth_date = 20, as_of = None, from_id = ''a'', to_id = ''b''\<rparr>, \<lparr>pk = ''l2'', identity = ''l2'', version_start_date = 20, version_end_date = Some 30,
       version_birth_date = 20, as_of = None, from_id = ''a'', to_id = ''d''\<rparr>, \<lparr>pk = ''l3'', identity = ''l3'', version_start_date = 20, version_end_date = None,
       version_birth_date = 20, as_of = None, from_id = ''a'', to_id = ''c''\<rparr>]),
       related = (\<lambda>_. [])\<rparr>),
       \<lparr>utcnow = (\<lambda>n. 100 + int n), now_calls = 1,
       uuid4 = (\<lambda>n. replicate (Suc n) CHR ''u''), uuid_calls = 0,
       objects = [],
       through_tables = (\<lambda>_. [\<lparr>pk = ''l1'', identity = ''l1'', version_start_date = 20, version_end_date = None,
       version_birth_date = 20, as_of = None, from_id = ''a'', to_id = ''b''\<rparr>, \<lparr>pk = ''l2'', identity = ''l2'', version_start_date = 20, version_end_date = Some 30,
       version_birth_date = 20, as_of = None, from_id = ''a'', to_id = ''d''\<rparr>, \<lparr>pk = ''l3'', identity = ''l3'', version_start_date = 20, version_end_date = None,
       version_birth_date = 20, as_of = None, from_id = ''a'', to_id = ''c''\<rparr>]),
       related = (\<lambda>_. [])\<rparr>)"
    by (simp add: descriptor_set_def get_current_m2m_diff_def pks_from_objects_def obj_pk_def
        is_current_def values_list_def qs_as_of_def add_as_of_filter_def filter_qs_def
        get_queryset_def as_of_Q_def fk_val_def get_utc_now_def remove_at_nil add_at_nil Let_def)
  from set_current_targets_is_noop[OF c s] e show ?thesis by simp
qed

section \<open>Replacing a many-to-many collection\<close>

lemma through_init_props:
  assumes "through_init i sf sid tf tid w = (obj, w')"
  shows "fk_val tf obj = tid" and "sf \<noteq> tf \<Longrightarrow> fk_val sf obj = sid"
    and "version_end_date obj = None"
    and "i = Some t \<Longrightarrow> version_start_date obj = t \<and> version_birth_date obj = t"
proof -
  let ?base = "\<lparr>pk = uuid4 w (uuid_calls w), identity = uuid4 w (uuid_calls w),
                version_start_date = utcnow w (now_calls w), version_end_date = None,
                version_birth_date = utcnow w (now_calls w), as_of = None,
                from_id = [], to_id = []\<rparr>"
  let ?o = "set_fk tf tid (set_fk sf sid ?base)"
  have obj: "obj = (case i of Some timestamp \<Rightarrow>
                      ?o\<lparr>version_birth_date := timestamp, version_start_date := timestamp\<rparr>
                    | None \<Rightarrow> ?o)"
    using assms by (cases i) (auto simp: through_init_def uuid4_str_def get_utc_now_def Let_def)
  have fk: "fk_val f (case i of Some timestamp \<Rightarrow>
                      ?o\<lparr>version_birth_date := timestamp, version_start_date := timestamp\<rparr>
                    | None \<Rightarrow> ?o) = fk_val f ?o" for f
    by (cases i; cases f; cases sf; cases tf) (simp_all add: fk_val_def set_fk_def)
  show "fk_val tf obj = tid"
    unfolding obj fk by (cases sf; cases tf) (simp_all add: fk_val_def set_fk_def)
  show "fk_val sf obj = sid" if "sf \<noteq> tf"
    unfolding obj fk using that by (cases sf; cases tf) (simp_all add: fk_val_def set_fk_def)
  show "version_end_date obj = None"
    unfolding obj by (cases i; cases sf; cases tf) (simp_all add: set_fk_def)
  show "version_start_date obj = t \<and> version_birth_date obj = t" if "i = Some t"
    unfolding obj using that by (cases sf; cases tf) (simp_all add: set_fk_def)
qed

lemma through_objs_props:
  assumes "through_objs i sf sid tf ids w = (objs, w')"
  shows "map (fk_val tf) objs = ids
         \<and> (\<forall>n \<in> set objs. (sf \<noteq> tf \<longrightarrow> fk_val sf n = sid) \<and> version_end_date n = None
               \<and> (\<forall>t. i = Some t \<longrightarrow> version_start_date n = t \<and> version_birth_date n = t))"
  using assms
proof (induction ids arbitrary: w objs w')
  case Nil
  then show ?case by simp
next
  case (Cons k ids)
  obtain obj w1 where t: "through_init i sf sid tf k w = (obj, w1)"
    by (cases "through_init i sf sid tf k w")
  obtain rest w2 where r: "through_objs i sf sid tf ids w1 = (rest, w2)"
    by (cases "through_objs i sf sid tf ids w1")
  from Cons.prems t r have objs: "objs = obj # rest" by simp
  note p = through_init_props[OF t]
  from Cons.IH[OF r] p show ?case unfolding objs by simp
qed

lemma add_items_result:
  assumes "add_items i sf tf objs m w = (Inr (), w')"
  shows "\<exists>news. through_tables w' (through m) = through_tables w (through m) @ news
          \<and> map (fk_val tf) news
              = filter (\<lambda>k. k \<notin> set (map (fk_val tf)
                           (filter (\<lambda>r. (fk_val sf r = pk (manager_instance m)
                                          \<and> fk_val tf r \<in> obj_pk ` set objs)
                                         \<and> version_end_date r = None)
                              (through_tables w (through m)))))
                  (remdups (map obj_pk objs))
          \<and> (\<forall>n \<in> set news. (sf \<noteq> tf \<longrightarrow> fk_val sf n = pk (manager_instance m))
                \<and> version_end_date n = None
                \<and> (\<forall>t. i = Some t \<longrightarrow> version_start_date n = t \<and> version_birth_date n = t))"
proof (cases "objs = []")
  case True
  with assms have "w' = w" by (simp add: add_items_def)
  with True show ?thesis by simp
next
  case False
  let ?T = "through_tables w (through m)"
  let ?ids = "filter (\<lambda>k. k \<notin> set (map (fk_val tf)
                           (filter (\<lambda>r. (fk_val sf r = pk (manager_instance m)
                                          \<and> fk_val tf r \<in> obj_pk ` set objs)
                                         \<and> version_end_date r = None) ?T)))
                  (remdups (map obj_pk objs))"
  obtain new_objs w1 where t: "through_objs i sf (pk (manager_instance m)) tf ?ids w = (new_objs, w1)"
    by (cases "through_objs i sf (pk (manager_instance m)) tf ?ids w")
  have unfold: "add_items i sf tf objs m w =
      (if distinct (map pk new_objs) \<and> (\<forall>obj \<in> set new_objs. pk obj \<notin> set (map pk ?T))
       then (Inr (), set_through (through m) (?T @ new_objs) w1)
       else (Inl IntegrityError, w1))"
    using False t by (simp add: add_items_def Let_def current_rows_plain)
  have w': "w' = set_through (through m) (?T @ new_objs) w1"
    using assms unfolding unfold by (simp split: if_splits)
  have "through_tables w' (through m) = ?T @ new_objs"
    unfolding w' by (rule through_tables_set_through)
  with through_objs_props[OF t] show ?thesis by blast
qed


lemma obj_pk_keys: "obj_pk ` set (map Key ks) = set ks"
  by (induction ks) (simp_all add: obj_pk_def)

lemma map_obj_pk_keys: "map obj_pk (map Key ks) = ks"
  by (induction ks) (simp_all add: obj_pk_def)

lemma remove_at_success:
  assumes dist: "distinct (map pk (through_tables w (through m)))"
    and ok: "remove_at ts objs m w = (Inr (), w')"
  shows "w' = set_through (through m)
        (map (\<lambda>r. if (spec_link (source_field_name m) (pk (manager_instance m))
                          (target_field_name m) (obj_pk ` set objs) r
                        \<or> symmetrical m
                          \<and> spec_link (target_field_name m) (pk (manager_instance m))
                              (source_field_name m) (obj_pk ` set objs) r)
                       \<and> spec_valid_at r ts
                   then spec_closed_at ts r else r)
           (through_tables w (through m))) w"
proof -
  let ?S = "\<lambda>r. (spec_link (source_field_name m) (pk (manager_instance m))
                          (target_field_name m) (obj_pk ` set objs) r
                        \<or> symmetrical m
                          \<and> spec_link (target_field_name m) (pk (manager_instance m))
                              (source_field_name m) (obj_pk ` set objs) r)
                       \<and> spec_valid_at r ts"
  have "\<forall>r \<in> set (through_tables w (through m)). ?S r \<longrightarrow> version_end_date r = None"
  proof (rule ccontr)
    assume "\<not> ?thesis"
    then have "\<exists>r \<in> set (through_tables w (through m)). ?S r \<and> version_end_date r \<noteq> None"
      by simp
    then have "\<exists>r \<in> set (through_tables w (through m)).
        (spec_link (source_field_name m) (pk (manager_instance m)) (target_field_name m)
           (obj_pk ` set objs) r
         \<or> symmetrical m
           \<and> spec_link (target_field_name m) (pk (manager_instance m)) (source_field_name m)
               (obj_pk ` set objs) r)
        \<and> spec_valid_at r ts \<and> version_end_date r \<noteq> None" by simp
    with dist have "fst (remove_at ts objs m w) = Inl Exception" by (rule remove_at_fail)
    with ok show False by simp
  qed
  with dist have "remove_at ts objs m w =
     (Inr (), set_through (through m)
        (map (\<lambda>r. if ?S r then spec_closed_at ts r else r) (through_tables w (through m))) w)"
    by (rule remove_at_ok)
  with ok show ?thesis by simp
qed

lemma add_unfold:
  assumes "is_current (manager_instance m)"
  shows "add i objs m w =
        (case add_items i (source_field_name m) (target_field_name m) objs m w of
           (Inl e, w1) \<Rightarrow> (Inl e, w1)
         | (Inr u, w1) \<Rightarrow>
             if symmetrical m
             then add_items i (target_field_name m) (source_field_name m) objs m w1
             else (Inr (), w1))"
  using assms by (simp add: add_def)

lemma add_result:
  assumes cur: "is_current (manager_instance m)"
    and ne: "source_field_name m \<noteq> target_field_name m"
    and ok: "add (Some ts) objs m w = (Inr (), w')"
  shows "\<exists>news. through_tables w' (through m) = through_tables w (through m) @ news
          \<and> (\<forall>n \<in> set news.
                version_start_date n = ts \<and> version_birth_date n = ts
                \<and> version_end_date n = None
                \<and> (spec_link (source_field_name m) (pk (manager_instance m))
                      (target_field_name m) (obj_pk ` set objs) n
                    \<or> symmetrical m
                      \<and> spec_link (target_field_name m) (pk (manager_instance m))
                          (source_field_name m) (obj_pk ` set objs) n))
          \<and> (\<forall>k \<in> obj_pk ` set objs.
                k \<notin> set (map (fk_val (target_field_name m))
                           (filter (\<lambda>r. (fk_val (source_field_name m) r = pk (manager_instance m)
                                          \<and> fk_val (target_field_name m) r \<in> obj_pk ` set objs)
                                         \<and> version_end_date r = None)
                              (through_tables w (through m))))
                \<longrightarrow> (\<exists>n \<in> set news. spec_link (source_field_name m) (pk (manager_instance m))
                                        (target_field_name m) {k} n))"
proof -
  let ?src = "source_field_name m" and ?tgt = "target_field_name m"
  let ?inst = "pk (manager_instance m)"
  let ?K = "obj_pk ` set objs"
  let ?V = "set (map (fk_val ?tgt)
                (filter (\<lambda>r. (fk_val ?src r = ?inst \<and> fk_val ?tgt r \<in> ?K)
                              \<and> version_end_date r = None) (through_tables w (through m))))"
  obtain r1 w1 where a1: "add_items (Some ts) ?src ?tgt objs m w = (r1, w1)"
    by (cases "add_items (Some ts) ?src ?tgt objs m w")
  have r1: "r1 = Inr ()"
  proof (cases r1)
    case (Inl e)
    with ok show ?thesis unfolding add_unfold[OF cur] a1 by simp
  next
    case (Inr u)
    then show ?thesis by simp
  qed
  from add_items_result[OF a1[unfolded r1]]
  obtain news1 where n1: "through_tables w1 (through m) = through_tables w (through m) @ news1"
    and m1: "map (fk_val ?tgt) news1 = filter (\<lambda>k. k \<notin> ?V) (remdups (map obj_pk objs))"
    and p1: "\<forall>n \<in> set news1. (?src \<noteq> ?tgt \<longrightarrow> fk_val ?src n = ?inst)
                \<and> version_end_date n = None
                \<and> (\<forall>t. Some ts = Some t \<longrightarrow> version_start_date n = t \<and> version_birth_date n = t)"
    by blast
  have t1: "fk_val ?tgt n \<in> ?K" if "n \<in> set news1" for n
  proof -
    from that have "fk_val ?tgt n \<in> set (map (fk_val ?tgt) news1)" by simp
    then show ?thesis unfolding m1 by simp
  qed
  have q1: "version_start_date n = ts \<and> version_birth_date n = ts \<and> version_end_date n = None
            \<and> spec_link ?src ?inst ?tgt ?K n" if "n \<in> set news1" for n
    using p1 that t1[OF that] ne by (simp add: spec_link_def)
  have e1: "\<exists>n \<in> set news1. spec_link ?src ?inst ?tgt {k} n" if k: "k \<in> ?K" "k \<notin> ?V" for k
  proof -
    from k have "k \<in> set (map (fk_val ?tgt) news1)" unfolding m1 by simp
    then obtain n where n: "n \<in> set news1" "fk_val ?tgt n = k" by auto
    with q1[OF n(1)] have "spec_link ?src ?inst ?tgt {k} n" by (simp add: spec_link_def)
    with n(1) show ?thesis by (rule bexI[rotated])
  qed
  show ?thesis
  proof (cases "symmetrical m")
    case False
    with ok have "w' = w1" unfolding add_unfold[OF cur] a1 r1 by simp
    with n1 q1 e1 show ?thesis by blast
  next
    case True
    with ok have a2: "add_items (Some ts) ?tgt ?src objs m w1 = (Inr (), w')"
      unfolding add_unfold[OF cur] a1 r1 by simp
    from add_items_result[OF a2]
    obtain news2 where n2: "through_tables w' (through m) = through_tables w1 (through m) @ news2"
      and m2: "map (fk_val ?src) news2
               = filter (\<lambda>k. k \<notin> set (map (fk_val ?src)
                           (filter (\<lambda>r. (fk_val ?tgt r = ?inst \<and> fk_val ?src r \<in> ?K)
                                         \<and> version_end_date r = None)
                              (through_tables w1 (through m)))))
                  (remdups (map obj_pk objs))"
      and p2: "\<forall>n \<in> set news2. (?tgt \<noteq> ?src \<longrightarrow> fk_val ?tgt n = ?inst)
                \<and> version_end_date n = None
                \<and> (\<forall>t. Some ts = Some t \<longrightarrow> version_start_date n = t \<and> version_birth_date n = t)"
      by blast
    have t2: "fk_val ?src n \<in> ?K" if "n \<in> set news2" for n
    proof -
      from that have "fk_val ?src n \<in> set (map (fk_val ?src) news2)" by simp
      then show ?thesis unfolding m2 by simp
    qed
    have q2: "version_start_date n = ts \<and> version_birth_date n = ts \<and> version_end_date n = None
            \<and> spec_link ?tgt ?inst ?src ?K n" if "n \<in> set news2" for n
      using p2 that t2[OF that] ne by (simp add: spec_link_def)
    have tab: "through_tables w' (through m) = through_tables w (through m) @ (news1 @ news2)"
      unfolding n2 n1 by simp
    have all: "\<forall>n \<in> set (news1 @ news2).
                version_start_date n = ts \<and> version_birth_date n = ts
                \<and> version_end_date n = None
                \<and> (spec_link ?src ?inst ?tgt ?K n \<or> symmetrical m \<and> spec_link ?tgt ?inst ?src ?K n)"
    proof
      fix n assume "n \<in> set (news1 @ news2)"
      then have "n \<in> set news1 \<or> n \<in> set news2" by simp
      then show "version_start_date n = ts \<and> version_birth_date n = ts
                \<and> version_end_date n = None
                \<and> (spec_link ?src ?inst ?tgt ?K n \<or> symmetrical m \<and> spec_link ?tgt ?inst ?src ?K n)"
      proof
        assume "n \<in> set news1" from q1[OF this] show ?thesis by simp
      next
        assume "n \<in> set news2" from q2[OF this] True show ?thesis by simp
      qed
    qed
    have ex: "\<forall>k \<in> ?K. k \<notin> ?V \<longrightarrow> (\<exists>n \<in> set (news1 @ news2). spec_link ?src ?inst ?tgt {k} n)"
    proof (intro ballI impI)
      fix k assume "k \<in> ?K" "k \<notin> ?V"
      from e1[OF this] obtain n where "n \<in> set news1" "spec_link ?src ?inst ?tgt {k} n" ..
      then have "n \<in> set (news1 @ news2)" "spec_link ?src ?inst ?tgt {k} n" by simp_all
      then show "\<exists>n \<in> set (news1 @ news2). spec_link ?src ?inst ?tgt {k} n" by (rule bexI[rotated])
    qed
    from tab all ex show ?thesis by (intro exI[of _ "news1 @ news2"] conjI)
  qed
qed


lemma descriptor_set_result:
  assumes cur: "is_current (manager_instance m)"
    and dist: "distinct (map pk (through_tables w (through m)))"
    and ne: "source_field_name m \<noteq> target_field_name m"
    and res: "descriptor_set True m val w = (Inr (), w')"
  shows "\<exists>news.
      through_tables w' (through m)
        = map (\<lambda>r. if (spec_link (source_field_name m) (pk (manager_instance m))
                          (target_field_name m)
                          (spec_current_targets m w - obj_pk ` set val) r
                        \<or> symmetrical m
                          \<and> spec_link (target_field_name m) (pk (manager_instance m))
                              (source_field_name m)
                              (spec_current_targets m w - obj_pk ` set val) r)
                       \<and> spec_valid_at r (utcnow w (now_calls w))
                   then spec_closed_at (utcnow w (now_calls w)) r else r)
            (through_tables w (through m)) @ news
      \<and> (\<forall>n \<in> set news.
            version_start_date n = utcnow w (now_calls w)
            \<and> version_birth_date n = utcnow w (now_calls w)
            \<and> version_end_date n = None
            \<and> (spec_link (source_field_name m) (pk (manager_instance m)) (target_field_name m)
                  (obj_pk ` set val - spec_current_targets m w) n
                \<or> symmetrical m
                  \<and> spec_link (target_field_name m) (pk (manager_instance m))
                      (source_field_name m)
                      (obj_pk ` set val - spec_current_targets m w) n))
      \<and> (\<forall>k \<in> obj_pk ` set val - spec_current_targets m w.
            \<exists>n \<in> set news. spec_link (source_field_name m) (pk (manager_instance m))
                              (target_field_name m) {k} n)"
proof -
  let ?src = "source_field_name m" and ?tgt = "target_field_name m"
  let ?inst = "pk (manager_instance m)"
  let ?T = "through_tables w (through m)"
  let ?ts = "utcnow w (now_calls w)"
  let ?removed = "spec_current_targets m w - obj_pk ` set val"
  let ?added = "obj_pk ` set val - spec_current_targets m w"
  let ?S = "\<lambda>r. (spec_link ?src ?inst ?tgt ?removed r
                 \<or> symmetrical m \<and> spec_link ?tgt ?inst ?src ?removed r)
                \<and> spec_valid_at r ?ts"
  let ?T2 = "map (\<lambda>r. if ?S r then spec_closed_at ?ts r else r) ?T"
  let ?w1 = "w\<lparr>now_calls := Suc (now_calls w)\<rparr>"
  obtain br ba where d: "get_current_m2m_diff m val w = (br, ba)"
    by (cases "get_current_m2m_diff m val w")
  note sets = get_current_m2m_diff_sets[OF d]
  have kr: "obj_pk ` set (map Key br :: 'a m2m_obj list) = ?removed"
    unfolding obj_pk_keys by (rule sets(1))
  have ka: "obj_pk ` set (map Key ba :: 'a m2m_obj list) = ?added"
    unfolding obj_pk_keys by (rule sets(2))
  obtain r2 w2 where rm: "remove_at ?ts (map Key br) m ?w1 = (r2, w2)"
    by (cases "remove_at ?ts (map Key br) m ?w1")
  have r2: "r2 = Inr ()"
  proof (cases r2)
    case (Inl e)
    with res show ?thesis unfolding descriptor_set_unfold[OF cur d] rm by simp
  next
    case (Inr u)
    then show ?thesis by simp
  qed
  have ad: "add (Some ?ts) (map Key ba) m w2 = (Inr (), w')"
    using res unfolding descriptor_set_unfold[OF cur d] rm r2 by (simp add: add_at_def)
  have T1: "through_tables ?w1 (through m) = ?T" by simp
  have dist1: "distinct (map pk (through_tables ?w1 (through m)))"
    unfolding T1 by (rule dist)
  have w2: "w2 = set_through (through m) ?T2 ?w1"
    using remove_at_success[OF dist1 rm[unfolded r2]] unfolding kr T1 .
  have T2: "through_tables w2 (through m) = ?T2"
    unfolding w2 by (rule through_tables_set_through)
  define S :: "link \<Rightarrow> bool" where "S = ?S"
  define P where "P = (\<lambda>r::link. (fk_val ?src r = ?inst \<and> fk_val ?tgt r \<in> ?added)
                                 \<and> version_end_date r = None)"
  have T2S: "?T2 = map (\<lambda>r. if S r then spec_closed_at ?ts r else r) ?T"
    unfolding S_def ..
  have fresh: "k \<notin> set (map (fk_val ?tgt) (filter P ?T2))" if k: "k \<in> ?added" for k
  proof
    assume "k \<in> set (map (fk_val ?tgt) (filter P ?T2))"
    then have "k \<in> fk_val ?tgt ` set (filter P ?T2)" by (simp only: set_map)
    then obtain r where rf: "r \<in> set (filter P ?T2)" and rk: "k = fk_val ?tgt r"
      by (rule imageE)
    from rf have rT: "r \<in> set ?T2" and rP: "P r" by (simp_all only: set_filter mem_Collect_eq)
    from rT have "r \<in> (\<lambda>r. if S r then spec_closed_at ?ts r else r) ` set ?T"
      unfolding T2S by (simp only: set_map)
    then obtain r0 where r0: "r = (if S r0 then spec_closed_at ?ts r0 else r0)" "r0 \<in> set ?T"
      by (rule imageE)
    from rP have rc: "version_end_date r = None" and rs: "fk_val ?src r = ?inst"
      unfolding P_def by simp_all
    have "\<not> S r0"
    proof
      assume "S r0"
      with r0(1) have "r = spec_closed_at ?ts r0" by simp
      with rc show False by (simp add: spec_closed_at_def)
    qed
    with r0(1) have "r = r0" by simp
    with rc rs r0(2) have "r0 \<in> set (filter (\<lambda>r. fk_val ?src r = ?inst \<and> version_end_date r = None) ?T)"
      by simp
    then have "fk_val ?tgt r0 \<in> fk_val ?tgt ` set (filter (\<lambda>r. fk_val ?src r = ?inst
          \<and> version_end_date r = None) ?T)" by (rule imageI)
    then have "fk_val ?tgt r0 \<in> spec_current_targets m w"
      unfolding spec_current_targets_def by (simp only: set_map)
    with \<open>r = r0\<close> rk have "k \<in> spec_current_targets m w" by simp
    with k show False by simp
  qed
  from add_result[OF cur ne ad, unfolded ka T2]
  obtain news where tab: "through_tables w' (through m) = ?T2 @ news"
    and props: "\<forall>n \<in> set news.
                version_start_date n = ?ts \<and> version_birth_date n = ?ts
                \<and> version_end_date n = None
                \<and> (spec_link ?src ?inst ?tgt ?added n
                    \<or> symmetrical m \<and> spec_link ?tgt ?inst ?src ?added n)"
    and ex: "\<forall>k \<in> ?added.
                k \<notin> set (map (fk_val ?tgt) (filter P ?T2))
                \<longrightarrow> (\<exists>n \<in> set news. spec_link ?src ?inst ?tgt {k} n)"
    unfolding P_def by blast
  have ex': "\<forall>k \<in> ?added. \<exists>n \<in> set news. spec_link ?src ?inst ?tgt {k} n"
  proof
    fix k assume k: "k \<in> ?added"
    from ex k have "k \<notin> set (map (fk_val ?tgt) (filter P ?T2))
                \<longrightarrow> (\<exists>n \<in> set news. spec_link ?src ?inst ?tgt {k} n)" by (rule bspec)
    with fresh[OF k] show "\<exists>n \<in> set news. spec_link ?src ?inst ?tgt {k} n" by (rule rev_mp)
  qed
  from tab props ex' show ?thesis by (intro exI[of _ news] conjI)
qed


text \<open>
Claim C4. Assigning a collection to a many-to-many attribute computes
\<open>being_removed\<close> as the current target keys minus the desired ones and
\<open>being_added\<close> as the desired keys minus the current ones. On a source that is not
current the assignment raises \<open>SuspiciousOperation\<close> and leaves the database as it
was. On a current source, when the assignment returns, the through table is the old one,
in which exactly the rows that link the source to a removed target and are valid at the
reading of the clock have been closed at that reading, followed by new rows; every new
row starts at the same reading, is open and links the source to an added target, and
every added target has such a row. Rows linking the source to a target that is both
current and desired are still in the table, unchanged. For a symmetrical relation the
rows of the opposite direction are treated alike.
\<close>

theorem set_applies_difference:
  "set (fst (get_current_m2m_diff m val w)) = spec_current_targets m w - obj_pk ` set val
   \<and> set (snd (get_current_m2m_diff m val w)) = obj_pk ` set val - spec_current_targets m w
   \<and> (\<not> is_current (manager_instance m) \<longrightarrow>
        descriptor_set auto_created m val w = (Inl SuspiciousOperation, w))
   \<and> (is_current (manager_instance m)
      \<and> distinct (map pk (through_tables w (through m)))
      \<and> source_field_name m \<noteq> target_field_name m
      \<and> fst (descriptor_set True m val w) = Inr () \<longrightarrow>
        (\<exists>news.
           through_tables (snd (descriptor_set True m val w)) (through m)
             = map (\<lambda>r. if (spec_link (source_field_name m) (pk (manager_instance m))
                               (target_field_name m)
                               (spec_current_targets m w - obj_pk ` set val) r
                             \<or> symmetrical m
                               \<and> spec_link (target_field_name m) (pk (manager_instance m))
                                   (source_field_name m)
                                   (spec_current_targets m w - obj_pk ` set val) r)
                            \<and> spec_valid_at r (utcnow w (now_calls w))
                        then spec_closed_at (utcnow w (now_calls w)) r else r)
                 (through_tables w (through m)) @ news
           \<and> (\<forall>n \<in> set news.
                 version_start_date n = utcnow w (now_calls w)
                 \<and> version_birth_date n = utcnow w (now_calls w)
                 \<and> version_end_date n = None
                 \<and> (spec_link (source_field_name m) (pk (manager_instance m))
                       (target_field_name m)
                       (obj_pk ` set val - spec_current_targets m w) n
                     \<or> symmetrical m
                       \<and> spec_link (target_field_name m) (pk (manager_instance m))
                           (source_field_name m)
                           (obj_pk ` set val - spec_current_targets m w) n))
           \<and> (\<forall>k \<in> obj_pk ` set val - spec_current_targets m w.
                 \<exists>n \<in> set news. spec_link (source_field_name m) (pk (manager_instance m))
                                   (target_field_name m) {k} n))
        \<and> (\<forall>r \<in> set (through_tables w (through m)).
              spec_link (source_field_name m) (pk (manager_instance m)) (target_field_name m)
                (spec_current_targets m w \<inter> obj_pk ` set val) r
              \<longrightarrow> r \<in> set (through_tables (snd (descriptor_set True m val w)) (through m))))"
proof (intro conjI impI)
  obtain br ba where d: "get_current_m2m_diff m val w = (br, ba)"
    by (cases "get_current_m2m_diff m val w")
  from get_current_m2m_diff_sets(1,2)[OF d]
  show "set (fst (get_current_m2m_diff m val w)) = spec_current_targets m w - obj_pk ` set val"
    and "set (snd (get_current_m2m_diff m val w)) = obj_pk ` set val - spec_current_targets m w"
    unfolding d by simp_all
next
  assume "\<not> is_current (manager_instance m)"
  then show "descriptor_set auto_created m val w = (Inl SuspiciousOperation, w)"
    by (simp add: descriptor_set_def)
next
  assume a: "is_current (manager_instance m)
      \<and> distinct (map pk (through_tables w (through m)))
      \<and> source_field_name m \<noteq> target_field_name m
      \<and> fst (descriptor_set True m val w) = Inr ()"
  let ?w' = "snd (descriptor_set True m val w)"
  let ?src = "source_field_name m" and ?tgt = "target_field_name m"
  let ?inst = "pk (manager_instance m)"
  let ?T = "through_tables w (through m)"
  let ?cur = "spec_current_targets m w" and ?new = "obj_pk ` set val"
  define S :: "link \<Rightarrow> bool" where
    "S = (\<lambda>r. (spec_link ?src ?inst ?tgt (?cur - ?new) r
              \<or> symmetrical m \<and> spec_link ?tgt ?inst ?src (?cur - ?new) r)
             \<and> spec_valid_at r (utcnow w (now_calls w)))"
  from a have res: "descriptor_set True m val w = (Inr (), ?w')"
    by (metis prod.collapse)
  from a have cur: "is_current (manager_instance m)"
    and dist: "distinct (map pk ?T)" and ne: "?src \<noteq> ?tgt" by simp_all
  note main = descriptor_set_result[OF cur dist ne res]
  show "\<exists>news.
           through_tables ?w' (through m)
             = map (\<lambda>r. if (spec_link ?src ?inst ?tgt (?cur - ?new) r
                             \<or> symmetrical m \<and> spec_link ?tgt ?inst ?src (?cur - ?new) r)
                            \<and> spec_valid_at r (utcnow w (now_calls w))
                        then spec_closed_at (utcnow w (now_calls w)) r else r) ?T @ news
           \<and> (\<forall>n \<in> set news.
                 version_start_date n = utcnow w (now_calls w)
                 \<and> version_birth_date n = utcnow w (now_calls w)
                 \<and> version_end_date n = None
                 \<and> (spec_link ?src ?inst ?tgt (?new - ?cur) n
                     \<or> symmetrical m \<and> spec_link ?tgt ?inst ?src (?new - ?cur) n))
           \<and> (\<forall>k \<in> ?new - ?cur. \<exists>n \<in> set news. spec_link ?src ?inst ?tgt {k} n)"
    by (rule main)
  from main obtain news where tab: "through_tables ?w' (through m)
      = map (\<lambda>r. if S r then spec_closed_at (utcnow w (now_calls w)) r else r) ?T @ news"
    unfolding S_def by blast
  show "\<forall>r \<in> set ?T. spec_link ?src ?inst ?tgt (?cur \<inter> ?new) r \<longrightarrow> r \<in> set (through_tables ?w' (through m))"
  proof (intro ballI impI)
    fix r assume r: "r \<in> set ?T" and l: "spec_link ?src ?inst ?tgt (?cur \<inter> ?new) r"
    from l have s: "fk_val ?src r = ?inst" and t: "fk_val ?tgt r \<in> ?cur" "fk_val ?tgt r \<in> ?new"
      by (simp_all add: spec_link_def)
    have n1: "\<not> spec_link ?src ?inst ?tgt (?cur - ?new) r"
      using t by (simp add: spec_link_def)
    have n2: "\<not> spec_link ?tgt ?inst ?src (?cur - ?new) r"
    proof
      assume "spec_link ?tgt ?inst ?src (?cur - ?new) r"
      then have "fk_val ?tgt r = ?inst" "fk_val ?src r \<notin> ?new" by (simp_all add: spec_link_def)
      with s t(2) show False by simp
    qed
    from n1 n2 have "\<not> S r" unfolding S_def by simp
    then have "(if S r then spec_closed_at (utcnow w (now_calls w)) r else r) = r" by simp
    moreover have "(if S r then spec_closed_at (utcnow w (now_calls w)) r else r)
        \<in> (\<lambda>r. if S r then spec_closed_at (utcnow w (now_calls w)) r else r) ` set ?T"
      using r by (rule imageI)
    ultimately have "r \<in> (\<lambda>r. if S r then spec_closed_at (utcnow w (now_calls w)) r else r) ` set ?T"
      by simp
    then show "r \<in> set (through_tables ?w' (through m))"
      unfolding tab by (simp only: set_append set_map UnI1)
  qed
qed


lemmas m2m_eval_defs = descriptor_set_def get_current_m2m_diff_def pks_from_objects_def obj_pk_def
  is_current_def values_list_def qs_as_of_def add_as_of_filter_def filter_qs_def get_queryset_def
  fetch_all_def set_query_time_def as_of_Q_def version_end_date_gt_def fk_val_def set_fk_def
  get_utc_now_def uuid4_str_def remove_at_def remove_items_at_def delete_at_def save_def
  add_at_def add_def add_items_def through_init_def set_through_def Let_def

theorem set_applies_difference_witness:
  "fst (descriptor_set True \<lparr>through = ''t'', source_field_name = from_field, target_field_name = to_field,
       symmetrical = False, rel_to = Some ''B'', manager_instance = \<lparr>pk = ''a'', identity = ''a'', version_start_date = 10, version_end_date = None,
       version_birth_date = 10, as_of = None\<rparr>\<rparr> [Key ''c'', Key ''e''] \<lparr>utcnow = (\<lambda>n. 100 + int n), now_calls = 0,
       uuid4 = (\<lambda>n. replicate (Suc n) CHR ''u''), uuid_calls = 0,
       objects = [],
       through_tables = (\<lambda>_. [\<lparr>pk = ''l1'', identity = ''l1'', version_start_date = 20, version_end_date = None,
       version_birth_date = 20, as_of = None, from_id = ''a'', to_id = ''b''\<rparr>, \<lparr>pk = ''l2'', identity = ''l2'', version_start_date = 20, version_end_date = Some 30,
       version_birth_date = 20, as_of = None, from_id = ''a'', to_id = ''d''\<rparr>, \<lparr>pk = ''l3'', identity = ''l3'', version_start_date = 20, version_end_date = None,
       version_birth_date = 20, as_of = None, from_id = ''a'', to_id = ''c''\<rparr>]),
       related = (\<lambda>_. [])\<rparr>) = Inr ()
   \<and> through_tables (snd (descriptor_set True \<lparr>through = ''t'', source_field_name = from_field, target_field_name = to_field,
       symmetrical = False, rel_to = Some ''B'', manager_instance = \<lparr>pk = ''a'', identity = ''a'', version_start_date = 10, version_end_date = None,
       version_birth_date = 10, as_of = None\<rparr>\<rparr> [Key ''c'', Key ''e''] \<lparr>utcnow = (\<lambda>n. 100 + int n), now_calls = 0,
       uuid4 = (\<lambda>n. replicate (Suc n) CHR ''u''), uuid_calls = 0,
       objects = [],
       through_tables = (\<lambda>_. [\<lparr>pk = ''l1'', identity = ''l1'', version_start_date = 20, version_end_date = None,
       version_birth_date = 20, as_of = None, from_id = ''a'', to_id = ''b''\<rparr>, \<lparr>pk = ''l2'', identity = ''l2'', version_start_date = 20, version_end_date = Some 30,
       version_birth_date = 20, as_of = None, from_id = ''a'', to_id = ''d''\<rparr>, \<lparr>pk = ''l3'', identity = ''l3'', version_start_date = 20, version_end_date = None,
       version_birth_date = 20, as_of = None, from_id = ''a'', to_id = ''c''\<rparr>]),
       related = (\<lambda>_. [])\<rparr>)) ''t''
     = [\<lparr>pk = ''l1'', identity = ''l1'', version_start_date = 20, version_end_date = Some 100,
       version_birth_date = 20, as_of = None, from_id = ''a'', to_id = ''b''\<rparr>,
        \<lparr>pk = ''l2'', identity = ''l2'', version_start_date = 20, version_end_date = Some 30,
       version_birth_date = 20, as_of = None, from_id = ''a'', to_id = ''d''\<rparr>,
        \<lparr>pk = ''l3'', identity = ''l3'', version_start_date = 20, version_end_date = None,
       version_birth_date = 20, as_of = None, from_id = ''a'', to_id = ''c''\<rparr>,
        \<lparr>pk = ''u'', identity = ''u'', version_start_date = 100, version_end_date = None,
       version_birth_date = 100, as_of = None, from_id = ''a'', to_id = ''e''\<rparr>]
   \<and> set (fst (get_current_m2m_diff \<lparr>through = ''t'', source_field_name = from_field, target_field_name = to_field,
       symmetrical = False, rel_to = Some ''B'', manager_instance = \<lparr>pk = ''a'', identity = ''a'', version_start_date = 10, version_end_date = None,
       version_birth_date = 10, as_of = None\<rparr>\<rparr> [Key ''c'', Key ''e''] \<lparr>utcnow = (\<lambda>n. 100 + int n), now_calls = 0,
       uuid4 = (\<lambda>n. replicate (Suc n) CHR ''u''), uuid_calls = 0,
       objects = [],
       through_tables = (\<lambda>_. [\<lparr>pk = ''l1'', identity = ''l1'', version_start_date = 20, version_end_date = None,
       version_birth_date = 20, as_of = None, from_id = ''a'', to_id = ''b''\<rparr>, \<lparr>pk = ''l2'', identity = ''l2'', version_start_date = 20, version_end_date = Some 30,
       version_birth_date = 20, as_of = None, from_id = ''a'', to_id = ''d''\<rparr>, \<lparr>pk = ''l3'', identity = ''l3'', version_start_date = 20, version_end_date = None,
       version_birth_date = 20, as_of = None, from_id = ''a'', to_id = ''c''\<rparr>]),
       related = (\<lambda>_. [])\<rparr>)) = {''b''}
   \<and> set (snd (get_current_m2m_diff \<lparr>through = ''t'', source_field_name = from_field, target_field_name = to_field,
       symmetrical = False, rel_to = Some ''B'', manager_instance = \<lparr>pk = ''a'', identity = ''a'', version_start_date = 10, version_end_date = None,
       version_birth_date = 10, as_of = None\<rparr>\<rparr> [Key ''c'', Key ''e''] \<lparr>utcnow = (\<lambda>n. 100 + int n), now_calls = 0,
       uuid4 = (\<lambda>n. replicate (Suc n) CHR ''u''), uuid_calls = 0,
       objects = [],
       through_tables = (\<lambda>_. [\<lparr>pk = ''l1'', identity = ''l1'', version_start_date = 20, version_end_date = None,
       version_birth_date = 20, as_of = None, from_id = ''a'', to_id = ''b''\<rparr>, \<lparr>pk = ''l2'', identity = ''l2'', version_start_date = 20, version_end_date = Some 30,
       version_birth_date = 20, as_of = None, from_id = ''a'', to_id = ''d''\<rparr>, \<lparr>pk = ''l3'', identity = ''l3'', version_start_date = 20, version_end_date = None,
       version_birth_date = 20, as_of = None, from_id = ''a'', to_id = ''c''\<rparr>]),
       related = (\<lambda>_. [])\<rparr>)) = {''e''}
   \<and> \<lparr>pk = ''l3'', identity = ''l3'', version_start_date = 20, version_end_date = None,
       version_birth_date = 20, as_of = None, from_id = ''a'', to_id = ''c''\<rparr>
     \<in> set (through_tables (snd (descriptor_set True \<lparr>through = ''t'', source_field_name = from_field, target_field_name = to_field,
       symmetrical = False, rel_to = Some ''B'', manager_instance = \<lparr>pk = ''a'', identity = ''a'', version_start_date = 10, version_end_date = None,
       version_birth_date = 10, as_of = None\<rparr>\<rparr> [Key ''c'', Key ''e''] \<lparr>utcnow = (\<lambda>n. 100 + int n), now_calls = 0,
       uuid4 = (\<lambda>n. replicate (Suc n) CHR ''u''), uuid_calls = 0,
       objects = [],
       through_tables = (\<lambda>_. [\<lparr>pk = ''l1'', identity = ''l1'', version_start_date = 20, version_end_date = None,
       version_birth_date = 20, as_of = None, from_id = ''a'', to_id = ''b''\<rparr>, \<lparr>pk = ''l2'', identity = ''l2'', version_start_date = 20, version_end_date = Some 30,
       version_birth_date = 20, as_of = None, from_id = ''a'', to_id = ''d''\<rparr>, \<lparr>pk = ''l3'', identity = ''l3'', version_start_date = 20, version_end_date = None,
       version_birth_date = 20, as_of = None, from_id = ''a'', to_id = ''c''\<rparr>]),
       related = (\<lambda>_. [])\<rparr>)) ''t'')"
proof -
  have ok: "fst (descriptor_set True \<lparr>through = ''t'', source_field_name = from_field, target_field_name = to_field,
       symmetrical = False, rel_to = Some ''B'', manager_instance = \<lparr>pk = ''a'', identity = ''a'', version_start_date = 10, version_end_date = None,
       version_birth_date = 10, as_of = None\<rparr>\<rparr> [Key ''c'', Key ''e''] \<lparr>utcnow = (\<lambda>n. 100 + int n), now_calls = 0,
       uuid4 = (\<lambda>n. replicate (Suc n) CHR ''u''), uuid_calls = 0,
       objects = [],
       through_tables = (\<lambda>_. [\<lparr>pk = ''l1'', identity = ''l1'', version_start_date = 20, version_end_date = None,
       version_birth_date = 20, as_of = None, from_id = ''a'', to_id = ''b''\<rparr>, \<lparr>pk = ''l2'', identity = ''l2'', version_start_date = 20, version_end_date = Some 30,
       version_birth_date = 20, as_of = None, from_id = ''a'', to_id = ''d''\<rparr>, \<lparr>pk = ''l3'', identity = ''l3'', version_start_date = 20, version_end_date = None,
       version_birth_date = 20, as_of = None, from_id = ''a'', to_id = ''c''\<rparr>]),
       related = (\<lambda>_. [])\<rparr>) = Inr ()"
    by (simp add: m2m_eval_defs del: set_filter)
  have tab: "through_tables (snd (descriptor_set True \<lparr>through = ''t'', source_field_name = from_field, target_field_name = to_field,
       symmetrical = False, rel_to = Some ''B'', manager_instance = \<lparr>pk = ''a'', identity = ''a'', version_start_date = 10, version_end_date = None,
       version_birth_date = 10, as_of = None\<rparr>\<rparr> [Key ''c'', Key ''e''] \<lparr>utcnow = (\<lambda>n. 100 + int n), now_calls = 0,
       uuid4 = (\<lambda>n. replicate (Suc n) CHR ''u''), uuid_calls = 0,
       objects = [],
       through_tables = (\<lambda>_. [\<lparr>pk = ''l1'', identity = ''l1'', version_start_date = 20, version_end_date = None,
       version_birth_date = 20, as_of = None, from_id = ''a'', to_id = ''b''\<rparr>, \<lparr>pk = ''l2'', identity = ''l2'', version_start_date = 20, version_end_date = Some 30,
       version_birth_date = 20, as_of = None, from_id = ''a'', to_id = ''d''\<rparr>, \<lparr>pk = ''l3'', identity = ''l3'', version_start_date = 20, version_end_date = None,
       version_birth_date = 20, as_of = None, from_id = ''a'', to_id = ''c''\<rparr>]),
       related = (\<lambda>_. [])\<rparr>)) ''t''
     = [\<lparr>pk = ''l1'', identity = ''l1'', version_start_date = 20, version_end_date = Some 100,
       version_birth_date = 20, as_of = None, from_id = ''a'', to_id = ''b''\<rparr>,
        \<lparr>pk = ''l2'', identity = ''l2'', version_start_date = 20, version_end_date = Some 30,
       version_birth_date = 20, as_of = None, from_id = ''a'', to_id = ''d''\<rparr>,
        \<lparr>pk = ''l3'', identity = ''l3'', version_start_date = 20, version_end_date = None,
       version_birth_date = 20, as_of = None, from_id = ''a'', to_id = ''c''\<rparr>,
        \<lparr>pk = ''u'', identity = ''u'', version_start_date = 100, version_end_date = None,
       version_birth_date = 100, as_of = None, from_id = ''a'', to_id = ''e''\<rparr>]"
    by (simp add: m2m_eval_defs del: set_filter)
  have cur: "spec_current_targets \<lparr>through = ''t'', source_field_name = from_field, target_field_name = to_field,
       symmetrical = False, rel_to = Some ''B'', manager_instance = \<lparr>pk = ''a'', identity = ''a'', version_start_date = 10, version_end_date = None,
       version_birth_date = 10, as_of = None\<rparr>\<rparr> \<lparr>utcnow = (\<lambda>n. 100 + int n), now_calls = 0,
       uuid4 = (\<lambda>n. replicate (Suc n) CHR ''u''), uuid_calls = 0,
       objects = [],
       through_tables = (\<lambda>_. [\<lparr>pk = ''l1'', identity = ''l1'', version_start_date = 20, version_end_date = None,
       version_birth_date = 20, as_of = None, from_id = ''a'', to_id = ''b''\<rparr>, \<lparr>pk = ''l2'', identity = ''l2'', version_start_date = 20, version_end_date = Some 30,
       version_birth_date = 20, as_of = None, from_id = ''a'', to_id = ''d''\<rparr>, \<lparr>pk = ''l3'', identity = ''l3'', version_start_date = 20, version_end_date = None,
       version_birth_date = 20, as_of = None, from_id = ''a'', to_id = ''c''\<rparr>]),
       related = (\<lambda>_. [])\<rparr> = {''b'', ''c''}"
    by (simp add: spec_current_targets_def fk_val_def)
  have new: "obj_pk ` set [Key ''c'', Key ''e''] = {''c'', ''e''}"
    by (simp add: obj_pk_def)
  have hyp: "is_current (manager_instance \<lparr>through = ''t'', source_field_name = from_field, target_field_name = to_field,
       symmetrical = False, rel_to = Some ''B'', manager_instance = \<lparr>pk = ''a'', identity = ''a'', version_start_date = 10, version_end_date = None,
       version_birth_date = 10, as_of = None\<rparr>\<rparr>)
      \<and> distinct (map pk (through_tables \<lparr>utcnow = (\<lambda>n. 100 + int n), now_calls = 0,
       uuid4 = (\<lambda>n. replicate (Suc n) CHR ''u''), uuid_calls = 0,
       objects = [],
       through_tables = (\<lambda>_. [\<lparr>pk = ''l1'', identity = ''l1'', version_start_date = 20, version_end_date = None,
       version_birth_date = 20, as_of = None, from_id = ''a'', to_id = ''b''\<rparr>, \<lparr>pk = ''l2'', identity = ''l2'', version_start_date = 20, version_end_date = Some 30,
       version_birth_date = 20, as_of = None, from_id = ''a'', to_id = ''d''\<rparr>, \<lparr>pk = ''l3'', identity = ''l3'', version_start_date = 20, version_end_date = None,
       version_birth_date = 20, as_of = None, from_id = ''a'', to_id = ''c''\<rparr>]),
       related = (\<lambda>_. [])\<rparr> (through \<lparr>through = ''t'', source_field_name = from_field, target_field_name = to_field,
       symmetrical = False, rel_to = Some ''B'', manager_instance = \<lparr>pk = ''a'', identity = ''a'', version_start_date = 10, version_end_date = None,
       version_birth_date = 10, as_of = None\<rparr>\<rparr>)))
      \<and> source_field_name \<lparr>through = ''t'', source_field_name = from_field, target_field_name = to_field,
       symmetrical = False, rel_to = Some ''B'', manager_instance = \<lparr>pk = ''a'', identity = ''a'', version_start_date = 10, version_end_date = None,
       version_birth_date = 10, as_of = None\<rparr>\<rparr> \<noteq> target_field_name \<lparr>through = ''t'', source_field_name = from_field, target_field_name = to_field,
       symmetrical = False, rel_to = Some ''B'', manager_instance = \<lparr>pk = ''a'', identity = ''a'', version_start_date = 10, version_end_date = None,
       version_birth_date = 10, as_of = None\<rparr>\<rparr>
      \<and> fst (descriptor_set True \<lparr>through = ''t'', source_field_name = from_field, target_field_name = to_field,
       symmetrical = False, rel_to = Some ''B'', manager_instance = \<lparr>pk = ''a'', identity = ''a'', version_start_date = 10, version_end_date = None,
       version_birth_date = 10, as_of = None\<rparr>\<rparr> [Key ''c'', Key ''e''] \<lparr>utcnow = (\<lambda>n. 100 + int n), now_calls = 0,
       uuid4 = (\<lambda>n. replicate (Suc n) CHR ''u''), uuid_calls = 0,
       objects = [],
       through_tables = (\<lambda>_. [\<lparr>pk = ''l1'', identity = ''l1'', version_start_date = 20, version_end_date = None,
       version_birth_date = 20, as_of = None, from_id = ''a'', to_id = ''b''\<rparr>, \<lparr>pk = ''l2'', identity = ''l2'', version_start_date = 20, version_end_date = Some 30,
       version_birth_date = 20, as_of = None, from_id = ''a'', to_id = ''d''\<rparr>, \<lparr>pk = ''l3'', identity = ''l3'', version_start_date = 20, version_end_date = None,
       version_birth_date = 20, as_of = None, from_id = ''a'', to_id = ''c''\<rparr>]),
       related = (\<lambda>_. [])\<rparr>) = Inr ()"
    using ok by (simp add: is_current_def)
  have l3: "spec_link (source_field_name \<lparr>through = ''t'', source_field_name = from_field, target_field_name = to_field,
       symmetrical = False, rel_to = Some ''B'', manager_instance = \<lparr>pk = ''a'', identity = ''a'', version_start_date = 10, version_end_date = None,
       version_birth_date = 10, as_of = None\<rparr>\<rparr>) (pk (manager_instance \<lparr>through = ''t'', source_field_name = from_field, target_field_name = to_field,
       symmetrical = False, rel_to = Some ''B'', manager_instance = \<lparr>pk = ''a'', identity = ''a'', version_start_date = 10, version_end_date = None,
       version_birth_date = 10, as_of = None\<rparr>\<rparr>)) (target_field_name \<lparr>through = ''t'', source_field_name = from_field, target_field_name = to_field,
       symmetrical = False, rel_to = Some ''B'', manager_instance = \<lparr>pk = ''a'', identity = ''a'', version_start_date = 10, version_end_date = None,
       version_birth_date = 10, as_of = None\<rparr>\<rparr>)
      (spec_current_targets \<lparr>through = ''t'', source_field_name = from_field, target_field_name = to_field,
       symmetrical = False, rel_to = Some ''B'', manager_instance = \<lparr>pk = ''a'', identity = ''a'', version_start_date = 10, version_end_date = None,
       version_birth_date = 10, as_of = None\<rparr>\<rparr> \<lparr>utcnow = (\<lambda>n. 100 + int n), now_calls = 0,
       uuid4 = (\<lambda>n. replicate (Suc n) CHR ''u''), uuid_calls = 0,
       objects = [],
       through_tables = (\<lambda>_. [\<lparr>pk = ''l1'', identity = ''l1'', version_start_date = 20, version_end_date = None,
       version_birth_date = 20, as_of = None, from_id = ''a'', to_id = ''b''\<rparr>, \<lparr>pk = ''l2'', identity = ''l2'', version_start_date = 20, version_end_date = Some 30,
       version_birth_date = 20, as_of = None, from_id = ''a'', to_id = ''d''\<rparr>, \<lparr>pk = ''l3'', identity = ''l3'', version_start_date = 20, version_end_date = None,
       version_birth_date = 20, as_of = None, from_id = ''a'', to_id = ''c''\<rparr>]),
       related = (\<lambda>_. [])\<rparr> \<inter> obj_pk ` set [Key ''c'', Key ''e''])
      \<lparr>pk = ''l3'', identity = ''l3'', version_start_date = 20, version_end_date = None,
       version_birth_date = 20, as_of = None, from_id = ''a'', to_id = ''c''\<rparr>"
    unfolding cur new by (simp add: spec_link_def fk_val_def)
  note t = set_applies_difference[where m="\<lparr>through = ''t'', source_field_name = from_field, target_field_name = to_field,
       symmetrical = False, rel_to = Some ''B'', manager_instance = \<lparr>pk = ''a'', identity = ''a'', version_start_date = 10, version_end_date = None,
       version_birth_date = 10, as_of = None\<rparr>\<rparr>" and val="[Key ''c'', Key ''e'']" and w="\<lparr>utcnow = (\<lambda>n. 100 + int n), now_calls = 0,
       uuid4 = (\<lambda>n. replicate (Suc n) CHR ''u''), uuid_calls = 0,
       objects = [],
       through_tables = (\<lambda>_. [\<lparr>pk = ''l1'', identity = ''l1'', version_start_date = 20, version_end_date = None,
       version_birth_date = 20, as_of = None, from_id = ''a'', to_id = ''b''\<rparr>, \<lparr>pk = ''l2'', identity = ''l2'', version_start_date = 20, version_end_date = Some 30,
       version_birth_date = 20, as_of = None, from_id = ''a'', to_id = ''d''\<rparr>, \<lparr>pk = ''l3'', identity = ''l3'', version_start_date = 20, version_end_date = None,
       version_birth_date = 20, as_of = None, from_id = ''a'', to_id = ''c''\<rparr>]),
       related = (\<lambda>_. [])\<rparr>"
      and auto_created=True]
  note a = t[THEN conjunct1]
  note b = t[THEN conjunct2, THEN conjunct1]
  note keep = t[THEN conjunct2, THEN conjunct2, THEN conjunct2, THEN mp, OF hyp, THEN conjunct2]
  have mem: "\<lparr>pk = ''l3'', identity = ''l3'', version_start_date = 20, version_end_date = None,
       version_birth_date = 20, as_of = None, from_id = ''a'', to_id = ''c''\<rparr> \<in> set (through_tables \<lparr>utcnow = (\<lambda>n. 100 + int n), now_calls = 0,
       uuid4 = (\<lambda>n. replicate (Suc n) CHR ''u''), uuid_calls = 0,
       objects = [],
       through_tables = (\<lambda>_. [\<lparr>pk = ''l1'', identity = ''l1'', version_start_date = 20, version_end_date = None,
       version_birth_date = 20, as_of = None, from_id = ''a'', to_id = ''b''\<rparr>, \<lparr>pk = ''l2'', identity = ''l2'', version_start_date = 20, version_end_date = Some 30,
       version_birth_date = 20, as_of = None, from_id = ''a'', to_id = ''d''\<rparr>, \<lparr>pk = ''l3'', identity = ''l3'', version_start_date = 20, version_end_date = None,
       version_birth_date = 20, as_of = None, from_id = ''a'', to_id = ''c''\<rparr>]),
       related = (\<lambda>_. [])\<rparr> (through \<lparr>through = ''t'', source_field_name = from_field, target_field_name = to_field,
       symmetrical = False, rel_to = Some ''B'', manager_instance = \<lparr>pk = ''a'', identity = ''a'', version_start_date = 10, version_end_date = None,
       version_birth_date = 10, as_of = None\<rparr>\<rparr>))"
    by simp
  have c: "\<lparr>pk = ''l3'', identity = ''l3'', version_start_date = 20, version_end_date = None,
       version_birth_date = 20, as_of = None, from_id = ''a'', to_id = ''c''\<rparr>
          \<in> set (through_tables (snd (descriptor_set True \<lparr>through = ''t'', source_field_name = from_field, target_field_name = to_field,
       symmetrical = False, rel_to = Some ''B'', manager_instance = \<lparr>pk = ''a'', identity = ''a'', version_start_date = 10, version_end_date = None,
       version_birth_date = 10, as_of = None\<rparr>\<rparr> [Key ''c'', Key ''e''] \<lparr>utcnow = (\<lambda>n. 100 + int n), now_calls = 0,
       uuid4 = (\<lambda>n. replicate (Suc n) CHR ''u''), uuid_calls = 0,
       objects = [],
       through_tables = (\<lambda>_. [\<lparr>pk = ''l1'', identity = ''l1'', version_start_date = 20, version_end_date = None,
       version_birth_date = 20, as_of = None, from_id = ''a'', to_id = ''b''\<rparr>, \<lparr>pk = ''l2'', identity = ''l2'', version_start_date = 20, version_end_date = Some 30,
       version_birth_date = 20, as_of = None, from_id = ''a'', to_id = ''d''\<rparr>, \<lparr>pk = ''l3'', identity = ''l3'', version_start_date = 20, version_end_date = None,
       version_birth_date = 20, as_of = None, from_id = ''a'', to_id = ''c''\<rparr>]),
       related = (\<lambda>_. [])\<rparr>))
                     (through \<lparr>through = ''t'', source_field_name = from_field, target_field_name = to_field,
       symmetrical = False, rel_to = Some ''B'', manager_instance = \<lparr>pk = ''a'', identity = ''a'', version_start_date = 10, version_end_date = None,
       version_birth_date = 10, as_of = None\<rparr>\<rparr>))"
    by (rule keep[THEN bspec, THEN mp, OF mem l3])
  have a': "set (fst (get_current_m2m_diff \<lparr>through = ''t'', source_field_name = from_field, target_field_name = to_field,
       symmetrical = False, rel_to = Some ''B'', manager_instance = \<lparr>pk = ''a'', identity = ''a'', version_start_date = 10, version_end_date = None,
       version_birth_date = 10, as_of = None\<rparr>\<rparr> [Key ''c'', Key ''e''] \<lparr>utcnow = (\<lambda>n. 100 + int n), now_calls = 0,
       uuid4 = (\<lambda>n. replicate (Suc n) CHR ''u''), uuid_calls = 0,
       objects = [],
       through_tables = (\<lambda>_. [\<lparr>pk = ''l1'', identity = ''l1'', version_start_date = 20, version_end_date = None,
       version_birth_date = 20, as_of = None, from_id = ''a'', to_id = ''b''\<rparr>, \<lparr>pk = ''l2'', identity = ''l2'', version_start_date = 20, version_end_date = Some 30,
       version_birth_date = 20, as_of = None, from_id = ''a'', to_id = ''d''\<rparr>, \<lparr>pk = ''l3'', identity = ''l3'', version_start_date = 20, version_end_date = None,
       version_birth_date = 20, as_of = None, from_id = ''a'', to_id = ''c''\<rparr>]),
       related = (\<lambda>_. [])\<rparr>)) = {''b''}"
    unfolding a cur new by auto
  have b': "set (snd (get_current_m2m_diff \<lparr>through = ''t'', source_field_name = from_field, target_field_name = to_field,
       symmetrical = False, rel_to = Some ''B'', manager_instance = \<lparr>pk = ''a'', identity = ''a'', version_start_date = 10, version_end_date = None,
       version_birth_date = 10, as_of = None\<rparr>\<rparr> [Key ''c'', Key ''e''] \<lparr>utcnow = (\<lambda>n. 100 + int n), now_calls = 0,
       uuid4 = (\<lambda>n. replicate (Suc n) CHR ''u''), uuid_calls = 0,
       objects = [],
       through_tables = (\<lambda>_. [\<lparr>pk = ''l1'', identity = ''l1'', version_start_date = 20, version_end_date = None,
       version_birth_date = 20, as_of = None, from_id = ''a'', to_id = ''b''\<rparr>, \<lparr>pk = ''l2'', identity = ''l2'', version_start_date = 20, version_end_date = Some 30,
       version_birth_date = 20, as_of = None, from_id = ''a'', to_id = ''d''\<rparr>, \<lparr>pk = ''l3'', identity = ''l3'', version_start_date = 20, version_end_date = None,
       version_birth_date = 20, as_of = None, from_id = ''a'', to_id = ''c''\<rparr>]),
       related = (\<lambda>_. [])\<rparr>)) = {''e''}"
    unfolding b cur new by auto
  from ok tab a' b' c show ?thesis by simp
qed

end
